(* ===== verification/Prelude.thy ===== *)
theory Prelude
  imports Complex_Main "HOL-Library.Word" "HOL-Library.AList" "HOL-Library.Sublist"
    "HOL-Library.Multiset"
begin

text \<open>
  The vocabulary the component theories share: the types that stand for Python's
  \<open>bytes\<close>, \<open>dict\<close> and clock readings, the operations of Python's \<open>str\<close> and
  \<open>list\<close> that the sources call, the generic lemmas on association lists and
  separators, and one locale for the argument "an invariant that every operation
  keeps holds after every sequence of operations".
\<close>

section \<open>Types\<close>

type_synonym bytes = "8 word list"
type_synonym time = real
type_synonym 'v dict = "(string \<times> 'v) list"

text \<open>
  A Python dict keeps insertion order and overwrites in place, which is what
  \<open>AList.update\<close> does; \<open>map_of\<close> is \<open>get\<close> and \<open>AList.delete\<close> is \<open>del\<close>.
\<close>

declare map_of_eq_Some_iff [simp del] Some_eq_map_of_iff [simp del]

lemma dict_get_set [simp]: "map_of (AList.update k v d) = (map_of d)(k \<mapsto> v)"
  by (simp add: update_conv')

lemma dict_get_del [simp]: "map_of (AList.delete k d) = (map_of d)(k := None)"
  by (simp add: delete_conv')

lemma dict_set_keys: "fst ` set (AList.update k v d) = insert k (fst ` set d)"
  by (simp add: dom_update)

lemma dict_del_keys: "fst ` set (AList.delete k d) = fst ` set d - {k}"
  by (induction d) auto

lemma dict_set_distinct: "distinct (map fst d) \<Longrightarrow> distinct (map fst (AList.update k v d))"
  by (rule distinct_update)

lemma dict_del_distinct: "distinct (map fst d) \<Longrightarrow> distinct (map fst (AList.delete k d))"
  by (rule distinct_delete)

lemma map_of_dom: "map_of d k = Some v \<Longrightarrow> k \<in> fst ` set d"
  by (metis map_of_eq_None_iff option.distinct(1))

text \<open>Sums over the values of a dict.\<close>

definition dict_sum :: "('v \<Rightarrow> int) \<Rightarrow> ('k \<times> 'v) list \<Rightarrow> int" where
  "dict_sum f d = sum_list (map (\<lambda>(k, v). f v) d)"

lemma dict_sum_simps [simp]:
  "dict_sum f [] = 0" "dict_sum f ((k, v) # d) = f v + dict_sum f d"
  by (simp_all add: dict_sum_def)

lemma dict_sum_set:
  assumes "distinct (map fst d)"
  shows "dict_sum f (AList.update k v d) =
    dict_sum f d - (case map_of d k of None \<Rightarrow> 0 | Some w \<Rightarrow> f w) + f v"
  using assms by (induction d) (auto split: option.splits simp: map_of_eq_None_iff dest: map_of_dom)

lemma dict_sum_del:
  assumes "distinct (map fst d)"
  shows "dict_sum f (AList.delete k d) =
    dict_sum f d - (case map_of d k of None \<Rightarrow> 0 | Some w \<Rightarrow> f w)"
  using assms by (induction d) (auto split: option.splits simp: map_of_eq_None_iff delete_idem dest: map_of_dom)

lemma dict_sum_filter:
  assumes "\<And>v. 0 \<le> f v"
  shows "dict_sum f (filter P d) \<le> dict_sum f d"
  by (induction d) (auto simp: assms add_increasing)

lemma dict_sum_nonneg: "(\<And>v. 0 \<le> f v) \<Longrightarrow> 0 \<le> dict_sum f d"
  by (induction d) auto

section \<open>Strings\<close>

definition lstrip :: "char \<Rightarrow> string \<Rightarrow> string" where
  "lstrip c s = dropWhile (\<lambda>x. x = c) s"

definition rstrip :: "char \<Rightarrow> string \<Rightarrow> string" where
  "rstrip c s = rev (dropWhile (\<lambda>x. x = c) (rev s))"

definition strip :: "char \<Rightarrow> string \<Rightarrow> string" where
  "strip c s = rstrip c (lstrip c s)"

fun split_on :: "char \<Rightarrow> string \<Rightarrow> string list" where
  "split_on c [] = [[]]"
| "split_on c (x # xs) =
     (if x = c then [] # split_on c xs
      else (case split_on c xs of [] \<Rightarrow> [[x]] | p # ps \<Rightarrow> (x # p) # ps))"

fun join_on :: "char \<Rightarrow> string list \<Rightarrow> string" where
  "join_on c [] = []"
| "join_on c [p] = p"
| "join_on c (p # q # ps) = p @ c # join_on c (q # ps)"

text \<open>\<open>s.replace(a, b)\<close> for single characters.\<close>

definition replace_char :: "char \<Rightarrow> char \<Rightarrow> string \<Rightarrow> string" where
  "replace_char a b s = map (\<lambda>x. if x = a then b else x) s"

text \<open>\<open>s.rfind(c)\<close>: the last position of \<open>c\<close>, or \<open>-1\<close>.\<close>

definition rfind :: "char \<Rightarrow> string \<Rightarrow> int" where
  "rfind c s = int (length (rev (dropWhile (\<lambda>x. x \<noteq> c) (rev s)))) - 1"

lemma split_on_nonempty [simp]: "split_on c s \<noteq> []"
  by (cases s) (auto split: list.splits)

lemma join_on_Cons: "join_on c (p # ps) = (if ps = [] then p else p @ c # join_on c ps)"
  by (cases ps) auto

lemma join_split_on [simp]: "join_on c (split_on c s) = s"
proof (induction s)
  case (Cons x xs)
  obtain p ps where ps: "split_on c xs = p # ps"
    by (cases "split_on c xs") auto
  with Cons show ?case by (auto simp: join_on_Cons)
qed simp

lemma split_on_no_sep: "p \<in> set (split_on c s) \<Longrightarrow> c \<notin> set p"
proof (induction s arbitrary: p)
  case (Cons x xs)
  then show ?case by (auto split: if_splits list.splits)
qed simp

lemma split_on_append_sep:
  "split_on c (s @ c # t) = split_on c s @ split_on c t"
proof (induction s)
  case (Cons x xs)
  then show ?case by (auto split: list.splits simp: append_eq_Cons_conv)
qed simp

lemma split_on_plain: "c \<notin> set s \<Longrightarrow> split_on c s = [s]"
  by (induction s) auto

lemma rstrip_Nil [simp]: "rstrip c [] = []"
  by (simp add: rstrip_def)

lemma rstrip_snoc: "rstrip c (s @ [x]) = (if x = c then rstrip c s else s @ [x])"
  by (simp add: rstrip_def)

lemma rstrip_no_suffix: "\<not> suffix [c] (rstrip c s)"
proof (induction s rule: rev_induct)
  case (snoc x xs)
  then show ?case by (auto simp: rstrip_snoc)
qed simp

lemma rstrip_plain: "\<not> suffix [c] s \<Longrightarrow> rstrip c s = s"
  by (cases s rule: rev_cases) (auto simp: rstrip_snoc)

lemma lstrip_hd: "lstrip c s \<noteq> [] \<Longrightarrow> hd (lstrip c s) \<noteq> c"
  unfolding lstrip_def by (induction s) auto

text \<open>\<open>str(n)\<close> for a natural number.\<close>

fun show_nat :: "nat \<Rightarrow> string" where
  "show_nat n = (if n < 10 then [char_of (48 + n)] else show_nat (n div 10) @ [char_of (48 + n mod 10)])"

declare show_nat.simps [simp del]

definition read_nat :: "string \<Rightarrow> nat" where
  "read_nat s = foldl (\<lambda>a c. 10 * a + (of_char c - 48)) 0 s"

lemma digit_char [simp]: "n < 10 \<Longrightarrow> of_char (char_of (48 + n) :: char) = (48 + n :: nat)"
  by (simp add: of_char_of)

lemma read_show: "read_nat (show_nat n) = n"
proof (induction n rule: show_nat.induct)
  case (1 n)
  show ?case
  proof (cases "n < 10")
    case True
    then show ?thesis by (subst show_nat.simps) (simp add: read_nat_def)
  next
    case False
    have "of_char (char_of (48 + n mod 10) :: char) = (48 + n mod 10 :: nat)"
      by (rule digit_char) simp
    then show ?thesis
      using 1 False by (subst show_nat.simps) (simp add: read_nat_def)
  qed
qed

lemma show_nat_inj: "show_nat a = show_nat b \<Longrightarrow> a = b"
  by (metis read_show)

text \<open>\<open>s.strip()\<close> without an argument.\<close>

definition py_space :: "char \<Rightarrow> bool" where
  "py_space c \<longleftrightarrow> c \<in> {CHR 0x09, CHR 0x0A, CHR 0x0B, CHR 0x0C, CHR 0x0D, CHR 0x1C, CHR 0x1D, CHR 0x1E, CHR 0x1F,
     CHR '' '', CHR 0x85, CHR 0xA0}"

definition py_strip :: "string \<Rightarrow> string" where
  "py_strip s = rev (dropWhile py_space (rev (dropWhile py_space s)))"

text \<open>\<open>int(s)\<close>, \<open>None\<close> for a \<open>ValueError\<close>: there may be white space around the number, a sign, and single
  underscores between its digits.\<close>

definition unsigned_int :: "string \<Rightarrow> int option" where
  "unsigned_int s = (if \<forall>g \<in> set (split_on CHR ''_'' s). g \<noteq> [] \<and> (\<forall>c \<in> set g. c \<in> set ''0123456789'')
     then Some (int (read_nat (concat (split_on CHR ''_'' s)))) else None)"

definition int_of_str :: "string \<Rightarrow> int option" where
  "int_of_str s = (case py_strip s of
     [] \<Rightarrow> None
   | c # cs \<Rightarrow> if c = CHR ''-'' then map_option uminus (unsigned_int cs)
       else if c = CHR ''+'' then unsigned_int cs else unsigned_int (c # cs))"

text \<open>The digits of a number are read back.\<close>

lemma show_nat_digits: "set (show_nat n) \<subseteq> set ''0123456789'' \<and> show_nat n \<noteq> []"
proof (induction n rule: show_nat.induct)
  case (1 n)
  have all: "\<forall>k \<in> set [0 ..< 10 :: nat]. char_of (48 + k) \<in> set ''0123456789''" by code_simp
  have d: "char_of (48 + k) \<in> set ''0123456789''" if "k < 10" for k :: nat
    using that by (intro bspec [OF all]) simp
  show ?case
  proof (cases "n < 10")
    case True
    with d [OF True] show ?thesis by (subst (1 2) show_nat.simps) (simp only: if_True list.set empty_subsetI insert_subset simp_thms list.distinct)
  next
    case False
    have "show_nat n = show_nat (n div 10) @ [char_of (48 + n mod 10)]" using False by (subst show_nat.simps) simp
    moreover have "char_of (48 + n mod 10) \<in> set ''0123456789''" by (rule d) simp
    ultimately show ?thesis using 1 [OF False]
      by (simp only: set_append list.set Un_subset_iff empty_subsetI insert_subset simp_thms append_is_Nil_conv)
  qed
qed

lemma int_of_shown: "int_of_str (show_nat n) = Some (int n)"
proof -
  have d: "set (show_nat n) \<subseteq> set ''0123456789''" "show_nat n \<noteq> []" using show_nat_digits by auto
  have all: "\<forall>c \<in> set ''0123456789''. \<not> py_space c \<and> c \<noteq> CHR ''-'' \<and> c \<noteq> CHR ''+'' \<and> c \<noteq> CHR ''_''" by code_simp
  have sp: "\<not> py_space c \<and> c \<noteq> CHR ''-'' \<and> c \<noteq> CHR ''+'' \<and> c \<noteq> CHR ''_''" if "c \<in> set (show_nat n)" for c
    using d(1) that by (intro bspec [OF all]) (rule subsetD)
  have "dropWhile py_space (show_nat n) = show_nat n" "dropWhile py_space (rev (show_nat n)) = rev (show_nat n)"
    using sp d(2) by (metis dropWhile_eq_self_iff hd_in_set rev_is_Nil_conv set_rev)+
  then have strip: "py_strip (show_nat n) = show_nat n" by (simp add: py_strip_def)
  have "split_on CHR ''_'' (show_nat n) = [show_nat n]" using sp by (intro split_on_plain) blast
  moreover have "\<forall>g \<in> set [x]. g \<noteq> [] \<and> (\<forall>c \<in> set g. c \<in> D)" if "set x \<subseteq> D" "x \<noteq> []" for x :: string and D
    using that by auto
  note this [OF d]
  ultimately have u: "unsigned_int (show_nat n) = Some (int n)" by (simp only: unsigned_int_def if_True) (simp add: read_show)
  obtain c cs where c: "show_nat n = c # cs" using d(2) by (cases "show_nat n") auto
  then have "c \<in> set (show_nat n)" by simp
  then have "c \<noteq> CHR ''-''" "c \<noteq> CHR ''+''" using sp by blast+
  then show ?thesis using u by (simp add: int_of_str_def strip [unfolded c] c)
qed

section \<open>Lists\<close>

text \<open>\<open>range(lo, hi, step)\<close> for a positive step, and \<open>xs[lo:hi]\<close> for \<open>0 \<le> lo\<close>.\<close>

definition py_range :: "int \<Rightarrow> int \<Rightarrow> int \<Rightarrow> int list" where
  "py_range lo hi step =
     map (\<lambda>i. lo + int i * step) [0 ..< nat ((hi - lo + step - 1) div step)]"

definition slice :: "'a list \<Rightarrow> int \<Rightarrow> int \<Rightarrow> 'a list" where
  "slice xs lo hi = take (nat (hi - lo)) (drop (nat lo) xs)"

lemma concat_take_drop:
  "concat (map (\<lambda>i. take k (drop (i * k) xs)) [0 ..< n]) = take (n * k) xs"
proof (induction n)
  case (Suc n)
  have "take (n * k) xs @ take k (drop (n * k) xs) = take (n * k + k) xs"
    by (simp add: take_add)
  with Suc show ?case by (simp add: add.commute)
qed simp

text \<open>An evaluated result together with the state it comes with.\<close>

lemma run_eq: "fst x = r \<Longrightarrow> x = (r, snd x)"
  by (cases x) simp

section \<open>The search for a free sequence number\<close>

text \<open>The loop \<open>while True: if not taken(n): return n; n += 1\<close>, which two modules use.\<close>

partial_function (option) free_seq :: "(nat \<Rightarrow> bool) \<Rightarrow> nat \<Rightarrow> nat option" where
  "free_seq taken n = (if taken n then free_seq taken (Suc n) else Some n)"

declare free_seq.simps [code]

lemma free_seq_returns:
  assumes "finite {n. taken n}"
  shows "\<exists>k. free_seq taken n = Some k \<and> n \<le> k \<and> \<not> taken k"
proof -
  obtain c where c: "\<forall>k \<in> {n. taken n}. k < c"
    using assms by (auto simp: finite_nat_set_iff_bounded)
  have "\<not> taken (max c n)" "n \<le> max c n"
    using c by (auto simp: max_def)
  then obtain b where b: "\<not> taken b" "n \<le> b" by blast
  then show ?thesis
  proof (induction "b - n" arbitrary: n)
    case 0
    then have "n = b" by simp
    with b(1) show ?case by (subst free_seq.simps) auto
  next
    case (Suc d)
    show ?case
    proof (cases "taken n")
      case True
      have "\<exists>k. free_seq taken (Suc n) = Some k \<and> Suc n \<le> k \<and> \<not> taken k"
        using Suc by (intro Suc(1)) auto
      with True show ?thesis by (subst free_seq.simps) auto
    next
      case False
      then show ?thesis by (subst free_seq.simps) auto
    qed
  qed
qed

section \<open>Sequences of operations\<close>

text \<open>
  A component is a state, operations on it and an invariant; what every single
  operation keeps, every sequence of operations keeps.
\<close>

locale invariant_system =
  fixes step :: "'op \<Rightarrow> 's \<Rightarrow> 's"
    and inv :: "'s \<Rightarrow> bool"
  assumes inv_step: "inv s \<Longrightarrow> inv (step op s)"
begin

lemma inv_run: "inv s \<Longrightarrow> inv (fold step ops s)"
  by (induction ops arbitrary: s) (auto intro: inv_step)

end

end
