(* ===== verification/Models.thy ===== *)
theory Models
  imports Prelude
begin

text \<open>
  The data model of \<^verbatim>\<open>stardustlib/models.py\<close> and the exceptions of
  \<^verbatim>\<open>stardustlib/exceptions.py\<close>, together with the exceptions of the standard library
  and of sqlite that the modelled code raises or catches.
\<close>

section \<open>Exceptions\<close>

text \<open>
  \<open>OSError b\<close> is an operating system error that is not one of the two subclasses the
  code names; \<open>b\<close> says whether its message contains "insufficient space", the only
  thing the code asks of a message.
\<close>

datatype exn =
    FileNotFoundError
  | PermissionError
  | OSError bool
  | ValueError
  | KeyError
  | TypeError
  | RuntimeError
  | RecursionError
  | InsufficientStorageError
  | DecryptionError
  | IntegrityError
  | KeyNotFoundError
  | InvalidKeyError
  | AuthenticationError
  | SyncError
  | DeviceRegistrationError
  | P2PConnectionError
  | ConfigMigrationError
  | KeyMismatchError
  | QuotaExceededError
  | ReplicationError
  | RecoveryError "string list"
  | CredentialStoreError
  | SqlIntegrityError
  | SqlOperationalError
  | NetworkError
  | IndexError
  | HTTPStatusError
  | JSONDecodeError
  | AttributeError
  | SystemExit

type_synonym 'a result = "exn + 'a"

text \<open>\<open>except OSError\<close> also catches the subclasses of \<open>OSError\<close>.\<close>

definition is_os_error :: "exn \<Rightarrow> bool" where
  "is_os_error e \<longleftrightarrow> (case e of FileNotFoundError \<Rightarrow> True | PermissionError \<Rightarrow> True
     | OSError _ \<Rightarrow> True | _ \<Rightarrow> False)"

text \<open>The answer to an HTTP request; \<open>Unreachable\<close> is a timeout or a connection that cannot be
  made. A connection that breaks in the middle is not told apart from it.\<close>

datatype 'a direct = Answer int 'a | Unreachable

text \<open>\<open>None\<close> and the empty string are both false in a condition.\<close>

definition truthy :: "string option \<Rightarrow> bool" where
  "truthy s \<longleftrightarrow> s \<noteq> None \<and> s \<noteq> Some []"

text \<open>\<open>body.get(key, "")\<close>.\<close>

definition get_str :: "string option \<Rightarrow> string" where
  "get_str s = (case s of None \<Rightarrow> [] | Some x \<Rightarrow> x)"

section \<open>File metadata\<close>

record file_meta =
  virtual_path :: string
  source_id :: string
  physical_path :: string
  file_size :: int
  created_at :: time
  modified_at :: time
  version :: int
  device_id :: "string option"
  sync_status :: string
  deleted :: bool

record entry_info =
  ei_name :: string
  ei_is_directory :: bool
  ei_file_size :: int
  ei_created_at :: time
  ei_modified_at :: time

record file_info =
  fi_virtual_path :: string
  fi_source_id :: string
  fi_file_size :: int
  fi_created_at :: time
  fi_modified_at :: time
  fi_is_directory :: bool

end
