(* ===== verification/Chunker.thy ===== *)
theory Chunker
  imports Models
begin

text \<open>
  \<^verbatim>\<open>stardustlib/chunker.py\<close>: an encrypted blob is cut into numbered chunks of a fixed
  size and put together again. The numbered parts come back from several holders, so
  the round trip is stated for the parts in any order.
\<close>

section \<open>Operations\<close>

definition DEFAULT_CHUNK_SIZE :: int where
  "DEFAULT_CHUNK_SIZE = 4 * 1024 * 1024"

definition split :: "bytes \<Rightarrow> int \<Rightarrow> (int \<times> bytes) list result" where
  "split blob sz =
     (if sz \<le> 0 then Inl ValueError
      else Inr (map (\<lambda>(idx, off). (int idx, slice blob off (off + sz)))
                 (enumerate 0 (py_range 0 (int (length blob)) sz))))"

definition join :: "(int \<times> bytes) list \<Rightarrow> bytes" where
  "join parts = concat (map snd (sort_key fst parts))"

definition chunk_count :: "int \<Rightarrow> int \<Rightarrow> int result" where
  "chunk_count total_size sz =
     (if sz \<le> 0 then Inl ValueError else Inr ((total_size + sz - 1) div sz))"

section \<open>The interface the replication code relies on\<close>

text \<open>
  What a caller of the chunker needs: cutting never fails for a usable size, and the
  parts, in whatever order they arrive, give the blob back.
\<close>

locale chunk_codec =
  fixes cut :: "'b \<Rightarrow> int \<Rightarrow> (int \<times> 'c) list result"
    and glue :: "(int \<times> 'c) list \<Rightarrow> 'b"
  assumes cut_total: "0 < n \<Longrightarrow> \<exists>ps. cut b n = Inr ps"
    and glue_any_order: "cut b n = Inr ps \<Longrightarrow> mset qs = mset ps \<Longrightarrow> glue qs = b"
begin

lemma glue_cut: "cut b n = Inr ps \<Longrightarrow> glue ps = b"
  by (erule glue_any_order) simp

lemma cut_injective: "cut a n = Inr ps \<Longrightarrow> cut b n = Inr ps \<Longrightarrow> a = b"
  using glue_cut by metis

end

section \<open>Correctness\<close>

lemma split_parts:
  assumes "0 < sz"
  shows "split blob sz =
    Inr (map (\<lambda>i. (int i, take (nat sz) (drop (i * nat sz) blob)))
          [0 ..< nat ((int (length blob) + sz - 1) div sz)])"
proof -
  have nat_off: "nat (int i * sz) = i * nat sz" for i
    using assms by (simp add: nat_mult_distrib)
  have "enumerate 0 (map f [0 ..< n]) = map (\<lambda>i. (i, f i)) [0 ..< n]" for f :: "nat \<Rightarrow> int" and n
    by (rule nth_equalityI) (auto simp: enumerate_eq_zip)
  with assms nat_off show ?thesis
    by (simp add: split_def py_range_def slice_def)
qed

lemma enough_chunks:
  assumes "0 < (sz :: int)"
  shows "length blob \<le> nat ((int (length blob) + sz - 1) div sz) * nat sz"
proof -
  let ?l = "int (length blob)"
  let ?q = "(?l + sz - 1) div sz"
  have "?l \<le> ?q * sz"
  proof -
    have "?q * sz = (?l + sz - 1) - (?l + sz - 1) mod sz"
      by (simp add: minus_mod_eq_div_mult)
    moreover have "(?l + sz - 1) mod sz < sz"
      using assms by simp
    ultimately show ?thesis by linarith
  qed
  moreover have "0 \<le> ?q"
    using assms by (simp add: pos_imp_zdiv_nonneg_iff)
  ultimately have "nat ?l \<le> nat (?q * sz)" by simp
  with \<open>0 \<le> ?q\<close> show ?thesis by (simp add: nat_mult_distrib)
qed

lemma sort_key_parts:
  assumes "mset qs = mset ps" and "sorted (map fst ps)" and "distinct (map fst ps)"
  shows "sort_key fst qs = ps"
proof (rule map_sorted_distinct_set_unique)
  have sets: "set qs = set ps"
    using assms(1) by (rule mset_eq_setD)
  show "inj_on fst (set (sort_key fst qs) \<union> set ps)"
    using assms(3) sets by (simp add: distinct_map)
  have "mset (map fst (sort_key fst qs)) = mset (map fst ps)"
    using assms(1) by simp
  then show "distinct (map fst (sort_key fst qs))"
    using assms(3) mset_eq_imp_distinct_iff by blast
  show "set (sort_key fst qs) = set ps"
    using sets by simp
qed (use assms in auto)

lemma join_of_split:
  assumes sp: "split blob sz = Inr ps" and perm: "mset qs = mset ps"
  shows "join qs = blob"
proof -
  have sz: "0 < sz"
    using sp by (auto simp: split_def split: if_splits)
  let ?n = "nat ((int (length blob) + sz - 1) div sz)"
  have ps: "ps = map (\<lambda>i. (int i, take (nat sz) (drop (i * nat sz) blob))) [0 ..< ?n]"
    using sp split_parts [OF sz] by simp
  have keys: "map fst ps = map int [0 ..< ?n]"
    by (simp add: ps)
  have "sort_key fst qs = ps"
    using perm by (rule sort_key_parts) (simp_all add: keys sorted_map distinct_map)
  then have "join qs = take (?n * nat sz) blob"
    by (simp add: join_def ps concat_take_drop comp_def)
  also have "\<dots> = blob"
    using enough_chunks [OF sz, of blob] by simp
  finally show ?thesis .
qed

interpretation chunks: chunk_codec split join
proof
  fix b n
  show "\<exists>ps. split b n = Inr ps" if "0 < n"
    using that by (simp add: split_def)
qed (rule join_of_split)

lemma split_chunk_sizes:
  assumes "split blob sz = Inr ps"
  shows "int (length ps) = (int (length blob) + sz - 1) div sz"
    and "\<And>i d. (i, d) \<in> set ps \<Longrightarrow> d \<noteq> [] \<and> int (length d) \<le> sz"
proof -
  have sz: "0 < sz"
    using assms by (auto simp: split_def split: if_splits)
  let ?q = "(int (length blob) + sz - 1) div sz"
  have q: "0 \<le> ?q"
    using sz by (simp add: pos_imp_zdiv_nonneg_iff)
  have ps: "ps = map (\<lambda>i. (int i, take (nat sz) (drop (i * nat sz) blob))) [0 ..< nat ?q]"
    using assms split_parts [OF sz] by simp
  then show "int (length ps) = ?q"
    using q by simp
  show "d \<noteq> [] \<and> int (length d) \<le> sz" if "(i, d) \<in> set ps" for i d
  proof -
    from that ps obtain k where k: "k < nat ?q"
        and d: "d = take (nat sz) (drop (k * nat sz) blob)"
      by auto
    have "int k * sz < int (length blob)"
    proof -
      have "int k + 1 \<le> ?q" using k by linarith
      then have "(int k + 1) * sz \<le> ?q * sz"
        using sz by (simp add: mult_right_mono)
      also have "\<dots> \<le> int (length blob) + sz - 1"
        using pos_mod_sign [OF sz, of "int (length blob) + sz - 1"]
          div_mult_mod_eq [of "int (length blob) + sz - 1" sz] by linarith
      finally show ?thesis by (simp add: algebra_simps)
    qed
    then have "k * nat sz < length blob"
      using sz by (metis int_nat_eq less_imp_le of_nat_less_iff of_nat_mult)
    with d sz show ?thesis by auto
  qed
qed

section \<open>Properties\<close>

text \<open>Cutting an encrypted blob into chunks of a positive size and joining the
  parts in whatever order the holders returned them gives the blob back.\<close>

lemma join_split_any_order:
  assumes "split blob sz = Inr parts" and "mset arrived = mset parts"
  shows "join arrived = blob"
  using assms by (rule chunks.glue_any_order)

end
