(* ===== verification/Parity_Store.thy ===== *)
theory Parity_Store
  imports Models
begin

text \<open>
  \<^verbatim>\<open>stardustlib/parity_store.py\<close>: the host role. A device keeps encrypted chunks of
  other users in \<open><dir>/<chunk_id>.bin\<close> and records owner and size of each in
  \<open>index.json\<close>. The model keeps the in-memory index, the chunk files and the index
  file; user ids are \<open>string option\<close> since the relay passes on a \<open>user_id\<close> that may
  be \<open>None\<close>. Disk faults while writing are outside the model.
\<close>

section \<open>State\<close>

record parity_meta =
  pm_owner :: "string option"
  pm_size :: "int option"

datatype index_json = IdxAbsent | IdxBroken | IdxNotDict | IdxDict "parity_meta dict"

record parity_store =
  index :: "parity_meta dict"
  chunk_files :: "bytes dict"
  index_file :: index_json
  max_bytes :: "int option"

fun load_index :: "index_json \<Rightarrow> parity_meta dict" where
  "load_index IdxAbsent = []"
| "load_index IdxBroken = []"
| "load_index IdxNotDict = []"
| "load_index (IdxDict d) = d"

definition parity_init :: "bytes dict \<Rightarrow> index_json \<Rightarrow> int option \<Rightarrow> parity_store" where
  "parity_init disk idx mx =
     \<lparr>index = load_index idx, chunk_files = disk, index_file = idx, max_bytes = mx\<rparr>"

definition save_index :: "parity_store \<Rightarrow> parity_store" where
  "save_index st = st\<lparr>index_file := IdxDict (index st)\<rparr>"

section \<open>Operations\<close>

definition validate_chunk_id :: "string \<Rightarrow> bool" where
  "validate_chunk_id cid \<longleftrightarrow>
     cid \<noteq> [] \<and> CHR ''/'' \<notin> set cid \<and> CHR 0x5C \<notin> set cid \<and> \<not> sublist ''..'' cid"

definition set_max_bytes :: "int option \<Rightarrow> parity_store \<Rightarrow> parity_store" where
  "set_max_bytes mx st = st\<lparr>max_bytes := mx\<rparr>"

definition meta_size :: "parity_meta \<Rightarrow> int" where
  "meta_size m = (case pm_size m of None \<Rightarrow> 0 | Some n \<Rightarrow> n)"

definition used_bytes :: "parity_store \<Rightarrow> int" where
  "used_bytes st = dict_sum meta_size (index st)"

definition projected :: "string \<Rightarrow> bytes \<Rightarrow> parity_store \<Rightarrow> int" where
  "projected cid data st =
     used_bytes st - (case map_of (index st) cid of None \<Rightarrow> 0 | Some m \<Rightarrow> meta_size m)
       + int (length data)"

definition parity_put ::
  "string \<Rightarrow> string option \<Rightarrow> bytes \<Rightarrow> parity_store \<Rightarrow> unit result \<times> parity_store" where
  "parity_put cid owner data st =
     (if \<not> validate_chunk_id cid then (Inl ValueError, st)
      else if (case map_of (index st) cid of None \<Rightarrow> False | Some m \<Rightarrow> pm_owner m \<noteq> owner)
        then (Inl PermissionError, st)
      else if (case max_bytes st of None \<Rightarrow> False | Some mx \<Rightarrow> mx < projected cid data st)
        then (Inl QuotaExceededError, st)
      else (Inr (), save_index
        (st\<lparr>chunk_files := AList.update cid data (chunk_files st),
            index := AList.update cid
              \<lparr>pm_owner = owner, pm_size = Some (int (length data))\<rparr> (index st)\<rparr>)))"

definition parity_fetch :: "string \<Rightarrow> string option \<Rightarrow> parity_store \<Rightarrow> bytes result" where
  "parity_fetch cid requester st =
     (if \<not> validate_chunk_id cid then Inl ValueError
      else (case map_of (index st) cid of
        None \<Rightarrow> Inl FileNotFoundError
      | Some m \<Rightarrow>
          if pm_owner m \<noteq> requester then Inl PermissionError
          else (case map_of (chunk_files st) cid of
            None \<Rightarrow> Inl FileNotFoundError | Some d \<Rightarrow> Inr d)))"

definition parity_delete ::
  "string \<Rightarrow> string option \<Rightarrow> parity_store \<Rightarrow> unit result \<times> parity_store" where
  "parity_delete cid requester st =
     (if \<not> validate_chunk_id cid then (Inl ValueError, st)
      else (case map_of (index st) cid of
        None \<Rightarrow> (Inr (), st)
      | Some m \<Rightarrow>
          if pm_owner m \<noteq> requester then (Inl PermissionError, st)
          else (Inr (), save_index
            (st\<lparr>chunk_files := AList.delete cid (chunk_files st),
                index := AList.delete cid (index st)\<rparr>))))"

definition chunk_exists :: "string \<Rightarrow> parity_store \<Rightarrow> bool" where
  "chunk_exists cid st \<longleftrightarrow> map_of (index st) cid \<noteq> None"

definition owner_of :: "string \<Rightarrow> parity_store \<Rightarrow> string option" where
  "owner_of cid st = (case map_of (index st) cid of None \<Rightarrow> None | Some m \<Rightarrow> pm_owner m)"

text \<open>The requests a host serves, one after another.\<close>

datatype parity_op =
    POp_store string "string option" bytes
  | POp_delete string "string option"
  | POp_policy "int option"

fun parity_step :: "parity_op \<Rightarrow> parity_store \<Rightarrow> parity_store" where
  "parity_step (POp_store cid u d) st = snd (parity_put cid u d st)"
| "parity_step (POp_delete cid u) st = snd (parity_delete cid u st)"
| "parity_step (POp_policy mx) st = set_max_bytes mx st"

section \<open>Invariant\<close>

text \<open>
  No chunk id twice in the index, every indexed chunk has its file with the recorded
  size, and the index file on disk is the index in memory.
\<close>

definition parity_ok :: "parity_store \<Rightarrow> bool" where
  "parity_ok st \<longleftrightarrow>
     distinct (map fst (index st)) \<and>
     (\<forall>cid m. map_of (index st) cid = Some m \<longrightarrow>
        (\<exists>d. map_of (chunk_files st) cid = Some d \<and> pm_size m = Some (int (length d)))) \<and>
     load_index (index_file st) = index st"

lemmas parity_defs = parity_put_def parity_delete_def parity_fetch_def save_index_def
  set_max_bytes_def

lemma parity_ok_put: "parity_ok st \<Longrightarrow> parity_ok (snd (parity_put cid u d st))"
  by (auto simp: parity_ok_def parity_defs distinct_update)

lemma parity_ok_delete: "parity_ok st \<Longrightarrow> parity_ok (snd (parity_delete cid u st))"
  by (auto simp: parity_ok_def parity_defs distinct_delete split: option.splits)

interpretation parity_sys: invariant_system parity_step parity_ok
proof
  show "parity_ok (parity_step op s)" if "parity_ok s" for s op
    using that parity_ok_put parity_ok_delete
    by (cases op) (auto simp: parity_ok_def set_max_bytes_def)
qed

lemma parity_ok_init_empty: "parity_ok (parity_init disk IdxAbsent mx)"
  by (simp add: parity_ok_def parity_init_def)

section \<open>The contract of an owner guarded chunk store\<close>

text \<open>
  What the P2P handlers rely on: a chunk belongs to the user who stored it first; only
  that user reads, replaces or removes it, and a refused request changes nothing.
\<close>

locale owned_chunk_store =
  fixes put :: "string \<Rightarrow> 'u \<Rightarrow> 'd \<Rightarrow> 's \<Rightarrow> unit result \<times> 's"
    and get :: "string \<Rightarrow> 'u \<Rightarrow> 's \<Rightarrow> 'd result"
    and del :: "string \<Rightarrow> 'u \<Rightarrow> 's \<Rightarrow> unit result \<times> 's"
    and owns :: "string \<Rightarrow> 's \<Rightarrow> 'u option"
  assumes put_get: "put c u d s = (Inr (), s') \<Longrightarrow> get c u s' = Inr d"
    and put_frame: "c' \<noteq> c \<Longrightarrow> get c' w (snd (put c u d s)) = get c' w s"
    and put_foreign: "owns c s = Some w \<Longrightarrow> w \<noteq> u \<Longrightarrow> snd (put c u d s) = s"
    and del_frame: "c' \<noteq> c \<Longrightarrow> get c' w (snd (del c u s)) = get c' w s"
    and del_foreign: "owns c s = Some w \<Longrightarrow> w \<noteq> u \<Longrightarrow> snd (del c u s) = s"
    and get_owner: "get c u s = Inr d \<Longrightarrow> owns c s = Some u"
begin

lemma put_foreign_get:
  assumes "w \<noteq> u" and "get c w s = Inr d"
  shows "get c w (snd (put c' u d' s)) = Inr d"
  using assms put_foreign put_frame get_owner by (cases "c' = c") auto

lemma del_foreign_get:
  assumes "w \<noteq> u" and "get c w s = Inr d"
  shows "get c w (snd (del c' u s)) = Inr d"
  using assms del_foreign del_frame get_owner by (cases "c' = c") auto

lemma unique_reader: "get c u s = Inr d \<Longrightarrow> get c w s = Inr d' \<Longrightarrow> u = w"
  by (auto dest!: get_owner)

end

interpretation parity: owned_chunk_store parity_put parity_fetch parity_delete
  "\<lambda>c s. map_option pm_owner (map_of (index s) c)"
  by unfold_locales (auto simp: parity_defs split: if_splits option.splits)

section \<open>Accounting\<close>

lemma used_after_put:
  assumes "parity_ok st" and "parity_put cid u d st = (Inr (), st')"
  shows "used_bytes st' = projected cid d st"
  using assms
  by (auto simp: parity_put_def used_bytes_def projected_def parity_ok_def save_index_def
      dict_sum_set meta_size_def split: if_splits)

lemma put_within_quota:
  assumes "parity_ok st" and "parity_put cid u d st = (Inr (), st')" and "max_bytes st = Some mx"
  shows "used_bytes st' \<le> mx"
  using assms used_after_put [OF assms(1,2)] by (auto simp: parity_put_def split: if_splits)

lemma put_failed_unchanged: "parity_put cid u d st = (Inl e, st') \<Longrightarrow> st' = st"
  by (auto simp: parity_put_def split: if_splits)

lemma delete_uses_less:
  assumes "parity_ok st"
  shows "used_bytes (snd (parity_delete cid u st)) \<le> used_bytes st"
proof -
  have nonneg: "0 \<le> meta_size m" if "map_of (index st) cid = Some m" for m
    using assms that by (fastforce simp: parity_ok_def meta_size_def)
  show ?thesis
    using assms nonneg
    by (auto simp: parity_delete_def used_bytes_def save_index_def dict_sum_del parity_ok_def
        split: option.splits)
qed

definition within_quota :: "parity_store \<Rightarrow> bool" where
  "within_quota st \<longleftrightarrow> (case max_bytes st of None \<Rightarrow> True | Some mx \<Rightarrow> used_bytes st \<le> mx)"

lemma max_bytes_put [simp]: "max_bytes (snd (parity_put cid u d st)) = max_bytes st"
  by (simp add: parity_put_def save_index_def)

lemma max_bytes_delete [simp]: "max_bytes (snd (parity_delete cid u st)) = max_bytes st"
  by (simp add: parity_delete_def save_index_def split: option.splits)

lemma within_quota_put:
  assumes "parity_ok st" and "within_quota st"
  shows "within_quota (snd (parity_put cid u d st))"
proof (cases "parity_put cid u d st")
  case (Pair r st')
  show ?thesis
  proof (cases r)
    case (Inl e)
    with Pair have "st' = st" by (blast dest: put_failed_unchanged)
    with Pair assms show ?thesis by simp
  next
    case (Inr x)
    with Pair have ok: "parity_put cid u d st = (Inr (), st')" by simp
    have "max_bytes st' = max_bytes st"
      using max_bytes_put [of cid u d st] ok by simp
    with ok show ?thesis
      using put_within_quota [OF assms(1) ok] by (simp add: within_quota_def split: option.splits)
  qed
qed

lemma within_quota_delete:
  assumes "parity_ok st" and "within_quota st"
  shows "within_quota (snd (parity_delete cid u st))"
  using assms delete_uses_less [OF assms(1), of cid u]
  by (auto simp: within_quota_def split: option.splits)

fun fixed_policy :: "parity_op \<Rightarrow> bool" where
  "fixed_policy (POp_policy mx) = False"
| "fixed_policy op = True"

lemma quota_run:
  assumes "parity_ok st" and "within_quota st" and "list_all fixed_policy ops"
  shows "within_quota (fold parity_step ops st)"
  using assms
proof (induction ops arbitrary: st)
  case (Cons op ops)
  have "parity_ok (parity_step op st)"
    using Cons.prems(1) by (rule parity_sys.inv_step)
  moreover have "within_quota (parity_step op st)"
    using Cons.prems within_quota_put within_quota_delete by (cases op) auto
  ultimately show ?case using Cons by simp
qed simp

fun requested_by :: "string option \<Rightarrow> parity_op \<Rightarrow> bool" where
  "requested_by u (POp_store cid w d) = (u = w)"
| "requested_by u (POp_delete cid w) = (u = w)"
| "requested_by u (POp_policy mx) = False"

lemma fetch_set_max [simp]: "parity_fetch cid u (set_max_bytes mx st) = parity_fetch cid u st"
  by (auto simp: parity_fetch_def set_max_bytes_def split: option.split)

lemma foreign_step:
  assumes "\<not> requested_by u op" and "parity_fetch cid u st = Inr d"
  shows "parity_fetch cid u (parity_step op st) = Inr d"
  using assms by (cases op) (auto intro: parity.put_foreign_get parity.del_foreign_get)

lemma foreign_run:
  assumes "list_all (\<lambda>op. \<not> requested_by u op) ops" and "parity_fetch cid u st = Inr d"
  shows "parity_fetch cid u (fold parity_step ops st) = Inr d"
  using assms by (induction ops arbitrary: st) (auto intro: foreign_step)

section \<open>Properties\<close>

text \<open>A chunk a user has stored on a host stays retrievable by that user, byte for
  byte, whatever sequence of store, delete and quota requests other users and the policy
  loop issue afterwards.\<close>

lemma stored_chunk_survives_others:
  assumes "parity_put cid owner data st = (Inr (), st')"
    and "list_all (\<lambda>op. \<not> requested_by owner op) ops"
  shows "parity_fetch cid owner (fold parity_step ops st') = Inr data"
  using assms(2) parity.put_get [OF assms(1)] by (rule foreign_run)



text \<open>A host that restarts after any sequence of requests, reading its index file
  back, has the index it had before: no chunk is forgotten or changes its owner.\<close>

lemma parity_restart_keeps_index:
  assumes "st = fold parity_step ops (parity_init disk IdxAbsent mx)"
  shows "index (parity_init (chunk_files st) (index_file st) mx') = index st"
proof -
  have "parity_ok st"
    unfolding assms by (rule parity_sys.inv_run) (rule parity_ok_init_empty)
  then show ?thesis by (simp add: parity_ok_def parity_init_def)
qed

end
