(* ===== verification/Storage_Source.thy ===== *)
theory Storage_Source
  imports Models
begin

text \<open>
  \<^verbatim>\<open>stardustlib/storage_source.py\<close>: the storage a device offers. A source owns the
  tree below its root; files are keyed by the path relative to it, which is what
  \<open>_resolve\<close> appends to the root. Directory sources write into a plain directory and
  switch themselves off when the operating system reports an error; loopback sources
  account for the bytes they use against a reserved size. The answers of the operating
  system that the code cannot control (permissions, failing disks, free space) come
  from an environment, as do the answers of a remote device.
\<close>

section \<open>State and environment\<close>

definition MIN_LOOPBACK_SIZE :: int where
  "MIN_LOOPBACK_SIZE = 10 * 1024 * 1024"

definition MAX_LOOPBACK_SIZE :: int where
  "MAX_LOOPBACK_SIZE = 2 * 1024 * 1024 * 1024 * 1024"

datatype source_kind = Directory | Loopback int | Remote string

record source =
  src_id :: string
  src_kind :: source_kind
  src_active :: bool
  src_files :: "bytes dict"
  src_dirs :: "string list"
  src_used :: int

text \<open>
  A failing system call: permission denied, or another error; a failing write may have
  put a prefix of the data into the file before (\<open>IOFault (Some n)\<close>).
\<close>

datatype fault = PermFault | IOFault "nat option"

record os_env =
  read_fault :: "string \<Rightarrow> string \<Rightarrow> fault option"
  write_fault :: "string \<Rightarrow> string \<Rightarrow> fault option"
  delete_fault :: "string \<Rightarrow> string \<Rightarrow> fault option"
  mkdir_fault :: "string \<Rightarrow> string \<Rightarrow> fault option"
  rmdir_fault :: "string \<Rightarrow> string \<Rightarrow> fault option"
  list_fault :: "string \<Rightarrow> string \<Rightarrow> fault option"
  disk_free :: "string \<Rightarrow> int option"
  disk_total :: "string \<Rightarrow> int option"
  remote_read :: "string \<Rightarrow> string \<Rightarrow> string option \<Rightarrow> bytes result"
  remote_write :: "string \<Rightarrow> string \<Rightarrow> bytes \<Rightarrow> unit result"
  remote_delete :: "string \<Rightarrow> string \<Rightarrow> unit result"
  remote_exists :: "string \<Rightarrow> string \<Rightarrow> bool result"
  remote_mkdir :: "string \<Rightarrow> string \<Rightarrow> unit result"
  remote_rmdir :: "string \<Rightarrow> string \<Rightarrow> unit result"
  remote_list :: "string \<Rightarrow> string \<Rightarrow> string list result"
  remote_space :: "string \<Rightarrow> (int \<times> int) result"

text \<open>An environment in which nothing fails and no remote device answers.\<close>

definition calm_env :: os_env where
  "calm_env = \<lparr>read_fault = \<lambda>i p. None, write_fault = \<lambda>i p. None, delete_fault = \<lambda>i p. None,
     mkdir_fault = \<lambda>i p. None, rmdir_fault = \<lambda>i p. None, list_fault = \<lambda>i p. None,
     disk_free = \<lambda>i. Some 1000, disk_total = \<lambda>i. Some 2000,
     remote_read = \<lambda>d p i. Inl (OSError False), remote_write = \<lambda>d p b. Inl (OSError False),
     remote_delete = \<lambda>d p. Inl (OSError False), remote_exists = \<lambda>d p. Inl (OSError False),
     remote_mkdir = \<lambda>d p. Inl (OSError False), remote_rmdir = \<lambda>d p. Inl (OSError False),
     remote_list = \<lambda>d p. Inl (OSError False), remote_space = \<lambda>d. Inl (OSError False)\<rparr>"

definition fault_free :: "os_env \<Rightarrow> bool" where
  "fault_free env \<longleftrightarrow> (\<forall>i p. read_fault env i p = None \<and> write_fault env i p = None \<and>
     delete_fault env i p = None \<and> mkdir_fault env i p = None \<and> rmdir_fault env i p = None \<and>
     list_fault env i p = None)"

definition is_remote :: "source \<Rightarrow> bool" where
  "is_remote s = (case src_kind s of Remote d \<Rightarrow> True | _ \<Rightarrow> False)"

definition deactivate :: "source \<Rightarrow> source" where
  "deactivate s = s\<lparr>src_active := False\<rparr>"

definition fault_exn :: "fault \<Rightarrow> exn" where
  "fault_exn f = (case f of PermFault \<Rightarrow> PermissionError | IOFault _ \<Rightarrow> OSError False)"

definition isfile :: "source \<Rightarrow> string \<Rightarrow> bool" where
  "isfile s p \<longleftrightarrow> map_of (src_files s) p \<noteq> None"

definition isdir :: "source \<Rightarrow> string \<Rightarrow> bool" where
  "isdir s p \<longleftrightarrow> rstrip CHR ''/'' p = [] \<or> rstrip CHR ''/'' p \<in> set (src_dirs s)"

text \<open>The directories above \<open>p\<close>, outermost first, which \<open>os.makedirs\<close> creates.\<close>

definition ancestors :: "string \<Rightarrow> string list" where
  "ancestors p = (let parts = split_on CHR ''/'' p
     in map (\<lambda>n. join_on CHR ''/'' (take n parts)) [1 ..< length parts])"

definition add_dirs :: "string list \<Rightarrow> source \<Rightarrow> source" where
  "add_dirs ds s = s\<lparr>src_dirs := src_dirs s @ filter (\<lambda>d. d \<notin> set (src_dirs s)) (remdups ds)\<rparr>"

definition put_bytes :: "string \<Rightarrow> bytes \<Rightarrow> source \<Rightarrow> source" where
  "put_bytes p d s = s\<lparr>src_files := AList.update p d (src_files s)\<rparr>"

definition partial_write :: "fault \<Rightarrow> string \<Rightarrow> bytes \<Rightarrow> source \<Rightarrow> source" where
  "partial_write f p d s =
     (case f of IOFault (Some n) \<Rightarrow> put_bytes p (take n d) s | _ \<Rightarrow> s)"

text \<open>What the operating system refuses because of the tree itself.\<close>

definition blocked :: "string \<Rightarrow> source \<Rightarrow> bool" where
  "blocked p s \<longleftrightarrow> isdir s p \<or> list_ex (isfile s) (ancestors p)"

text \<open>What the abstract class gives to a source without files of its own.\<close>

definition base_list_physical_files :: "string list result" where
  "base_list_physical_files = Inr []"

section \<open>Directory sources\<close>

definition dir_initialize :: "bool \<Rightarrow> bool \<Rightarrow> source \<Rightarrow> source" where
  "dir_initialize exists_dir access_rw s =
     (if \<not> exists_dir then deactivate s
      else if \<not> access_rw then deactivate s
      else s\<lparr>src_active := True\<rparr>)"

definition dir_read :: "fault option \<Rightarrow> string \<Rightarrow> source \<Rightarrow> bytes result \<times> source" where
  "dir_read flt p s =
     (if \<not> src_active s then (Inl (OSError False), s)
      else (case flt of
        Some f \<Rightarrow> (Inl (fault_exn f), deactivate s)
      | None \<Rightarrow>
          (case map_of (src_files s) p of
            Some d \<Rightarrow> (Inr d, s)
          | None \<Rightarrow> if isdir s p then (Inl (OSError False), deactivate s)
                   else (Inl FileNotFoundError, s))))"

definition dir_write ::
  "fault option \<Rightarrow> string \<Rightarrow> bytes \<Rightarrow> source \<Rightarrow> unit result \<times> source" where
  "dir_write flt p d s =
     (if \<not> src_active s then (Inl (OSError False), s)
      else (case flt of
        Some f \<Rightarrow> (Inl (fault_exn f), deactivate (partial_write f p d s))
      | None \<Rightarrow>
          if blocked p s then (Inl (OSError False), deactivate s)
          else (Inr (), put_bytes p d (add_dirs (ancestors p) s))))"

definition dir_delete :: "fault option \<Rightarrow> string \<Rightarrow> source \<Rightarrow> unit result \<times> source" where
  "dir_delete flt p s =
     (if \<not> src_active s then (Inl (OSError False), s)
      else (case flt of
        Some f \<Rightarrow> (Inl (fault_exn f), deactivate s)
      | None \<Rightarrow>
          if isfile s p then (Inr (), s\<lparr>src_files := AList.delete p (src_files s)\<rparr>)
          else if isdir s p then (Inl (OSError False), deactivate s)
          else (Inl FileNotFoundError, s)))"

definition check_active :: "source \<Rightarrow> unit result" where
  "check_active s = (if src_active s then Inr () else Inl (OSError False))"

definition dir_exists :: "string \<Rightarrow> source \<Rightarrow> bool result" where
  "dir_exists p s = map_sum id (\<lambda>_. isfile s p \<or> isdir s p) (check_active s)"

definition dir_mkdir :: "fault option \<Rightarrow> string \<Rightarrow> source \<Rightarrow> unit result \<times> source" where
  "dir_mkdir flt p s =
     (if \<not> src_active s then (Inl (OSError False), s)
      else (case flt of
        Some f \<Rightarrow> (Inl (fault_exn f), deactivate s)
      | None \<Rightarrow>
          if isfile s p \<or> list_ex (isfile s) (ancestors p) then (Inl (OSError False), deactivate s)
          else (Inr (), if isdir s p then s else add_dirs (ancestors p @ [p]) s)))"

text \<open>\<open>shutil.rmtree\<close>: the directory and everything below it.\<close>

definition below :: "string \<Rightarrow> string \<Rightarrow> bool" where
  "below p q \<longleftrightarrow> (let r = rstrip CHR ''/'' p in r = [] \<or> prefix (r @ ''/'') q)"

definition rmtree :: "string \<Rightarrow> source \<Rightarrow> source" where
  "rmtree p s = s\<lparr>src_files := filter (\<lambda>(q, d). \<not> below p q) (src_files s),
     src_dirs := filter (\<lambda>q. \<not> below p q \<and> q \<noteq> rstrip CHR ''/'' p) (src_dirs s)\<rparr>"

definition dir_rmdir :: "fault option \<Rightarrow> string \<Rightarrow> source \<Rightarrow> unit result \<times> source" where
  "dir_rmdir flt p s =
     (if \<not> src_active s then (Inl (OSError False), s)
      else (case flt of
        Some f \<Rightarrow> (Inl (fault_exn f), deactivate s)
      | None \<Rightarrow>
          if isdir s p then (Inr (), rmtree p s)
          else (Inl (if isfile s p then OSError False else FileNotFoundError), deactivate s)))"

definition child_name :: "string \<Rightarrow> string \<Rightarrow> string option" where
  "child_name p q =
     (let r = rstrip CHR ''/'' p; base = (if r = [] then [] else r @ ''/'') in
      if prefix base q \<and> CHR ''/'' \<notin> set (drop (length base) q) \<and> q \<noteq> base
      then Some (drop (length base) q) else None)"

definition listdir :: "string \<Rightarrow> source \<Rightarrow> string list" where
  "listdir p s = List.map_filter (child_name p) (map fst (src_files s) @ src_dirs s)"

definition dir_list_dir :: "fault option \<Rightarrow> string \<Rightarrow> source \<Rightarrow> string list result \<times> source" where
  "dir_list_dir flt p s =
     (if \<not> src_active s then (Inl (OSError False), s)
      else (case flt of
        Some f \<Rightarrow> (Inl (fault_exn f), deactivate s)
      | None \<Rightarrow>
          if isdir s p then (Inr (listdir p s), s)
          else (Inl (if isfile s p then OSError False else FileNotFoundError), deactivate s)))"

text \<open>The files that lie directly in the root; a failure counts as none.\<close>

definition files_in_root :: "os_env \<Rightarrow> source \<Rightarrow> string list" where
  "files_in_root env s = (case list_fault env (src_id s) [] of
     Some f \<Rightarrow> []
   | None \<Rightarrow> filter (\<lambda>n. CHR ''/'' \<notin> set n) (map fst (src_files s)))"

definition dir_list_physical_files :: "os_env \<Rightarrow> source \<Rightarrow> string list result" where
  "dir_list_physical_files env s = map_sum id (\<lambda>_. files_in_root env s) (check_active s)"

definition dir_space :: "int option \<Rightarrow> source \<Rightarrow> int result \<times> source" where
  "dir_space usage s = (case check_active s of
     Inl x \<Rightarrow> (Inl x, s)
   | Inr _ \<Rightarrow> (case usage of None \<Rightarrow> (Inl (OSError False), deactivate s) | Some n \<Rightarrow> (Inr n, s)))"

section \<open>Loopback sources\<close>

definition lb_new :: "string \<Rightarrow> int \<Rightarrow> source result" where
  "lb_new sid size_bytes =
     (if size_bytes < MIN_LOOPBACK_SIZE \<or> MAX_LOOPBACK_SIZE < size_bytes then Inl ValueError
      else Inr \<lparr>src_id = sid, src_kind = Loopback size_bytes, src_active = False,
                src_files = [], src_dirs = [], src_used = 0\<rparr>)"

definition len :: "bytes \<Rightarrow> int" where
  "len d = int (length d)"

definition scan_used_space :: "source \<Rightarrow> int" where
  "scan_used_space s = dict_sum len (src_files s)"

text \<open>\<open>_mount\<close> is given whether the reserved file exists.\<close>

definition lb_mount :: "bool \<Rightarrow> source \<Rightarrow> source" where
  "lb_mount image_exists s =
     (if \<not> image_exists then deactivate s
      else s\<lparr>src_used := scan_used_space s, src_active := True\<rparr>)"

definition lb_unmount :: "source \<Rightarrow> source" where
  "lb_unmount s = s\<lparr>src_active := False\<rparr>"

text \<open>\<open>_cleanup_partial\<close> removes the companion directory with all its content.\<close>

definition lb_cleanup_partial :: "source \<Rightarrow> source" where
  "lb_cleanup_partial s = s\<lparr>src_files := [], src_dirs := []\<rparr>"

definition lb_initialize :: "bool \<Rightarrow> bool \<Rightarrow> source \<Rightarrow> source" where
  "lb_initialize image_exists create_ok s =
     (if image_exists then lb_mount True s
      else if create_ok then lb_mount True s
      else (lb_cleanup_partial s)\<lparr>src_active := False\<rparr>)"

definition lb_read :: "fault option \<Rightarrow> string \<Rightarrow> source \<Rightarrow> bytes result \<times> source" where
  "lb_read flt p s =
     (if \<not> src_active s then (Inl (OSError False), s)
      else (case flt of
        Some f \<Rightarrow> (Inl (fault_exn f), s)
      | None \<Rightarrow>
          (case map_of (src_files s) p of
            Some d \<Rightarrow> (Inr d, s)
          | None \<Rightarrow> if isdir s p then (Inl (OSError False), s) else (Inl FileNotFoundError, s))))"

definition existing_size :: "string \<Rightarrow> source \<Rightarrow> int" where
  "existing_size p s = (case map_of (src_files s) p of None \<Rightarrow> 0 | Some d \<Rightarrow> len d)"

definition lb_write ::
  "int \<Rightarrow> fault option \<Rightarrow> string \<Rightarrow> bytes \<Rightarrow> source \<Rightarrow> unit result \<times> source" where
  "lb_write size_bytes flt p d s =
     (if \<not> src_active s then (Inl (OSError False), s)
      else (let needed = len d - existing_size p s in
        if 0 < needed \<and> size_bytes - src_used s < needed then (Inl (OSError True), s)
        else (case flt of
          Some f \<Rightarrow> (Inl (fault_exn f), partial_write f p d s)
        | None \<Rightarrow>
            if blocked p s then (Inl (OSError False), s)
            else (Inr (), (put_bytes p d (add_dirs (ancestors p) s))
                    \<lparr>src_used := src_used s + needed\<rparr>))))"

definition lb_delete :: "fault option \<Rightarrow> string \<Rightarrow> source \<Rightarrow> unit result \<times> source" where
  "lb_delete flt p s =
     (if \<not> src_active s then (Inl (OSError False), s)
      else (case map_of (src_files s) p of
        None \<Rightarrow> (Inr (), s)
      | Some d \<Rightarrow>
          (case flt of
            Some f \<Rightarrow> (Inl (fault_exn f), s)
          | None \<Rightarrow> (Inr (), s\<lparr>src_files := AList.delete p (src_files s),
                src_used := max 0 (src_used s - len d)\<rparr>))))"

definition lb_mkdir :: "fault option \<Rightarrow> string \<Rightarrow> source \<Rightarrow> unit result \<times> source" where
  "lb_mkdir flt p s =
     (if \<not> src_active s then (Inl (OSError False), s)
      else (case flt of
        Some f \<Rightarrow> (Inl (fault_exn f), s)
      | None \<Rightarrow>
          if isfile s p \<or> list_ex (isfile s) (ancestors p) then (Inl (OSError False), s)
          else (Inr (), if isdir s p then s else add_dirs (ancestors p @ [p]) s)))"

definition lb_rmdir :: "fault option \<Rightarrow> string \<Rightarrow> source \<Rightarrow> unit result \<times> source" where
  "lb_rmdir flt p s =
     (if \<not> src_active s then (Inl (OSError False), s)
      else if \<not> isdir s p then (Inr (), s)
      else (case flt of
        Some f \<Rightarrow> (Inl (fault_exn f), s)
      | None \<Rightarrow> (Inr (), rmtree p s)))"

definition lb_list_dir :: "fault option \<Rightarrow> string \<Rightarrow> source \<Rightarrow> string list result \<times> source" where
  "lb_list_dir flt p s =
     (if \<not> src_active s then (Inl (OSError False), s)
      else if \<not> isdir s p then (Inr [], s)
      else (case flt of
        Some f \<Rightarrow> (Inl (fault_exn f), s)
      | None \<Rightarrow> (Inr (listdir p s), s)))"

definition lb_exists :: "string \<Rightarrow> source \<Rightarrow> bool result" where
  "lb_exists p s = map_sum id (\<lambda>_. isfile s p \<or> isdir s p) (check_active s)"

definition lb_list_physical_files :: "os_env \<Rightarrow> source \<Rightarrow> string list result" where
  "lb_list_physical_files env s = map_sum id (\<lambda>_. files_in_root env s) (check_active s)"

definition lb_available_space :: "int \<Rightarrow> source \<Rightarrow> int result" where
  "lb_available_space n s = map_sum id (\<lambda>_. max 0 (n - src_used s)) (check_active s)"

definition lb_total_space :: "int \<Rightarrow> source \<Rightarrow> int result" where
  "lb_total_space n s = map_sum id (\<lambda>_. n) (check_active s)"

section \<open>The common interface: dispatch on the kind of source\<close>

definition src_read :: "os_env \<Rightarrow> string \<Rightarrow> source \<Rightarrow> bytes result \<times> source" where
  "src_read env p s =
     (let flt = read_fault env (src_id s) p in
      case src_kind s of
        Directory \<Rightarrow> dir_read flt p s
      | Loopback n \<Rightarrow> lb_read flt p s
      | Remote d \<Rightarrow> (if \<not> src_active s then Inl (OSError False) else remote_read env d p None, s))"

definition src_write :: "os_env \<Rightarrow> string \<Rightarrow> bytes \<Rightarrow> source \<Rightarrow> unit result \<times> source" where
  "src_write env p data s =
     (let flt = write_fault env (src_id s) p in
      case src_kind s of
        Directory \<Rightarrow> dir_write flt p data s
      | Loopback n \<Rightarrow> lb_write n flt p data s
      | Remote d \<Rightarrow> (if \<not> src_active s then Inl (OSError False) else remote_write env d p data, s))"

definition src_delete :: "os_env \<Rightarrow> string \<Rightarrow> source \<Rightarrow> unit result \<times> source" where
  "src_delete env p s =
     (let flt = delete_fault env (src_id s) p in
      case src_kind s of
        Directory \<Rightarrow> dir_delete flt p s
      | Loopback n \<Rightarrow> lb_delete flt p s
      | Remote d \<Rightarrow> (if \<not> src_active s then Inl (OSError False) else remote_delete env d p, s))"

definition src_mkdir :: "os_env \<Rightarrow> string \<Rightarrow> source \<Rightarrow> unit result \<times> source" where
  "src_mkdir env p s =
     (let flt = mkdir_fault env (src_id s) p in
      case src_kind s of
        Directory \<Rightarrow> dir_mkdir flt p s
      | Loopback n \<Rightarrow> lb_mkdir flt p s
      | Remote d \<Rightarrow> (if \<not> src_active s then Inl (OSError False) else remote_mkdir env d p, s))"

definition src_rmdir :: "os_env \<Rightarrow> string \<Rightarrow> source \<Rightarrow> unit result \<times> source" where
  "src_rmdir env p s =
     (let flt = rmdir_fault env (src_id s) p in
      case src_kind s of
        Directory \<Rightarrow> dir_rmdir flt p s
      | Loopback n \<Rightarrow> lb_rmdir flt p s
      | Remote d \<Rightarrow> (if \<not> src_active s then Inl (OSError False) else remote_rmdir env d p, s))"

definition src_list_dir :: "os_env \<Rightarrow> string \<Rightarrow> source \<Rightarrow> string list result \<times> source" where
  "src_list_dir env p s =
     (let flt = list_fault env (src_id s) p in
      case src_kind s of
        Directory \<Rightarrow> dir_list_dir flt p s
      | Loopback n \<Rightarrow> lb_list_dir flt p s
      | Remote d \<Rightarrow> (if \<not> src_active s then Inl (OSError False) else remote_list env d p, s))"

definition src_exists :: "os_env \<Rightarrow> string \<Rightarrow> source \<Rightarrow> bool result" where
  "src_exists env p s = (case src_kind s of
     Directory \<Rightarrow> dir_exists p s
   | Loopback n \<Rightarrow> lb_exists p s
   | Remote d \<Rightarrow> (if \<not> src_active s then Inl (OSError False) else remote_exists env d p))"

definition list_physical_files :: "os_env \<Rightarrow> source \<Rightarrow> string list result" where
  "list_physical_files env s = (case src_kind s of
     Directory \<Rightarrow> dir_list_physical_files env s
   | Loopback n \<Rightarrow> lb_list_physical_files env s
   | Remote d \<Rightarrow> base_list_physical_files)"

definition get_available_space :: "os_env \<Rightarrow> source \<Rightarrow> int result \<times> source" where
  "get_available_space env s = (case src_kind s of
     Directory \<Rightarrow> dir_space (disk_free env (src_id s)) s
   | Loopback n \<Rightarrow> (lb_available_space n s, s)
   | Remote d \<Rightarrow> (if \<not> src_active s then Inl (OSError False) else map_sum id fst (remote_space env d), s))"

definition get_total_space :: "os_env \<Rightarrow> source \<Rightarrow> int result \<times> source" where
  "get_total_space env s = (case src_kind s of
     Directory \<Rightarrow> dir_space (disk_total env (src_id s)) s
   | Loopback n \<Rightarrow> (lb_total_space n s, s)
   | Remote d \<Rightarrow> (if \<not> src_active s then Inl (OSError False) else map_sum id snd (remote_space env d), s))"

lemmas query_defs = src_exists_def list_physical_files_def get_available_space_def get_total_space_def
  check_active_def dir_exists_def lb_exists_def files_in_root_def dir_list_physical_files_def dir_space_def
  lb_list_physical_files_def base_list_physical_files_def lb_available_space_def lb_total_space_def

section \<open>The contract of a file store\<close>

text \<open>
  What the JBOD manager relies on: a store refines a map from paths to contents.
  Successful writes and deletes are map updates, failing ones leave every other path
  alone, and reading returns what the map holds.
\<close>

locale file_store =
  fixes wr :: "string \<Rightarrow> 'b \<Rightarrow> 's \<Rightarrow> unit result \<times> 's"
    and rd :: "string \<Rightarrow> 's \<Rightarrow> 'b result \<times> 's"
    and rm :: "string \<Rightarrow> 's \<Rightarrow> unit result \<times> 's"
    and look :: "'s \<Rightarrow> string \<Rightarrow> 'b option"
    and inv :: "'s \<Rightarrow> bool"
  assumes wr_ok: "inv s \<Longrightarrow> wr p d s = (Inr (), s') \<Longrightarrow> look s' = (look s)(p \<mapsto> d)"
    and wr_frame: "inv s \<Longrightarrow> q \<noteq> p \<Longrightarrow> look (snd (wr p d s)) q = look s q"
    and rm_gone: "inv s \<Longrightarrow> rm p s = (Inr (), s') \<Longrightarrow> look s' = (look s)(p := None)"
    and rm_frame: "inv s \<Longrightarrow> q \<noteq> p \<Longrightarrow> look (snd (rm p s)) q = look s q"
    and rd_look: "inv s \<Longrightarrow> rd p s = (Inr d, s') \<Longrightarrow> look s p = Some d"
    and rd_keeps: "look (snd (rd p s)) = look s"
    and inv_wr: "inv s \<Longrightarrow> inv (snd (wr p d s))"
    and inv_rm: "inv s \<Longrightarrow> inv (snd (rm p s))"
    and inv_rd: "inv s \<Longrightarrow> inv (snd (rd p s))"
begin

lemma reads_back:
  "inv s \<Longrightarrow> wr p d s = (Inr (), s') \<Longrightarrow> rd p s' = (Inr d', s'') \<Longrightarrow> d' = d"
  using wr_ok rd_look inv_wr by (metis fun_upd_same option.inject snd_conv)

lemma delete_unreadable:
  "inv s \<Longrightarrow> rm p s = (Inr (), s') \<Longrightarrow> rd p s' \<noteq> (Inr d, s'')"
  using rm_gone rd_look inv_rm by (metis fun_upd_same option.distinct(1) snd_conv)

lemma last_write_wins:
  assumes "inv s" and "wr p d s = (Inr (), s')" and "wr p d' s' = (Inr (), s'')"
  shows "look s'' = (look s)(p \<mapsto> d')"
proof -
  have "inv s'" using inv_wr [OF assms(1), of p d] assms(2) by simp
  then show ?thesis using wr_ok assms by (metis fun_upd_upd)
qed

end

definition content :: "source \<Rightarrow> string \<Rightarrow> bytes option" where
  "content s p = map_of (src_files s) p"

definition is_local :: "source \<Rightarrow> bool" where
  "is_local s \<longleftrightarrow> \<not> is_remote s"

lemmas source_op_defs = src_write_def src_read_def src_delete_def
  dir_write_def dir_read_def dir_delete_def lb_write_def lb_read_def lb_delete_def
  deactivate_def put_bytes_def add_dirs_def partial_write_def

lemma src_kind_write [simp]: "src_kind (snd (src_write env p d s)) = src_kind s"
  by (simp add: source_op_defs Let_def split: source_kind.split option.split fault.split)

lemma src_kind_delete [simp]: "src_kind (snd (src_delete env p s)) = src_kind s"
  by (simp add: source_op_defs Let_def split: source_kind.split option.split)

lemma src_kind_read [simp]: "src_kind (snd (src_read env p s)) = src_kind s"
  by (simp add: source_op_defs Let_def split: source_kind.split option.split)

lemma src_id_write [simp]: "src_id (snd (src_write env p d s)) = src_id s"
  by (simp add: source_op_defs Let_def split: source_kind.split option.split fault.split)

lemma src_id_delete [simp]: "src_id (snd (src_delete env p s)) = src_id s"
  by (simp add: source_op_defs Let_def split: source_kind.split option.split)

lemma src_id_read [simp]: "src_id (snd (src_read env p s)) = src_id s"
  by (simp add: source_op_defs Let_def split: source_kind.split option.split)

lemma is_local_cong: "src_kind t = src_kind s \<Longrightarrow> is_local t = is_local s"
  by (simp add: is_local_def is_remote_def)

interpretation src: file_store "src_write env" "src_read env" "src_delete env" content is_local
  for env
proof
  fix s p d s' assume "is_local s" and "src_write env p d s = (Inr (), s')"
  then show "content s' = (content s)(p \<mapsto> d)"
    by (auto simp: fun_eq_iff content_def is_local_def is_remote_def source_op_defs Let_def
        split: source_kind.splits option.splits if_splits)
next
  fix s p d q assume "q \<noteq> (p :: string)"
  then show "content (snd (src_write env p d s)) q = content s q"
    by (auto simp: content_def source_op_defs Let_def
        split: source_kind.splits option.splits fault.splits)
next
  fix s p s' assume "is_local s" and "src_delete env p s = (Inr (), s')"
  then show "content s' = (content s)(p := None)"
    by (auto simp: fun_eq_iff content_def is_local_def is_remote_def source_op_defs Let_def isfile_def
        split: source_kind.splits option.splits if_splits)
next
  fix s p q assume "q \<noteq> (p :: string)"
  then show "content (snd (src_delete env p s)) q = content s q"
    by (auto simp: content_def source_op_defs Let_def split: source_kind.splits option.splits)
next
  fix s p d s' assume "is_local s" and "src_read env p s = (Inr d, s')"
  then show "content s p = Some d"
    by (auto simp: content_def is_local_def is_remote_def source_op_defs Let_def
        split: source_kind.splits option.splits if_splits)
next
  fix s p show "content (snd (src_read env p s)) = content s"
    by (auto simp: fun_eq_iff content_def source_op_defs Let_def
        split: source_kind.splits option.splits)
qed (simp_all add: is_local_cong [OF src_kind_write] is_local_cong [OF src_kind_delete]
  is_local_cong [OF src_kind_read])

section \<open>Accounting of loopback sources\<close>

datatype src_op = SWrite string bytes | SDelete string | SMkdir string | SRmdir string

fun lb_step :: "int \<Rightarrow> src_op \<Rightarrow> source \<Rightarrow> source" where
  "lb_step n (SWrite p d) s = snd (lb_write n None p d s)"
| "lb_step n (SDelete p) s = snd (lb_delete None p s)"
| "lb_step n (SMkdir p) s = snd (lb_mkdir None p s)"
| "lb_step n (SRmdir p) s = snd (lb_rmdir None p s)"

definition lb_ok :: "int \<Rightarrow> source \<Rightarrow> bool" where
  "lb_ok n s \<longleftrightarrow> distinct (map fst (src_files s)) \<and>
     scan_used_space s \<le> src_used s \<and> src_used s \<le> n"

lemma len_nonneg [simp]: "0 \<le> len d"
  by (simp add: len_def)

lemma scan_nonneg: "0 \<le> scan_used_space s"
  by (simp add: scan_used_space_def dict_sum_nonneg)

lemma distinct_fst_filter: "distinct (map fst d) \<Longrightarrow> distinct (map fst (filter P d))"
  by (simp add: distinct_map_filter)

lemma add_dirs_frame [simp]:
  "src_files (add_dirs ds s) = src_files s" "src_used (add_dirs ds s) = src_used s"
  "src_active (add_dirs ds s) = src_active s" "src_kind (add_dirs ds s) = src_kind s"
  by (simp_all add: add_dirs_def)

lemma lb_ok_write:
  assumes "lb_ok n s" shows "lb_ok n (snd (lb_write n None p d s))"
  using assms
  by (auto simp: lb_ok_def lb_write_def Let_def put_bytes_def scan_used_space_def existing_size_def
      dict_sum_set dict_set_distinct split: option.splits)

lemma lb_ok_delete:
  assumes "lb_ok n s" shows "lb_ok n (snd (lb_delete None p s))"
proof (cases "map_of (src_files s) p")
  case None
  with assms show ?thesis by (simp add: lb_delete_def)
next
  case (Some d)
  have "0 \<le> n"
    using assms scan_nonneg [of s] by (auto simp: lb_ok_def)
  moreover have "src_used s - len d \<le> n"
    using assms len_nonneg [of d] unfolding lb_ok_def by linarith
  ultimately show ?thesis
    using assms Some
    by (auto simp: lb_ok_def lb_delete_def scan_used_space_def dict_sum_del dict_del_distinct)
qed

lemma lb_ok_mkdir: "lb_ok n s \<Longrightarrow> lb_ok n (snd (lb_mkdir flt p s))"
  by (auto simp: lb_ok_def lb_mkdir_def scan_used_space_def split: option.splits)

lemma lb_ok_rmdir:
  assumes "lb_ok n s" shows "lb_ok n (snd (lb_rmdir flt p s))"
proof -
  have "dict_sum len (src_files (rmtree p s)) \<le> dict_sum len (src_files s)"
    unfolding rmtree_def by (simp add: dict_sum_filter)
  with assms show ?thesis
    by (auto simp: lb_ok_def lb_rmdir_def scan_used_space_def rmtree_def distinct_fst_filter
        split: option.splits)
qed

interpretation lb_sys: invariant_system "lb_step n" "lb_ok n" for n
proof
  show "lb_ok n (lb_step n op s)" if "lb_ok n s" for s op
    using that lb_ok_write lb_ok_delete lb_ok_mkdir lb_ok_rmdir by (cases op) auto
qed

interpretation lb_mounted: invariant_system "lb_step n" "\<lambda>s. src_kind s = k \<and> src_active s" for n k
proof
  show "src_kind (lb_step n op s) = k \<and> src_active (lb_step n op s)"
    if "src_kind s = k \<and> src_active s" for s op
    using that
    by (cases op) (auto simp: lb_write_def lb_delete_def lb_mkdir_def lb_rmdir_def rmtree_def
        put_bytes_def Let_def split: option.split)
qed

lemma lb_ok_mount:
  "distinct (map fst (src_files s)) \<Longrightarrow> scan_used_space s \<le> n \<Longrightarrow> lb_ok n (lb_mount True s)"
  by (simp add: lb_ok_def lb_mount_def scan_used_space_def)

section \<open>Properties\<close>

text \<open>A mounted loopback source never stores more bytes than its reserved size,
  whatever sequence of writes, overwrites, deletions and directory operations follows,
  and what it reports as available is never more than what is really left.\<close>

lemma loopback_capacity:
  assumes "distinct (map fst (src_files s))" and "scan_used_space s \<le> n"
    and "src_kind s = Loopback n" and "t = fold (lb_step n) ops (lb_mount True s)"
  shows "scan_used_space t \<le> n \<and>
    (\<exists>a. get_available_space env t = (Inr a, t) \<and> 0 \<le> a \<and> a \<le> n - scan_used_space t)"
proof -
  have ok: "lb_ok n t"
    unfolding assms(4) by (rule lb_sys.inv_run) (rule lb_ok_mount [OF assms(1,2)])
  have "src_kind t = Loopback n \<and> src_active t"
    unfolding assms(4) by (rule lb_mounted.inv_run) (simp add: lb_mount_def assms(3))
  with ok show ?thesis
    by (auto simp: lb_ok_def query_defs)
qed

text \<open>Removing a directory that a directory source does not have (a virtual
  directory known from metadata only) raises and switches the whole source off, so that
  afterwards nothing on it can be read or written, while a loopback source ignores the
  same request.\<close>

lemma rmdir_of_absent_directory:
  assumes "src_active s" and "\<not> isdir s p" and "\<not> isfile s p"
  shows "dir_rmdir None p s = (Inl FileNotFoundError, deactivate s) \<and>
    dir_write None q d (deactivate s) = (Inl (OSError False), deactivate s) \<and>
    fst (dir_read None q (deactivate s)) = Inl (OSError False) \<and>
    lb_rmdir None p s = (Inr (), s)"
  using assms by (simp add: dir_rmdir_def dir_write_def dir_read_def lb_rmdir_def deactivate_def)

end
