(* ===== verification/Metadata_Store.thy ===== *)
theory Metadata_Store
  imports Models
begin

text \<open>
  \<^verbatim>\<open>stardustlib/metadata_store.py\<close>: the SQLite tables \<open>files\<close> and
  \<open>directories\<close>. The model keeps the rows in rowid order, the order in which a
  \<open>SELECT\<close> without \<open>ORDER BY\<close> returns them, checks \<open>UNIQUE\<close> row by row during an
  \<open>UPDATE\<close> as SQLite does, and keeps the committed tables aside while a transaction
  is open. \<open>time.time()\<close> is the argument \<open>now\<close>. The schema upgrades are in the
  theory \<open>Schema_Migration\<close>.
\<close>

section \<open>State\<close>

record file_row = file_meta +
  replication_status :: string

record mstore =
  files :: "file_row list"
  directories :: "(string \<times> time) list"
  saved :: "(file_row list \<times> (string \<times> time) list) option"

definition empty_store :: mstore where
  "empty_store = \<lparr>files = [], directories = [], saved = None\<rparr>"

text \<open>A row as the \<open>FileMetadata\<close> object the queries build from it.\<close>

definition meta_of :: "file_row \<Rightarrow> file_meta" where
  "meta_of r = \<lparr>virtual_path = virtual_path r, source_id = source_id r,
     physical_path = physical_path r, file_size = file_size r, created_at = created_at r,
     modified_at = modified_at r, version = version r, device_id = device_id r,
     sync_status = sync_status r, deleted = deleted r\<rparr>"

lemma meta_of_simps [simp]:
  "virtual_path (meta_of r) = virtual_path r" "source_id (meta_of r) = source_id r"
  "physical_path (meta_of r) = physical_path r" "file_size (meta_of r) = file_size r"
  "created_at (meta_of r) = created_at r" "modified_at (meta_of r) = modified_at r"
  "version (meta_of r) = version r" "device_id (meta_of r) = device_id r"
  "sync_status (meta_of r) = sync_status r" "deleted (meta_of r) = deleted r"
  by (simp_all add: meta_of_def)

text \<open>The table as a map from paths to rows: the abstraction the clients think in.\<close>

definition row :: "mstore \<Rightarrow> string \<Rightarrow> file_row option" where
  "row s vp = find (\<lambda>r. virtual_path r = vp) (files s)"

section \<open>Transactions\<close>

definition implicit_begin :: "mstore \<Rightarrow> mstore" where
  "implicit_begin s = (case saved s of
     None \<Rightarrow> s\<lparr>saved := Some (files s, directories s)\<rparr> | Some t \<Rightarrow> s)"

definition begin_transaction :: "mstore \<Rightarrow> unit result \<times> mstore" where
  "begin_transaction s = (case saved s of
     None \<Rightarrow> (Inr (), s\<lparr>saved := Some (files s, directories s)\<rparr>)
   | Some t \<Rightarrow> (Inl SqlOperationalError, s))"

definition commit :: "mstore \<Rightarrow> mstore" where
  "commit s = s\<lparr>saved := None\<rparr>"

definition rollback :: "mstore \<Rightarrow> mstore" where
  "rollback s = (case saved s of
     None \<Rightarrow> s | Some (fs, ds) \<Rightarrow> \<lparr>files = fs, directories = ds, saved = None\<rparr>)"

text \<open>Closing the connection drops what was not committed.\<close>

definition close :: "mstore \<Rightarrow> mstore" where
  "close s = rollback s"

section \<open>File rows\<close>

definition valid_sync_statuses :: "string list" where
  "valid_sync_statuses = [''synced'', ''pending'', ''conflict'']"

definition valid_replication_statuses :: "string list" where
  "valid_replication_statuses = [''none'', ''pending'', ''replicated'']"

text \<open>\<open>UPDATE files SET ... WHERE virtual_path = ?\<close> for columns other than the path.\<close>

definition upd :: "string \<Rightarrow> (file_row \<Rightarrow> file_row) \<Rightarrow> mstore \<Rightarrow> mstore" where
  "upd vp f s = s\<lparr>files := map (\<lambda>r. if virtual_path r = vp then f r else r) (files s)\<rparr>"

definition add_row :: "file_row \<Rightarrow> mstore \<Rightarrow> mstore" where
  "add_row r s = s\<lparr>files := files s @ [r]\<rparr>"

definition insert_file ::
  "string \<Rightarrow> string \<Rightarrow> string \<Rightarrow> int \<Rightarrow> time \<Rightarrow> time \<Rightarrow> string option \<Rightarrow> mstore \<Rightarrow> mstore" where
  "insert_file vp sid pp sz ca ma dev s =
     (case row s vp of
       Some old \<Rightarrow> commit (upd vp (\<lambda>r. r\<lparr>source_id := sid, physical_path := pp, file_size := sz,
         created_at := ca, modified_at := ma, version := version r + 1,
         sync_status := ''pending'', deleted := False, device_id := dev\<rparr>) s)
     | None \<Rightarrow> commit (add_row \<lparr>virtual_path = vp, source_id = sid, physical_path = pp,
         file_size = sz, created_at = ca, modified_at = ma, version = 1, device_id = dev,
         sync_status = ''pending'', deleted = False, replication_status = ''none''\<rparr> s))"

definition update_file ::
  "string \<Rightarrow> int \<Rightarrow> time \<Rightarrow> string option \<Rightarrow> string option \<Rightarrow> string option \<Rightarrow> mstore \<Rightarrow> mstore" where
  "update_file vp sz ma dev sid pp s =
     commit (upd vp (\<lambda>r. r\<lparr>file_size := sz, modified_at := ma, version := version r + 1,
       sync_status := ''pending'',
       device_id := (case dev of None \<Rightarrow> device_id r | Some d \<Rightarrow> Some d),
       source_id := (case sid of None \<Rightarrow> source_id r | Some i \<Rightarrow> i),
       physical_path := (case pp of None \<Rightarrow> physical_path r | Some p \<Rightarrow> p)\<rparr>) s)"

definition increment_version :: "string \<Rightarrow> string \<Rightarrow> mstore \<Rightarrow> mstore" where
  "increment_version vp dev s =
     commit (upd vp (\<lambda>r. r\<lparr>version := version r + 1, device_id := Some dev\<rparr>) s)"

definition set_sync_status :: "string \<Rightarrow> string \<Rightarrow> mstore \<Rightarrow> unit result \<times> mstore" where
  "set_sync_status vp st s =
     (if st \<notin> set valid_sync_statuses then (Inl ValueError, s)
      else (Inr (), commit (upd vp (\<lambda>r. r\<lparr>sync_status := st\<rparr>) s)))"

definition set_replication_status :: "string \<Rightarrow> string \<Rightarrow> mstore \<Rightarrow> unit result \<times> mstore" where
  "set_replication_status vp st s =
     (if st \<notin> set valid_replication_statuses then (Inl ValueError, s)
      else (Inr (), commit (upd vp (\<lambda>r. r\<lparr>replication_status := st\<rparr>) s)))"

definition get_replication_status :: "string \<Rightarrow> mstore \<Rightarrow> string option" where
  "get_replication_status vp s = map_option replication_status (row s vp)"

definition list_virtual_paths_for_replication ::
  "string list \<Rightarrow> string option \<Rightarrow> mstore \<Rightarrow> string list" where
  "list_virtual_paths_for_replication statuses owner s =
     (if statuses = [] then []
      else map virtual_path (filter (\<lambda>r. \<not> deleted r \<and> replication_status r \<in> set statuses \<and>
        (case owner of None \<Rightarrow> True | Some d \<Rightarrow> device_id r = Some d \<or> device_id r = None)) (files s)))"

definition get_pending_files :: "mstore \<Rightarrow> file_meta list" where
  "get_pending_files s = map meta_of (filter (\<lambda>r. sync_status r = ''pending'') (files s))"

definition delete_file_row :: "string \<Rightarrow> time \<Rightarrow> mstore \<Rightarrow> mstore" where
  "delete_file_row vp now s =
     commit (upd vp (\<lambda>r. r\<lparr>deleted := True, version := version r + 1,
       sync_status := ''pending'', modified_at := now\<rparr>) s)"

definition expired :: "time \<Rightarrow> time \<Rightarrow> file_row \<Rightarrow> bool" where
  "expired now retention r \<longleftrightarrow> deleted r \<and> modified_at r < now - retention"

definition purge_expired_tombstones :: "time \<Rightarrow> time \<Rightarrow> mstore \<Rightarrow> int \<times> mstore" where
  "purge_expired_tombstones now retention s =
     (int (length (filter (expired now retention) (files s))),
      commit (s\<lparr>files := filter (\<lambda>r. \<not> expired now retention r) (files s)\<rparr>))"

definition lookup :: "string \<Rightarrow> mstore \<Rightarrow> file_meta option" where
  "lookup vp s = map_option meta_of (find (\<lambda>r. virtual_path r = vp \<and> \<not> deleted r) (files s))"

definition lookup_any :: "string \<Rightarrow> mstore \<Rightarrow> file_meta option" where
  "lookup_any vp s = map_option meta_of (row s vp)"

definition live_physical_paths_for_device :: "string \<Rightarrow> mstore \<Rightarrow> (string \<times> string) list" where
  "live_physical_paths_for_device dev s =
     remdups (map (\<lambda>r. (source_id r, physical_path r))
       (filter (\<lambda>r. \<not> deleted r \<and> (device_id r = Some dev \<or> device_id r = None)) (files s)))"

section \<open>Directory rows\<close>

definition insert_directory :: "string \<Rightarrow> time \<Rightarrow> mstore \<Rightarrow> mstore" where
  "insert_directory vp ca s =
     commit (if vp \<in> fst ` set (directories s) then s
             else s\<lparr>directories := directories s @ [(vp, ca)]\<rparr>)"

definition lookup_directory :: "string \<Rightarrow> mstore \<Rightarrow> bool" where
  "lookup_directory vp s \<longleftrightarrow> vp \<in> fst ` set (directories s)"

definition delete_directory_entry :: "string \<Rightarrow> mstore \<Rightarrow> mstore" where
  "delete_directory_entry vp s =
     commit (s\<lparr>directories := filter (\<lambda>(p, ca). p \<noteq> vp) (directories s)\<rparr>)"

section \<open>Listing\<close>

definition ascii_lower :: "char \<Rightarrow> char" where
  "ascii_lower c = (let n = of_char c :: nat in if 65 \<le> n \<and> n \<le> 90 then char_of (n + 32) else c)"

text \<open>SQLite's \<open>LIKE\<close>: \<open>%\<close> stands for any string, \<open>_\<close> for any character, and
  ASCII letters are compared without case.\<close>

fun like :: "string \<Rightarrow> string \<Rightarrow> bool" where
  "like [] cs = (cs = [])"
| "like (p # ps) [] = (p = CHR ''%'' \<and> like ps [])"
| "like (p # ps) (c # cs) =
     (if p = CHR ''%'' then like ps (c # cs) \<or> like (p # ps) cs
      else (p = CHR ''_'' \<or> ascii_lower p = ascii_lower c) \<and> like ps cs)"

definition like_prefix :: "string \<Rightarrow> string \<Rightarrow> bool" where
  "like_prefix pre vp \<longleftrightarrow> like (pre @ ''%'') vp"

definition scan_file :: "string \<Rightarrow> file_row \<Rightarrow> entry_info dict \<Rightarrow> entry_info dict" where
  "scan_file dp r res =
     (let rel = drop (length dp) (virtual_path r) in
      if rel = [] then res
      else if CHR ''/'' \<notin> set rel then
        AList.update rel \<lparr>ei_name = rel, ei_is_directory = False, ei_file_size = file_size r,
          ei_created_at = created_at r, ei_modified_at = modified_at r\<rparr> res
      else (let d = hd (split_on CHR ''/'' rel) in
        if map_of res d \<noteq> None then res
        else AList.update d \<lparr>ei_name = d, ei_is_directory = True, ei_file_size = 0,
          ei_created_at = created_at r, ei_modified_at = modified_at r\<rparr> res))"

definition scan_dir :: "string \<Rightarrow> string \<times> time \<Rightarrow> entry_info dict \<Rightarrow> entry_info dict" where
  "scan_dir dp e res =
     (case e of (vp, ca) \<Rightarrow>
       let rel = drop (length dp) vp in
       if rel = [] then res
       else (let name = rstrip CHR ''/'' rel in
         if CHR ''/'' \<notin> set name \<and> map_of res name = None then
           AList.update name \<lparr>ei_name = name, ei_is_directory = True, ei_file_size = 0,
             ei_created_at = ca, ei_modified_at = ca\<rparr> res
         else res))"

definition dir_prefix :: "string \<Rightarrow> string" where
  "dir_prefix p = (if suffix ''/'' p then p else p @ ''/'')"

text \<open>The local dictionary \<open>results\<close> of \<open>list_entries\<close> and its values.\<close>

definition entry_table :: "string \<Rightarrow> mstore \<Rightarrow> entry_info dict" where
  "entry_table p s =
     (let dp = dir_prefix p;
          from_files = fold (scan_file dp)
            (filter (\<lambda>r. like_prefix dp (virtual_path r) \<and> \<not> deleted r) (files s)) []
      in fold (scan_dir dp) (filter (\<lambda>(vp, ca). like_prefix dp vp) (directories s)) from_files)"

definition list_entries :: "string \<Rightarrow> mstore \<Rightarrow> entry_info list" where
  "list_entries p s = map snd (entry_table p s)"

section \<open>Renaming\<close>

text \<open>
  \<open>UPDATE t SET virtual_path = g virtual_path WHERE P virtual_path\<close>, row by row: a new
  path that some other row has at that moment violates \<open>UNIQUE\<close> and undoes the
  statement.
\<close>

fun rekeys :: "(string \<Rightarrow> bool) \<Rightarrow> (string \<Rightarrow> string) \<Rightarrow> string list \<Rightarrow> string list \<Rightarrow> string list option" where
  "rekeys P g seen [] = Some seen"
| "rekeys P g seen (k # ks) =
     (if P k then
        (if g k \<noteq> k \<and> g k \<in> set (seen @ ks) then None else rekeys P g (seen @ [g k]) ks)
      else rekeys P g (seen @ [k]) ks)"

definition rekey_files :: "(string \<Rightarrow> bool) \<Rightarrow> (string \<Rightarrow> string) \<Rightarrow> mstore \<Rightarrow> mstore option" where
  "rekey_files P g s =
     map_option (\<lambda>ks. s\<lparr>files := map2 (\<lambda>r k. r\<lparr>virtual_path := k\<rparr>) (files s) ks\<rparr>)
       (rekeys P g [] (map virtual_path (files s)))"

definition rekey_dirs :: "(string \<Rightarrow> bool) \<Rightarrow> (string \<Rightarrow> string) \<Rightarrow> mstore \<Rightarrow> mstore option" where
  "rekey_dirs P g s =
     map_option (\<lambda>ks. s\<lparr>directories := zip ks (map snd (directories s))\<rparr>)
       (rekeys P g [] (map fst (directories s)))"

definition rename_path :: "string \<Rightarrow> string \<Rightarrow> mstore \<Rightarrow> unit result \<times> mstore" where
  "rename_path old new s =
     (case rekey_files (\<lambda>k. k = old) (\<lambda>k. new) s of
       None \<Rightarrow> (Inl SqlIntegrityError, implicit_begin s)
     | Some t \<Rightarrow> (Inr (), commit t))"

definition rename_directory :: "string \<Rightarrow> string \<Rightarrow> mstore \<Rightarrow> unit result \<times> mstore" where
  "rename_directory old new s =
     (let P = like_prefix old; g = (\<lambda>k. new @ drop (length old) k) in
      case rekey_files P g s of
        None \<Rightarrow> (Inl SqlIntegrityError, implicit_begin s)
      | Some t \<Rightarrow>
          (case rekey_dirs P g t of
            None \<Rightarrow> (Inl SqlIntegrityError, t\<lparr>saved := saved (implicit_begin s)\<rparr>)
          | Some u \<Rightarrow> (Inr (), commit u)))"

text \<open>The extra statement of \<^verbatim>\<open>JBODManager.move_directory\<close> for the directory row itself.\<close>

definition rename_directory_row :: "string \<Rightarrow> string \<Rightarrow> mstore \<Rightarrow> unit result \<times> mstore" where
  "rename_directory_row old new s =
     (case rekey_dirs (\<lambda>k. k = old) (\<lambda>k. new) s of
       None \<Rightarrow> (Inl SqlIntegrityError, implicit_begin s)
     | Some t \<Rightarrow> (Inr (), commit t))"

section \<open>Rows of the table after each operation\<close>

lemma commit_frame [simp]:
  "files (commit s) = files s" "directories (commit s) = directories s" "saved (commit s) = None"
  by (simp_all add: commit_def)

lemma row_commit [simp]: "row (commit s) = row s"
  by (simp add: row_def fun_eq_iff)

lemma row_cong: "files s = files t \<Longrightarrow> row s = row t"
  by (simp add: row_def fun_eq_iff)

lemma row_path: "row s p = Some r \<Longrightarrow> virtual_path r = p"
  by (auto simp: row_def find_Some_iff)

lemma row_in: "row s p = Some r \<Longrightarrow> r \<in> set (files s)"
  by (auto simp: row_def find_Some_iff)

lemma find_key_map:
  assumes "\<And>r. k (f r) = k r"
  shows "find (\<lambda>r. k r = q) (map (\<lambda>r. if k r = p then f r else r) xs) =
    (if q = p then map_option f (find (\<lambda>r. k r = q) xs) else find (\<lambda>r. k r = q) xs)"
  by (induction xs) (auto simp: assms)

lemma row_upd:
  assumes "\<And>r. virtual_path (f r) = virtual_path r"
  shows "row (upd vp f s) = (row s)(vp := map_option f (row s vp))"
  using find_key_map [where k = virtual_path and f = f, OF assms]
  by (auto simp: row_def upd_def fun_eq_iff)

lemma find_append_key:
  "find P (xs @ [x]) = (case find P xs of None \<Rightarrow> if P x then Some x else None | Some y \<Rightarrow> Some y)"
  by (induction xs) auto

lemma row_add:
  assumes "row s (virtual_path r) = None"
  shows "row (add_row r s) = (row s)(virtual_path r \<mapsto> r)"
  using assms
  by (auto simp: row_def add_row_def fun_eq_iff find_append_key split: option.split)

definition paths_distinct :: "mstore \<Rightarrow> bool" where
  "paths_distinct s \<longleftrightarrow> distinct (map virtual_path (files s))"

lemma row_Some_iff:
  assumes "paths_distinct s"
  shows "row s p = Some r \<longleftrightarrow> r \<in> set (files s) \<and> virtual_path r = p"
proof
  assume r: "r \<in> set (files s) \<and> virtual_path r = p"
  then obtain x where x: "row s p = Some x"
    by (cases "row s p") (auto simp: row_def find_None_iff)
  then have "x \<in> set (files s)" "virtual_path x = p"
    by (auto dest: row_in row_path)
  with r assms have "x = r"
    by (auto simp: paths_distinct_def distinct_map dest: inj_onD)
  with x show "row s p = Some r" by simp
qed (auto dest: row_in row_path)

lemma row_None_iff: "row s p = None \<longleftrightarrow> p \<notin> virtual_path ` set (files s)"
  by (auto simp: row_def find_None_iff)

lemma lookup_row:
  assumes "paths_distinct s"
  shows "lookup p s = (case row s p of None \<Rightarrow> None
     | Some r \<Rightarrow> if deleted r then None else Some (meta_of r))"
  using assms unfolding lookup_def row_def paths_distinct_def
proof (induction "files s" arbitrary: s)
  case (Cons r rs)
  have "find (\<lambda>r. virtual_path r = p \<and> \<not> deleted r) rs = None" if "virtual_path r = p"
    using Cons.prems Cons.hyps(2) [symmetric] that by (fastforce simp: find_None_iff image_iff)
  moreover have "find (\<lambda>r. virtual_path r = p) rs = None" if "virtual_path r = p"
    using Cons.prems Cons.hyps(2) [symmetric] that by (fastforce simp: find_None_iff image_iff)
  ultimately show ?case
    using Cons.hyps(1) [of "\<lparr>files = rs, directories = [], saved = None\<rparr>"] Cons.prems
      Cons.hyps(2) [symmetric]
    by auto
qed simp

lemma lookup_any_row: "lookup_any p s = map_option meta_of (row s p)"
  by (simp add: lookup_any_def)

lemma lookup_live: "lookup p s = Some m \<Longrightarrow> \<not> deleted m \<and> virtual_path m = p"
  by (auto simp: lookup_def find_Some_iff)

lemma lookup_in:
  assumes "lookup p s = Some m"
  obtains r where "r \<in> set (files s)" "virtual_path r = p" "\<not> deleted r" "m = meta_of r"
  using assms by (auto simp: lookup_def find_Some_iff dest: nth_mem)

lemma row_filter:
  assumes "paths_distinct s"
  shows "row (s\<lparr>files := filter P (files s)\<rparr>) p =
    (case row s p of None \<Rightarrow> None | Some r \<Rightarrow> if P r then Some r else None)"
proof -
  have d: "paths_distinct (s\<lparr>files := filter P (files s)\<rparr>)"
    using assms by (simp add: paths_distinct_def distinct_map_filter)
  show ?thesis
  proof (cases "row s p")
    case None
    then have "row (s\<lparr>files := filter P (files s)\<rparr>) p = None"
      by (auto simp: row_None_iff)
    with None show ?thesis by simp
  next
    case (Some r)
    then have "P r \<Longrightarrow> row (s\<lparr>files := filter P (files s)\<rparr>) p = Some r"
      using row_Some_iff [OF d] row_Some_iff [OF assms] by simp
    moreover have "row (s\<lparr>files := filter P (files s)\<rparr>) p = None" if "\<not> P r"
      using Some that row_Some_iff [OF assms] assms
      by (auto simp: row_None_iff paths_distinct_def distinct_map dest: inj_onD)
    ultimately show ?thesis using Some by simp
  qed
qed

lemma distinct_upd:
  assumes "\<And>r. virtual_path (f r) = virtual_path r"
  shows "paths_distinct (upd vp f s) = paths_distinct s"
proof -
  have keys: "map (virtual_path \<circ> (\<lambda>r. if virtual_path r = vp then f r else r)) xs = map virtual_path xs" for xs
    by (induction xs) (auto simp: assms)
  show ?thesis by (simp add: paths_distinct_def upd_def keys)
qed

lemma paths_distinct_commit [simp]: "paths_distinct (commit s) = paths_distinct s"
  by (simp add: paths_distinct_def)

lemma distinct_edits:
  "paths_distinct s \<Longrightarrow> paths_distinct (insert_file vp sid pp sz ca ma d s)"
  "paths_distinct (update_file vp sz ma d sid' pp' s) = paths_distinct s"
  "paths_distinct (delete_file_row vp now s) = paths_distinct s"
  unfolding insert_file_def update_file_def delete_file_row_def
  by (simp_all add: distinct_upd split: option.split)
    (auto simp: row_None_iff paths_distinct_def add_row_def)

lemma row_saved [simp]: "row (m\<lparr>saved := x\<rparr>) = row m"
  by (rule row_cong) simp

lemma distinct_saved [simp]: "paths_distinct (s\<lparr>saved := x\<rparr>) = paths_distinct s"
  by (simp add: paths_distinct_def)

section \<open>Renaming, abstractly\<close>

lemma rekeys_result:
  "rekeys P g seen ks = Some out \<Longrightarrow> out = seen @ map (\<lambda>k. if P k then g k else k) ks"
  by (induction P g seen ks rule: rekeys.induct) (auto split: if_splits)

lemma rekeys_distinct:
  "rekeys P g seen ks = Some out \<Longrightarrow> distinct (seen @ ks) \<Longrightarrow> distinct out"
  by (induction P g seen ks rule: rekeys.induct) (auto split: if_splits)

lemma rekeys_free:
  assumes "\<And>k. k \<in> set ks \<Longrightarrow> P k \<Longrightarrow> g k \<notin> set seen \<union> set ks"
    and "inj_on g {k \<in> set ks. P k}" and "distinct ks"
  shows "rekeys P g seen ks \<noteq> None"
  using assms
proof (induction P g seen ks rule: rekeys.induct)
  case (2 P g seen k ks)
  have inj: "inj_on g {x \<in> set ks. P x}"
    by (rule inj_on_subset [OF 2(4)]) auto
  show ?case
  proof (cases "P k")
    case True
    have "g x \<noteq> g k" if "x \<in> set ks" "P x" for x
      using 2(4,5) True that by (auto dest: inj_onD)
    then show ?thesis using 2(1,3,5) True inj by fastforce
  next
    case False
    then show ?thesis using 2(2,3,5) inj by fastforce
  qed
qed simp

lemma rekeys_noop: "\<forall>k \<in> set ks. \<not> P k \<Longrightarrow> rekeys P g seen ks = Some (seen @ ks)"
  by (induction ks arbitrary: seen) auto

lemma rekeys_one:
  assumes "distinct ks"
  shows "rekeys (\<lambda>k. k = a) (\<lambda>k. b) seen ks =
    (if a \<in> set ks \<and> a \<noteq> b \<and> b \<in> set seen \<union> set ks then None
     else Some (seen @ map (\<lambda>k. if k = a then b else k) ks))"
  using assms
proof (induction ks arbitrary: seen)
  case (Cons k ks)
  have same: "map (\<lambda>x. if x = a then b else x) ks = ks" if "a \<notin> set ks"
    using that by (intro map_idI) auto
  show ?case
  proof (cases "k = a")
    case True
    then have "a \<notin> set ks" using Cons.prems by simp
    then have "rekeys (\<lambda>k. k = a) (\<lambda>k. b) (seen @ [b]) ks = Some ((seen @ [b]) @ ks)"
      by (intro rekeys_noop) auto
    with True same show ?thesis using \<open>a \<notin> set ks\<close> by auto
  qed (use Cons in auto)
qed simp

lemma map2_map_same: "map2 h xs (map k xs) = map (\<lambda>x. h x (k x)) xs"
  by (induction xs) auto

lemma rekey_files_Some:
  assumes "rekey_files P g s = Some t"
  shows "files t = map (\<lambda>r. if P (virtual_path r) then r\<lparr>virtual_path := g (virtual_path r)\<rparr> else r) (files s)
    \<and> directories t = directories s \<and> saved t = saved s"
proof -
  from assms obtain ks where ks: "rekeys P g [] (map virtual_path (files s)) = Some ks"
    and t: "t = s\<lparr>files := map2 (\<lambda>r k. r\<lparr>virtual_path := k\<rparr>) (files s) ks\<rparr>"
    by (auto simp: rekey_files_def)
  have "ks = map (\<lambda>r. if P (virtual_path r) then g (virtual_path r) else virtual_path r) (files s)"
    using rekeys_result [OF ks] by (simp add: comp_def)
  then show ?thesis by (auto simp: t map2_map_same)
qed

lemma rekey_files_distinct:
  assumes "rekey_files P g s = Some t" and "paths_distinct s"
  shows "paths_distinct t"
proof -
  from assms obtain ks where ks: "rekeys P g [] (map virtual_path (files s)) = Some ks"
    by (auto simp: rekey_files_def)
  have "map virtual_path (files t) = ks"
    using rekeys_result [OF ks] rekey_files_Some [OF assms(1)] by simp
  with rekeys_distinct [OF ks] assms(2) show ?thesis by (simp add: paths_distinct_def)
qed

lemma rekey_dirs_Some:
  assumes "rekey_dirs P g s = Some t"
  shows "directories t = map (\<lambda>(p, ca). (if P p then g p else p, ca)) (directories s)
    \<and> files t = files s \<and> saved t = saved s"
proof -
  have zip_same: "zip (map k xs) (map snd xs) = map (\<lambda>x. (k x, snd x)) xs"
    for k and xs :: "(string \<times> time) list"
    by (induction xs) auto
  from assms obtain ks where ks: "rekeys P g [] (map fst (directories s)) = Some ks"
    and t: "t = s\<lparr>directories := zip ks (map snd (directories s))\<rparr>"
    by (auto simp: rekey_dirs_def)
  have "ks = map (\<lambda>e. if P (fst e) then g (fst e) else fst e) (directories s)"
    using rekeys_result [OF ks] by (simp add: comp_def)
  then show ?thesis by (auto simp: t zip_same split_def)
qed

lemma rekey_dirs_distinct:
  assumes "rekey_dirs P g s = Some t" and "distinct (map fst (directories s))"
  shows "distinct (map fst (directories t))"
proof -
  from assms obtain ks where ks: "rekeys P g [] (map fst (directories s)) = Some ks"
    by (auto simp: rekey_dirs_def)
  have "map fst (directories t) = ks"
    using rekeys_result [OF ks] rekey_dirs_Some [OF assms(1)] by (simp add: comp_def split_def)
  with rekeys_distinct [OF ks] assms(2) show ?thesis by simp
qed

lemma rename_path_cases:
  assumes "paths_distinct s"
  shows "rename_path a b s =
    (if row s a \<noteq> None \<and> a \<noteq> b \<and> row s b \<noteq> None then (Inl SqlIntegrityError, implicit_begin s)
     else (Inr (), commit (s\<lparr>files := map (\<lambda>r. if virtual_path r = a
        then r\<lparr>virtual_path := b\<rparr> else r) (files s)\<rparr>)))"
proof (cases "rekey_files (\<lambda>k. k = a) (\<lambda>k. b) s")
  case None
  with assms show ?thesis
    by (auto simp: rename_path_def rekey_files_def paths_distinct_def rekeys_one row_None_iff
        split: if_splits)
next
  case (Some t)
  have free: "\<not> (row s a \<noteq> None \<and> a \<noteq> b \<and> row s b \<noteq> None)"
    using Some assms by (auto simp: rekey_files_def paths_distinct_def rekeys_one row_None_iff
        split: if_splits)
  have "t = s\<lparr>files := map (\<lambda>r. if virtual_path r = a then r\<lparr>virtual_path := b\<rparr> else r) (files s)\<rparr>"
    using rekey_files_Some [OF Some] by (cases t; cases s) (auto simp: rekey_files_def)
  with Some free show ?thesis by (auto simp: rename_path_def)
qed

lemma rename_path_distinct:
  "paths_distinct s \<Longrightarrow> paths_distinct (snd (rename_path a b s))"
  using rekey_files_distinct
  by (auto simp: rename_path_def implicit_begin_def paths_distinct_def split: option.split)

lemma row_rename_path:
  assumes "paths_distinct s" and "rename_path a b s = (Inr (), t)" and "a \<noteq> b" and "row s a = Some r"
  shows "row t = (row s)(a := None, b \<mapsto> r\<lparr>virtual_path := b\<rparr>)"
proof -
  have b: "row s b = None"
    and t: "files t = map (\<lambda>r. if virtual_path r = a then r\<lparr>virtual_path := b\<rparr> else r) (files s)"
    using assms rename_path_cases [OF assms(1), of a b] by (auto split: if_splits)
  have dt: "paths_distinct t"
    using rename_path_distinct [OF assms(1), of a b] assms(2) by simp
  have rs: "r \<in> set (files s)" "virtual_path r = a"
    using assms(4) by (auto dest: row_in row_path)
  have "row t p = ((row s)(a := None, b \<mapsto> r\<lparr>virtual_path := b\<rparr>)) p" for p
  proof -
    consider "p = b" | "p = a" | "p \<noteq> a" "p \<noteq> b" "row s p = None" | x where "p \<noteq> a" "p \<noteq> b" "row s p = Some x"
      by fastforce
    then show ?thesis
    proof cases
      case 1
      have "r\<lparr>virtual_path := b\<rparr> \<in> set (files t)"
        using rs t by force
      with row_Some_iff [OF dt] 1 show ?thesis by simp
    next
      case 2
      then show ?thesis using assms(3) t by (auto simp: row_None_iff)
    next
      case 3
      then have "row t p = None" using t by (auto simp: row_None_iff)
      with 3 show ?thesis by simp
    next
      case (4 x)
      then have "x \<in> set (files t)"
        using row_Some_iff [OF assms(1), of p x] t by force
      with row_Some_iff [OF dt, of p x] 4 show ?thesis
        using row_Some_iff [OF assms(1), of p x] by simp
    qed
  qed
  then show ?thesis by blast
qed

section \<open>The contract of a table keyed by paths\<close>

text \<open>
  What the conflict resolver and the sync client rely on: adding a row at a free path
  and renaming one are updates of the map from paths to rows, and a rename that would
  hide another row is refused.
\<close>

locale path_table =
  fixes get :: "'s \<Rightarrow> string \<Rightarrow> 'r option"
    and add :: "'r \<Rightarrow> 's \<Rightarrow> 's"
    and ren :: "string \<Rightarrow> string \<Rightarrow> 's \<Rightarrow> unit result \<times> 's"
    and key :: "'r \<Rightarrow> string"
    and rekey :: "string \<Rightarrow> 'r \<Rightarrow> 'r"
    and inv :: "'s \<Rightarrow> bool"
  assumes add_get: "inv s \<Longrightarrow> get s (key r) = None \<Longrightarrow> get (add r s) = (get s)(key r \<mapsto> r)"
    and ren_get: "inv s \<Longrightarrow> ren a b s = (Inr (), t) \<Longrightarrow> a \<noteq> b \<Longrightarrow> get s a = Some r \<Longrightarrow>
      get t = (get s)(a := None, b \<mapsto> rekey b r)"
    and ren_free: "inv s \<Longrightarrow> get s a = Some r \<Longrightarrow> a \<noteq> b \<Longrightarrow>
      (\<exists>t. ren a b s = (Inr (), t)) \<longleftrightarrow> get s b = None"
    and inv_ren: "inv s \<Longrightarrow> inv (snd (ren a b s))"
    and inv_add: "inv s \<Longrightarrow> get s (key r) = None \<Longrightarrow> inv (add r s)"
begin

text \<open>Setting the row at \<open>a\<close> aside under \<open>b\<close> and putting another one in its place keeps
  both, and every other row.\<close>

lemma set_aside:
  assumes "inv s" and "get s a = Some r" and "ren a b s = (Inr (), t)" and "a \<noteq> b"
    and "key r' = a"
  shows "get (add r' t) = (get s)(a \<mapsto> r', b \<mapsto> rekey b r)"
proof -
  have t: "get t = (get s)(a := None, b \<mapsto> rekey b r)"
    using ren_get assms by blast
  have "inv t" using inv_ren [OF assms(1), of a b] assms(3) by simp
  moreover have "get t (key r') = None" using t assms(4,5) by simp
  ultimately have "get (add r' t) = (get t)(a \<mapsto> r')"
    using add_get assms(5) by metis
  with t assms(4) show ?thesis by (simp add: fun_upd_twist)
qed

lemma ren_keeps_others:
  assumes "inv s" and "get s a = Some r" and "ren a b s = (Inr (), t)" and "a \<noteq> b"
    and "c \<noteq> a" and "get s c = Some x"
  shows "get t c = Some x"
proof -
  have "get s b = None" using ren_free assms by blast
  then show ?thesis using ren_get assms by (metis fun_upd_other option.distinct(1))
qed

end

interpretation tbl: path_table row add_row rename_path "virtual_path :: file_row \<Rightarrow> string"
  "\<lambda>b r. (r :: file_row)\<lparr>virtual_path := b\<rparr>" paths_distinct
proof
  fix s a r b assume "paths_distinct s" and "row s a = Some r" and "a \<noteq> b"
  then show "(\<exists>t. rename_path a b s = (Inr (), t)) \<longleftrightarrow> row s b = None"
    using rename_path_cases [of s a b] by auto
next
  fix s and r :: file_row assume "paths_distinct s" and "row s (virtual_path r) = None"
  then show "paths_distinct (add_row r s)"
    by (auto simp: paths_distinct_def add_row_def row_None_iff)
qed (auto intro: row_add row_rename_path rename_path_distinct)

section \<open>The invariant of the tables\<close>

datatype ms_op =
    MInsert string string string int time time "string option"
  | MUpdate string int time "string option" "string option" "string option"
  | MIncrement string string
  | MSync string string
  | MReplication string string
  | MDelete string time
  | MPurge time time
  | MInsertDir string time
  | MDeleteDir string
  | MRename string string
  | MRenameDir string string
  | MRenameDirRow string string
  | MBegin
  | MCommit
  | MRollback

fun ms_step :: "ms_op \<Rightarrow> mstore \<Rightarrow> mstore" where
  "ms_step (MInsert vp sid pp sz ca ma dev) s = insert_file vp sid pp sz ca ma dev s"
| "ms_step (MUpdate vp sz ma dev sid pp) s = update_file vp sz ma dev sid pp s"
| "ms_step (MIncrement vp dev) s = increment_version vp dev s"
| "ms_step (MSync vp st) s = snd (set_sync_status vp st s)"
| "ms_step (MReplication vp st) s = snd (set_replication_status vp st s)"
| "ms_step (MDelete vp now) s = delete_file_row vp now s"
| "ms_step (MPurge now ret) s = snd (purge_expired_tombstones now ret s)"
| "ms_step (MInsertDir vp ca) s = insert_directory vp ca s"
| "ms_step (MDeleteDir vp) s = delete_directory_entry vp s"
| "ms_step (MRename a b) s = snd (rename_path a b s)"
| "ms_step (MRenameDir a b) s = snd (rename_directory a b s)"
| "ms_step (MRenameDirRow a b) s = snd (rename_directory_row a b s)"
| "ms_step MBegin s = snd (begin_transaction s)"
| "ms_step MCommit s = commit s"
| "ms_step MRollback s = rollback s"

definition row_ok :: "file_row \<Rightarrow> bool" where
  "row_ok r \<longleftrightarrow> sync_status r \<in> set valid_sync_statuses \<and>
     replication_status r \<in> set valid_replication_statuses \<and> 1 \<le> version r"

definition tables_ok :: "file_row list \<Rightarrow> (string \<times> time) list \<Rightarrow> bool" where
  "tables_ok fs ds \<longleftrightarrow> distinct (map virtual_path fs) \<and> distinct (map fst ds) \<and> list_all row_ok fs"

definition ms_ok :: "mstore \<Rightarrow> bool" where
  "ms_ok s \<longleftrightarrow> tables_ok (files s) (directories s) \<and>
     (case saved s of None \<Rightarrow> True | Some (fs, ds) \<Rightarrow> tables_ok fs ds)"

lemma ms_ok_distinct: "ms_ok s \<Longrightarrow> paths_distinct s"
  by (simp add: ms_ok_def tables_ok_def paths_distinct_def)

lemma ms_ok_empty: "ms_ok empty_store"
  by (simp add: ms_ok_def empty_store_def tables_ok_def)

lemma ms_ok_commit: "tables_ok (files s) (directories s) \<Longrightarrow> ms_ok (commit s)"
  by (simp add: ms_ok_def)

lemma ms_ok_tables: "ms_ok s \<Longrightarrow> tables_ok (files s) (directories s)"
  by (simp add: ms_ok_def)

lemma tables_ok_map:
  assumes "tables_ok fs ds" and "\<And>r. virtual_path (f r) = virtual_path r"
    and "\<And>r. row_ok r \<Longrightarrow> row_ok (f r)"
  shows "tables_ok (map (\<lambda>r. if virtual_path r = p then f r else r) fs) ds"
proof -
  have keys: "map virtual_path (map (\<lambda>r. if virtual_path r = p then f r else r) fs) = map virtual_path fs"
    by (induction fs) (auto simp: assms(2))
  from assms(1) show ?thesis
    unfolding tables_ok_def keys by (auto simp: list_all_iff assms(3))
qed

lemma ms_ok_upd:
  assumes "ms_ok s" and "\<And>r. virtual_path (f r) = virtual_path r" and "\<And>r. row_ok r \<Longrightarrow> row_ok (f r)"
  shows "ms_ok (commit (upd p f s))"
  using tables_ok_map [OF ms_ok_tables [OF assms(1)] assms(2,3)]
  by (intro ms_ok_commit) (simp add: upd_def)

lemma row_ok_bump: "row_ok r \<Longrightarrow> row_ok (r\<lparr>version := version r + 1, sync_status := ''pending''\<rparr>)"
  by (simp add: row_ok_def valid_sync_statuses_def)

lemma ms_ok_insert:
  assumes "ms_ok s" shows "ms_ok (insert_file vp sid pp sz ca ma dev s)"
proof (cases "row s vp")
  case None
  with assms have "tables_ok (files s @ [r]) (directories s)" if "virtual_path r = vp" "row_ok r" for r
    using that by (auto simp: ms_ok_def tables_ok_def row_None_iff)
  then show ?thesis
    using None
    by (auto simp: insert_file_def add_row_def row_ok_def valid_sync_statuses_def
        valid_replication_statuses_def intro!: ms_ok_commit)
next
  case (Some r)
  with assms show ?thesis
    by (auto simp: insert_file_def row_ok_def valid_sync_statuses_def intro!: ms_ok_upd)
qed

lemma ms_ok_update: "ms_ok s \<Longrightarrow> ms_ok (update_file vp sz ma dev sid pp s)"
  unfolding update_file_def
  by (rule ms_ok_upd) (auto simp: row_ok_def valid_sync_statuses_def)

lemma ms_ok_delete: "ms_ok s \<Longrightarrow> ms_ok (delete_file_row vp now s)"
  unfolding delete_file_row_def
  by (rule ms_ok_upd) (auto simp: row_ok_def valid_sync_statuses_def)

lemma ms_ok_status:
  assumes "ms_ok s"
  shows "ms_ok (snd (set_sync_status vp st s))" "ms_ok (snd (set_replication_status vp st s))"
    "ms_ok (increment_version vp dev s)"
  using assms
  by (auto simp: set_sync_status_def set_replication_status_def increment_version_def row_ok_def
      intro!: ms_ok_upd)

lemma ms_ok_purge: "ms_ok s \<Longrightarrow> ms_ok (snd (purge_expired_tombstones now ret s))"
  by (auto simp: purge_expired_tombstones_def ms_ok_def tables_ok_def distinct_map_filter list_all_iff)

lemma ms_ok_dirs:
  assumes "ms_ok s"
  shows "ms_ok (insert_directory vp ca s)" "ms_ok (delete_directory_entry vp s)"
  using assms
  by (auto simp: insert_directory_def delete_directory_entry_def ms_ok_def tables_ok_def
      distinct_map_filter)

lemma tables_ok_rekey_files:
  assumes "rekey_files P g s = Some t" and "tables_ok (files s) (directories s)"
  shows "tables_ok (files t) (directories t)"
proof -
  have "paths_distinct t"
    using rekey_files_distinct [OF assms(1)] assms(2) by (simp add: paths_distinct_def tables_ok_def)
  with rekey_files_Some [OF assms(1)] assms(2) show ?thesis
    by (auto simp: tables_ok_def paths_distinct_def list_all_iff row_ok_def)
qed

lemma tables_ok_rekey_dirs:
  assumes "rekey_dirs P g s = Some t" and "tables_ok (files s) (directories s)"
  shows "tables_ok (files t) (directories t)"
  using rekey_dirs_distinct [OF assms(1)] rekey_dirs_Some [OF assms(1)] assms(2)
  by (auto simp: tables_ok_def)

lemma ms_ok_begin: "ms_ok s \<Longrightarrow> ms_ok (implicit_begin s)"
  by (auto simp: ms_ok_def implicit_begin_def split: option.split)

lemma ms_ok_rename:
  assumes "ms_ok s"
  shows "ms_ok (snd (rename_path a b s))" "ms_ok (snd (rename_directory_row a b s))"
  using assms tables_ok_rekey_files tables_ok_rekey_dirs ms_ok_tables
  by (auto simp: rename_path_def rename_directory_row_def
      intro!: ms_ok_begin ms_ok_commit split: option.split)

lemma ms_ok_rename_directory:
  assumes "ms_ok s" shows "ms_ok (snd (rename_directory a b s))"
proof -
  note tab = ms_ok_tables [OF assms]
  have "ms_ok (t\<lparr>saved := saved (implicit_begin s)\<rparr>)" if "rekey_files P g s = Some t" for P g t
    using tables_ok_rekey_files [OF that tab] ms_ok_begin [OF assms] by (simp add: ms_ok_def)
  moreover have "ms_ok (commit u)"
    if "rekey_files P g s = Some t" "rekey_dirs P' g' t = Some u" for P g t P' g' u
    using tables_ok_rekey_dirs [OF that(2) tables_ok_rekey_files [OF that(1) tab]] by (rule ms_ok_commit)
  ultimately show ?thesis
    using ms_ok_begin [OF assms] by (auto simp: rename_directory_def Let_def split: option.split)
qed

interpretation ms: invariant_system ms_step ms_ok
proof
  show "ms_ok (ms_step op s)" if "ms_ok s" for s op
    using that ms_ok_begin [OF that] ms_ok_insert ms_ok_update ms_ok_delete ms_ok_status ms_ok_purge ms_ok_dirs
      ms_ok_rename ms_ok_rename_directory
    by (cases op) (auto simp: begin_transaction_def rollback_def ms_ok_def split: option.split)
qed

section \<open>Edits of a single row\<close>

lemma row_insert:
  "row (insert_file vp sid pp sz ca ma dev s) = (row s)(vp \<mapsto>
     (case row s vp of
       Some old \<Rightarrow> old\<lparr>source_id := sid, physical_path := pp, file_size := sz,
         created_at := ca, modified_at := ma, version := version old + 1,
         sync_status := ''pending'', deleted := False, device_id := dev\<rparr>
     | None \<Rightarrow> \<lparr>virtual_path = vp, source_id = sid, physical_path = pp,
         file_size = sz, created_at = ca, modified_at = ma, version = 1, device_id = dev,
         sync_status = ''pending'', deleted = False, replication_status = ''none''\<rparr>))"
  by (cases "row s vp") (simp_all add: insert_file_def row_upd row_add)

lemma row_update:
  "row (update_file vp sz ma dev sid pp s) = (row s)(vp := map_option (\<lambda>r. r\<lparr>file_size := sz,
     modified_at := ma, version := version r + 1, sync_status := ''pending'',
     device_id := (case dev of None \<Rightarrow> device_id r | Some d \<Rightarrow> Some d),
     source_id := (case sid of None \<Rightarrow> source_id r | Some i \<Rightarrow> i),
     physical_path := (case pp of None \<Rightarrow> physical_path r | Some q \<Rightarrow> q)\<rparr>) (row s vp))"
  by (simp add: update_file_def row_upd)

lemma row_delete:
  "row (delete_file_row vp now s) = (row s)(vp := map_option (\<lambda>r. r\<lparr>deleted := True,
     version := version r + 1, sync_status := ''pending'', modified_at := now\<rparr>) (row s vp))"
  by (simp add: delete_file_row_def row_upd)

lemma row_increment:
  "row (increment_version vp dev s) = (row s)(vp := map_option (\<lambda>r. r\<lparr>version := version r + 1,
     device_id := Some dev\<rparr>) (row s vp))"
  by (simp add: increment_version_def row_upd)

lemma row_set_sync:
  "row (snd (set_sync_status vp st s)) = (if st \<in> set valid_sync_statuses
     then (row s)(vp := map_option (\<lambda>r. r\<lparr>sync_status := st\<rparr>) (row s vp)) else row s)"
  by (simp add: set_sync_status_def row_upd)

lemma row_set_replication:
  "row (snd (set_replication_status vp st s)) = (if st \<in> set valid_replication_statuses
     then (row s)(vp := map_option (\<lambda>r. r\<lparr>replication_status := st\<rparr>) (row s vp)) else row s)"
  by (simp add: set_replication_status_def row_upd)

lemma row_dirs [simp]:
  "row (insert_directory vp ca s) = row s" "row (delete_directory_entry vp s) = row s"
  by (auto simp: insert_directory_def delete_directory_entry_def intro: row_cong)

lemmas row_edits = row_insert row_update row_delete row_increment row_set_sync row_set_replication

text \<open>The operations that work on the row of one path and keep it there.\<close>

fun row_edit :: "ms_op \<Rightarrow> bool" where
  "row_edit (MPurge now ret) = False"
| "row_edit (MRename a b) = False"
| "row_edit (MRenameDir a b) = False"
| "row_edit MRollback = False"
| "row_edit op = True"

definition has_version :: "string \<Rightarrow> int \<Rightarrow> mstore \<Rightarrow> bool" where
  "has_version p v s \<longleftrightarrow> (\<exists>r. row s p = Some r \<and> v \<le> version r)"

lemma row_dir_rename [simp]: "row (snd (rename_directory_row a b s)) = row s"
proof (cases "rekey_dirs (\<lambda>k. k = a) (\<lambda>k. b) s")
  case None
  then show ?thesis
    by (auto simp: rename_directory_row_def implicit_begin_def row_def fun_eq_iff split: option.split)
next
  case (Some t)
  with rekey_dirs_Some [OF Some] show ?thesis
    by (auto simp: rename_directory_row_def intro: row_cong)
qed

lemma row_begin [simp]: "row (snd (begin_transaction s)) = row s"
  by (auto simp: begin_transaction_def row_def fun_eq_iff split: option.split)

lemma has_version_step:
  assumes "row_edit op" and "has_version p v s"
  shows "has_version p v (ms_step op s)"
proof -
  obtain r where r: "row s p = Some r" "v \<le> version r"
    using assms(2) by (auto simp: has_version_def)
  with assms(1) show ?thesis
    by (cases op) (auto simp: has_version_def row_edits)
qed

lemma has_version_run:
  "list_all row_edit ops \<Longrightarrow> has_version p v s \<Longrightarrow> has_version p v (fold ms_step ops s)"
  by (induction ops arbitrary: s) (auto intro: has_version_step)

section \<open>Listing a directory\<close>

lemma like_skip: "like ps cs \<Longrightarrow> like (CHR ''%'' # ps) cs"
  by (cases cs) auto

lemma like_percent: "like ''%'' cs"
  by (induction cs) auto

lemma like_prefix_append: "like_prefix p (p @ q)"
  unfolding like_prefix_def
proof (induction p)
  case (Cons c p)
  then show ?case by (auto dest: like_skip)
qed (simp add: like_percent)

text \<open>A prefix without wildcards matches what begins with it, up to the case of letters.\<close>

lemma like_plain:
  assumes "CHR ''%'' \<notin> set p" and "CHR ''_'' \<notin> set p"
  shows "like_prefix p q \<longleftrightarrow> length p \<le> length q \<and>
    map ascii_lower (take (length p) q) = map ascii_lower p"
  using assms unfolding like_prefix_def
proof (induction p arbitrary: q)
  case (Cons c p)
  then show ?case by (cases q) auto
qed (simp add: like_percent)

definition is_file_entry :: "string \<Rightarrow> entry_info dict \<Rightarrow> bool" where
  "is_file_entry n res \<longleftrightarrow> (\<exists>e. map_of res n = Some e \<and> \<not> ei_is_directory e)"

definition keyed :: "entry_info dict \<Rightarrow> bool" where
  "keyed res \<longleftrightarrow> distinct (map fst res) \<and> (\<forall>x \<in> set res. ei_name (snd x) = fst x)"

lemma set_update_subset: "set (AList.update k v d) \<subseteq> insert (k, v) (set d)"
  by (induction d) auto

lemma keyed_update: "keyed res \<Longrightarrow> ei_name e = n \<Longrightarrow> keyed (AList.update n e res)"
  using set_update_subset [of n e res]
  unfolding keyed_def by (auto intro: dict_set_distinct dest: subsetD)

lemma keyed_Nil [simp]: "keyed []"
  by (simp add: keyed_def)

lemma keyed_scan_file: "keyed res \<Longrightarrow> keyed (scan_file dp r res)"
  by (auto simp: scan_file_def Let_def intro!: keyed_update)

lemma keyed_scan_dir: "keyed res \<Longrightarrow> keyed (scan_dir dp e res)"
  by (auto simp: scan_dir_def Let_def intro!: keyed_update split: prod.split)

lemma file_entry_scan_file: "is_file_entry n res \<Longrightarrow> is_file_entry n (scan_file dp r res)"
  by (auto simp: scan_file_def is_file_entry_def Let_def)

lemma file_entry_scan_dir: "is_file_entry n res \<Longrightarrow> is_file_entry n (scan_dir dp e res)"
  by (auto simp: scan_dir_def is_file_entry_def Let_def split: prod.split)

lemma fold_keeps:
  assumes "\<And>x s. P s \<Longrightarrow> P (f x s)"
  shows "P s \<Longrightarrow> P (fold f xs s)"
  by (induction xs arbitrary: s) (auto simp: assms)

lemma fold_sets:
  assumes "\<And>x s. P s \<Longrightarrow> P (f x s)" and "\<And>s. P (f y s)" and "y \<in> set xs"
  shows "P (fold f xs s)"
  using assms(3)
proof (induction xs arbitrary: s)
  case (Cons x xs)
  show ?case
  proof (cases "x = y")
    case True
    then show ?thesis using fold_keeps [of P f, OF assms(1)] assms(2) by simp
  next
    case False
    then show ?thesis using Cons by simp
  qed
qed simp

lemma keyed_table: "keyed (entry_table d s)"
  unfolding entry_table_def Let_def
  by (intro fold_keeps [of keyed] keyed_scan_dir keyed_scan_file keyed_Nil)

lemma listed_file:
  assumes "r \<in> set (files s)" and "\<not> deleted r" and "virtual_path r = dir_prefix d @ n"
    and "n \<noteq> []" and "CHR ''/'' \<notin> set n"
  shows "\<exists>e \<in> set (list_entries d s). ei_name e = n \<and> \<not> ei_is_directory e"
proof -
  let ?dp = "dir_prefix d"
  let ?fs = "filter (\<lambda>r. like_prefix ?dp (virtual_path r) \<and> \<not> deleted r) (files s)"
  have "r \<in> set ?fs" using assms(1-3) like_prefix_append by simp
  then have "is_file_entry n (fold (scan_file ?dp) ?fs [])"
    using fold_sets [of "is_file_entry n" "scan_file ?dp" r ?fs, OF file_entry_scan_file] assms(3-5)
    by (simp add: scan_file_def is_file_entry_def)
  then have "is_file_entry n (entry_table d s)"
    unfolding entry_table_def Let_def
    by (intro fold_keeps [of "is_file_entry n" "scan_dir ?dp"] file_entry_scan_dir)
  then obtain e where e: "map_of (entry_table d s) n = Some e" "\<not> ei_is_directory e"
    by (auto simp: is_file_entry_def)
  then have "ei_name e = n" and "e \<in> set (list_entries d s)"
    using keyed_table [of d s] map_of_SomeD [OF e(1)] by (force simp: keyed_def list_entries_def)+
  then show ?thesis using e(2) by blast
qed

lemma listed_once: "distinct (map ei_name (list_entries d s))"
proof -
  have names: "map (ei_name \<circ> snd) (entry_table d s) = map fst (entry_table d s)"
    using keyed_table [of d s] by (auto simp: keyed_def)
  show ?thesis
    unfolding list_entries_def map_map names using keyed_table [of d s] by (simp add: keyed_def)
qed

section \<open>Where listed directories come from\<close>

text \<open>The paths a listing can see.\<close>

definition visible_paths :: "mstore \<Rightarrow> string set" where
  "visible_paths s = virtual_path ` {r \<in> set (files s). \<not> deleted r} \<union> fst ` set (directories s)"

definition dir_origin :: "string \<Rightarrow> string set \<Rightarrow> entry_info \<Rightarrow> bool" where
  "dir_origin dp V e \<longleftrightarrow> ei_is_directory e \<longrightarrow> (\<exists>q \<in> V. like_prefix dp q \<and>
     (let rel = drop (length dp) q in rel \<noteq> [] \<and>
        (CHR ''/'' \<in> set rel \<and> ei_name e = hd (split_on CHR ''/'' rel) \<or>
         CHR ''/'' \<notin> set (rstrip CHR ''/'' rel) \<and> ei_name e = rstrip CHR ''/'' rel)))"

lemma fold_keeps_in:
  assumes "\<And>x s. x \<in> set xs \<Longrightarrow> P s \<Longrightarrow> P (f x s)"
  shows "P s \<Longrightarrow> P (fold f xs s)"
  using assms by (induction xs arbitrary: s) auto

definition traced :: "string \<Rightarrow> string set \<Rightarrow> entry_info dict \<Rightarrow> bool" where
  "traced dp V res \<longleftrightarrow> (\<forall>x \<in> set res. dir_origin dp V (snd x))"

lemma traced_update: "traced dp V res \<Longrightarrow> dir_origin dp V e \<Longrightarrow> traced dp V (AList.update n e res)"
  using set_update_subset [of n e res] by (auto simp: traced_def)

lemma origin_of_path:
  assumes "like_prefix dp q" and "q \<in> V" and "drop (length dp) q \<noteq> []"
    and "CHR ''/'' \<in> set (drop (length dp) q) \<and> ei_name e = hd (split_on CHR ''/'' (drop (length dp) q)) \<or>
      CHR ''/'' \<notin> set (rstrip CHR ''/'' (drop (length dp) q)) \<and>
        ei_name e = rstrip CHR ''/'' (drop (length dp) q)"
  shows "dir_origin dp V e"
  unfolding dir_origin_def Let_def using assms by blast

lemma origin_of_file: "\<not> ei_is_directory e \<Longrightarrow> dir_origin dp V e"
  by (simp add: dir_origin_def)

lemma traced_scan_file:
  assumes "like_prefix dp (virtual_path r)" and "virtual_path r \<in> V" and "traced dp V res"
  shows "traced dp V (scan_file dp r res)"
proof -
  let ?rel = "drop (length dp) (virtual_path r)"
  have "dir_origin dp V e" if "?rel \<noteq> []" "CHR ''/'' \<in> set ?rel" "ei_name e = hd (split_on CHR ''/'' ?rel)" for e
    using origin_of_path [OF assms(1,2) that(1)] that by blast
  then show ?thesis
    using assms(3) unfolding scan_file_def Let_def
    by (auto intro!: traced_update intro: origin_of_file)
qed

lemma traced_scan_dir:
  assumes "like_prefix dp (fst d)" and "fst d \<in> V" and "traced dp V res"
  shows "traced dp V (scan_dir dp d res)"
proof -
  let ?rel = "drop (length dp) (fst d)"
  have "dir_origin dp V e"
    if "?rel \<noteq> []" "CHR ''/'' \<notin> set (rstrip CHR ''/'' ?rel)" "ei_name e = rstrip CHR ''/'' ?rel" for e
    using origin_of_path [OF assms(1,2) that(1)] that by blast
  then show ?thesis
    using assms(3) unfolding scan_dir_def Let_def by (auto intro!: traced_update split: prod.split)
qed

lemma listed_directory_origin:
  assumes "e \<in> set (list_entries d s)"
  shows "dir_origin (dir_prefix d) (visible_paths s) e"
proof -
  let ?dp = "dir_prefix d" and ?V = "visible_paths s"
  let ?fs = "filter (\<lambda>r. like_prefix ?dp (virtual_path r) \<and> \<not> deleted r) (files s)"
  let ?ds = "filter (\<lambda>(vp, ca). like_prefix ?dp vp) (directories s)"
  have "traced ?dp ?V (fold (scan_file ?dp) ?fs [])"
    by (rule fold_keeps_in [of ?fs "traced ?dp ?V" "scan_file ?dp"])
      (auto simp: visible_paths_def traced_def [of _ _ "[]"] intro: traced_scan_file)
  then have "traced ?dp ?V (fold (scan_dir ?dp) ?ds (fold (scan_file ?dp) ?fs []))"
    by (rule fold_keeps_in [of ?ds "traced ?dp ?V" "scan_dir ?dp", rotated])
      (auto simp: visible_paths_def intro: traced_scan_dir)
  with assms show ?thesis by (auto simp: list_entries_def entry_table_def Let_def traced_def)
qed

lemma visible_delete_row: "visible_paths (delete_file_row vp now s) \<subseteq> visible_paths s"
  by (auto simp: visible_paths_def delete_file_row_def upd_def split: if_splits)

lemma visible_delete_dir: "visible_paths (delete_directory_entry vp s) \<subseteq> visible_paths s"
  by (auto simp: visible_paths_def delete_directory_entry_def)

lemma lower_slash: "ascii_lower c = CHR ''/'' \<longleftrightarrow> c = CHR ''/''"
proof -
  let ?n = "of_char c :: nat"
  have "char_of (?n + 32) \<noteq> CHR ''/''" if "65 \<le> ?n" "?n \<le> 90"
  proof
    assume "char_of (?n + 32) = CHR ''/''"
    then have "of_char (char_of (?n + 32) :: char) = (of_char CHR ''/'' :: nat)" by simp
    then show False using that by (simp add: of_char_of)
  qed
  moreover have "c \<noteq> CHR ''/''" if "65 \<le> ?n"
    using that by auto
  ultimately show ?thesis by (auto simp: ascii_lower_def Let_def)
qed

text \<open>Without a percent sign a prefix matches position by position, and a slash in it
  matches only a slash.\<close>

lemma like_positions:
  assumes "CHR ''%'' \<notin> set p" and "like_prefix p q"
  shows "length p \<le> length q \<and> (\<forall>i < length p. p ! i = CHR ''/'' \<longrightarrow> q ! i = CHR ''/'')"
  using assms unfolding like_prefix_def
proof (induction p arbitrary: q)
  case (Cons c p)
  then obtain d q' where q: "q = d # q'" by (cases q) auto
  have "length p \<le> length q' \<and> (\<forall>i < length p. p ! i = CHR ''/'' \<longrightarrow> q' ! i = CHR ''/'')"
    using Cons.IH [of q'] Cons.prems q by auto
  moreover have "c = CHR ''/'' \<longrightarrow> d = CHR ''/''"
    using Cons.prems q lower_slash [of d] by (auto simp: lower_slash [of "CHR ''/''", THEN iffD2])
  ultimately show ?case using q by (auto simp: nth_Cons split: nat.split)
qed simp

section \<open>Moving a directory\<close>

lemma rename_directory_files:
  assumes "rename_directory a b s = (Inr (), t)"
  shows "files t = map (\<lambda>r. if like_prefix a (virtual_path r)
      then r\<lparr>virtual_path := b @ drop (length a) (virtual_path r)\<rparr> else r) (files s)"
  using assms rekey_files_Some rekey_dirs_Some
  by (auto simp: rename_directory_def Let_def split: option.splits)

lemma rename_directory_distinct:
  assumes "paths_distinct s" and "rename_directory a b s = (Inr (), t)"
  shows "paths_distinct t"
  using assms rekey_files_distinct [OF _ assms(1)] rekey_dirs_Some
  by (fastforce simp: rename_directory_def Let_def paths_distinct_def split: option.splits)

text \<open>\<open>/aXb\<close> is not below \<open>/a_b\<close>, but \<open>LIKE\<close> takes the underscore for a wildcard.\<close>

lemma rename_directory_takes_sibling:
  "let r = \<lparr>virtual_path = ''/aXb/f'', source_id = ''s'', physical_path = ''p'', file_size = 0,
       created_at = 0, modified_at = 0, version = 1, device_id = None, sync_status = ''synced'',
       deleted = False, replication_status = ''none''\<rparr>
   in map virtual_path (files (snd (rename_directory ''/a_b/'' ''/new/''
        (empty_store\<lparr>files := [r]\<rparr>)))) = [''/new/f'']"
  by code_simp

section \<open>Properties\<close>

text \<open>C17: From the empty database every sequence of operations of the store keeps the
  tables consistent: no path has two rows, no directory two entries, the sync and
  replication states are among the values the code allows, versions start at 1, and so is
  what a rollback would restore.\<close>

theorem metadata_tables_consistent: "ms_ok (fold ms_step ops empty_store)"
  by (rule ms.inv_run [OF ms_ok_empty])

text \<open>The version of a path never goes down while rows are inserted, updated,
  deleted (as tombstones), relabelled, or directories change: a row stays and its version
  is at least what it was.\<close>

lemma versions_never_decrease:
  assumes "row s p = Some r" and "list_all row_edit ops"
  shows "\<exists>r'. row (fold ms_step ops s) p = Some r' \<and> version r \<le> version r'"
  using has_version_run [OF assms(2), of p "version r" s] assms(1) by (simp add: has_version_def)

text \<open>Deleting a file leaves a tombstone: the path is gone for lookups and listings,
  the record stays with the next version and is pending for the sync, and creating the
  file again revives the record with a version above the deletion.\<close>

lemma delete_then_recreate:
  assumes "paths_distinct s" and "row s p = Some r"
  shows "lookup p (delete_file_row p now s) = None \<and>
    map_option version (lookup_any p (delete_file_row p now s)) = Some (version r + 1) \<and>
    (\<exists>m. lookup_any p (delete_file_row p now s) = Some m \<and>
       m \<in> set (get_pending_files (delete_file_row p now s))) \<and>
    (\<exists>m. lookup p (insert_file p sid pp sz ca ma dev (delete_file_row p now s)) = Some m \<and>
       version m = version r + 2 \<and> sync_status m = ''pending'' \<and> source_id m = sid \<and>
       physical_path m = pp \<and> device_id m = dev)"
proof -
  let ?d = "delete_file_row p now s"
  have row_d: "row ?d p = Some (r\<lparr>deleted := True, version := version r + 1,
      sync_status := ''pending'', modified_at := now\<rparr>)"
    using assms(2) by (simp add: row_delete)
  have eq: "?d = ms_step (MDelete p now) s" by simp
  have dd: "paths_distinct ?d"
    using assms(1) tables_ok_map
    by (auto simp: paths_distinct_def delete_file_row_def upd_def comp_def if_distrib cong: if_cong)
  have di: "paths_distinct (insert_file p sid pp sz ca ma dev ?d)"
    using dd row_d by (auto simp: insert_file_def paths_distinct_def upd_def comp_def if_distrib cong: if_cong)
  have "meta_of (the (row ?d p)) \<in> set (get_pending_files ?d)"
    using row_in [OF row_d] row_d by (simp add: get_pending_files_def)
  then show ?thesis
    using row_d by (simp add: lookup_row [OF dd] lookup_row [OF di] lookup_any_row row_insert)
qed

text \<open>Purging removes exactly the tombstones older than the retention period: every
  live file is looked up as before, every younger tombstone stays, and the number
  returned is the number of rows removed.\<close>

lemma purge_removes_old_tombstones:
  assumes "paths_distinct s"
  shows "lookup p (snd (purge_expired_tombstones now retention s)) = lookup p s \<and>
    row (snd (purge_expired_tombstones now retention s)) p =
      (case row s p of None \<Rightarrow> None
       | Some r \<Rightarrow> if deleted r \<and> modified_at r < now - retention then None else Some r) \<and>
    fst (purge_expired_tombstones now retention s) =
      int (length (files s)) - int (length (files (snd (purge_expired_tombstones now retention s))))"
proof -
  let ?t = "s\<lparr>files := filter (\<lambda>r. \<not> expired now retention r) (files s)\<rparr>"
  have d: "paths_distinct ?t"
    using assms by (simp add: paths_distinct_def distinct_map_filter)
  have row_t: "row ?t p = (case row s p of None \<Rightarrow> None
      | Some r \<Rightarrow> if deleted r \<and> modified_at r < now - retention then None else Some r)"
    using row_filter [OF assms, of "\<lambda>r. \<not> expired now retention r"]
    by (auto simp: expired_def split: option.split)
  have "length (filter P xs) + length (filter (\<lambda>x. \<not> P x) xs) = length xs" for P and xs :: "file_row list"
    by (rule sum_length_filter_compl)
  then have len: "int (length (filter (expired now retention) (files s))) =
      int (length (files s)) - int (length (filter (\<lambda>r. \<not> expired now retention r) (files s)))"
    by (metis add_diff_cancel_right' of_nat_add)
  have "lookup p (commit ?t) = lookup p s"
    using lookup_row [OF assms, of p] lookup_row [OF d, of p] row_t
    by (auto simp: lookup_def split: option.splits if_splits)
  with row_t len show ?thesis by (simp add: purge_expired_tombstones_def)
qed

text \<open>Listing a directory shows every live file directly in it, as a file and under
  its own name, even where a directory of the same name has entries, and no name is
  listed twice.\<close>

lemma listing_shows_every_file:
  assumes "row s (dir_prefix d @ n) = Some r" and "\<not> deleted r" and "n \<noteq> []" and "CHR ''/'' \<notin> set n"
  shows "(\<exists>e \<in> set (list_entries d s). ei_name e = n \<and> \<not> ei_is_directory e) \<and>
    distinct (map ei_name (list_entries d s))"
  using listed_file [OF row_in [OF assms(1)] assms(2) row_path [OF assms(1)] assms(3,4)] listed_once
  by blast

text \<open>A successful directory move re-roots every record below the old prefix under
  the new one, keeping everything else of the record, and loses or merges none.\<close>

lemma rename_directory_moves_all:
  assumes "paths_distinct s" and "rename_directory old new s = (Inr (), t)"
    and "row s (old @ rest) = Some r"
  shows "row t (new @ rest) = Some (r\<lparr>virtual_path := new @ rest\<rparr>) \<and>
    length (files t) = length (files s) \<and> paths_distinct t"
proof -
  have "r \<in> set (files s)" "virtual_path r = old @ rest"
    using assms(3) by (auto dest: row_in row_path)
  then have "r\<lparr>virtual_path := new @ rest\<rparr> \<in> set (files t)"
    using rename_directory_files [OF assms(2)] like_prefix_append [of old rest] by force
  then show ?thesis
    using rename_directory_files [OF assms(2)] rename_directory_distinct [OF assms(1,2)]
    by (simp add: row_Some_iff)
qed

end
