(* ===== verification/Schema_Migration.thy ===== *)
theory Schema_Migration
  imports Models
begin

text \<open>
  The schema upgrades of \<^verbatim>\<open>stardustlib/metadata_store.py\<close>: \<open>initialize\<close> creates the tables of
  version 1 if they are missing and then brings them to version 4 in three transactions.
  A table is its list of columns and its rows, each a dictionary from columns to values.
  Every statement may fail (\<open>fault\<close>), and so may the backup copy of the file.
\<close>

section \<open>Tables\<close>

datatype sqlval = Null | I int | R real | T string

type_synonym db_row = "sqlval dict"

record db =
  tbl :: "(string list \<times> db_row list) option"
  dirs :: "(string \<times> time) list option"
  schema_row :: "(int \<times> time) option option"

definition empty_db :: db where
  "empty_db = \<lparr>tbl = None, dirs = None, schema_row = None\<rparr>"

definition columns :: "db \<Rightarrow> string list" where
  "columns d = (case tbl d of None \<Rightarrow> [] | Some (cs, rs) \<Rightarrow> cs)"

definition rows :: "db \<Rightarrow> db_row list" where
  "rows d = (case tbl d of None \<Rightarrow> [] | Some (cs, rs) \<Rightarrow> rs)"

definition v1_columns :: "string list" where
  "v1_columns = [''id'', ''virtual_path'', ''source_id'', ''physical_path'', ''file_size'',
     ''created_at'', ''modified_at'']"

text \<open>The script of \<open>CREATE TABLE IF NOT EXISTS\<close> statements.\<close>

definition create_tables :: "db \<Rightarrow> db" where
  "create_tables d =
     d\<lparr>tbl := (case tbl d of None \<Rightarrow> Some (v1_columns, []) | Some t \<Rightarrow> Some t),
       dirs := (case dirs d of None \<Rightarrow> Some [] | Some ds \<Rightarrow> Some ds)\<rparr>"

section \<open>Statements\<close>

datatype stmt =
    AddColumn string sqlval
  | ResetV1
  | CreateVersionTable
  | PutVersion int time

definition reset_row :: "db_row \<Rightarrow> db_row" where
  "reset_row r = (if map_of r ''version'' = Some (I 1)
     then AList.update ''sync_status'' (T ''synced'') (AList.update ''version'' (I 1) r) else r)"

fun exec :: "stmt \<Rightarrow> db \<Rightarrow> db result" where
  "exec (AddColumn c v) d =
     (case tbl d of
       None \<Rightarrow> Inl SqlOperationalError
     | Some (cs, rs) \<Rightarrow>
         if c \<in> set cs then Inl SqlOperationalError
         else Inr (d\<lparr>tbl := Some (cs @ [c], map (\<lambda>r. r @ [(c, v)]) rs)\<rparr>))"
| "exec ResetV1 d =
     (case tbl d of
       None \<Rightarrow> Inl SqlOperationalError
     | Some (cs, rs) \<Rightarrow> Inr (d\<lparr>tbl := Some (cs, map reset_row rs)\<rparr>))"
| "exec CreateVersionTable d =
     Inr (d\<lparr>schema_row := (case schema_row d of None \<Rightarrow> Some None | Some x \<Rightarrow> Some x)\<rparr>)"
| "exec (PutVersion n t) d =
     (case schema_row d of
       None \<Rightarrow> Inl SqlOperationalError
     | Some _ \<Rightarrow> Inr (d\<lparr>schema_row := Some (Some (n, t))\<rparr>))"

fun exec_all :: "(stmt \<Rightarrow> exn option) \<Rightarrow> stmt list \<Rightarrow> db \<Rightarrow> db result" where
  "exec_all fault [] d = Inr d"
| "exec_all fault (q # qs) d =
     (case fault q of
       Some e \<Rightarrow> Inl e
     | None \<Rightarrow> (case exec q d of Inl e \<Rightarrow> Inl e | Inr d1 \<Rightarrow> exec_all fault qs d1))"

text \<open>A transaction: all statements, or a rollback and the exception.\<close>

definition transact :: "(stmt \<Rightarrow> exn option) \<Rightarrow> stmt list \<Rightarrow> db \<Rightarrow> unit result \<times> db" where
  "transact fault qs d = (case exec_all fault qs d of Inl e \<Rightarrow> (Inl e, d) | Inr d1 \<Rightarrow> (Inr (), d1))"

section \<open>The upgrades\<close>

definition needs_migration :: "db \<Rightarrow> bool" where
  "needs_migration d =
     (if (case schema_row d of Some (Some (v, t)) \<Rightarrow> 2 \<le> v | _ \<Rightarrow> False) then False
      else if ''version'' \<in> set (columns d) then False
      else True)"

definition v2_statements :: "time \<Rightarrow> stmt list" where
  "v2_statements t =
     [AddColumn ''version'' (I 1), AddColumn ''device_id'' Null, AddColumn ''sync_status'' (T ''synced''),
      ResetV1, CreateVersionTable, PutVersion 2 t]"

definition v3_statements :: "time \<Rightarrow> stmt list" where
  "v3_statements t = [AddColumn ''deleted'' (I 0), PutVersion 3 t]"

definition v4_statements :: "time \<Rightarrow> stmt list" where
  "v4_statements t = [AddColumn ''replication_status'' (T ''none''), PutVersion 4 t]"

definition migrate_to_v2 :: "(stmt \<Rightarrow> exn option) \<Rightarrow> bool \<Rightarrow> time \<Rightarrow> db \<Rightarrow> unit result \<times> db" where
  "migrate_to_v2 fault backup_ok t d =
     (if \<not> needs_migration d then (Inr (), d)
      else if \<not> backup_ok then (Inr (), d)
      else transact fault (v2_statements t) d)"

definition migrate_to_v3 :: "(stmt \<Rightarrow> exn option) \<Rightarrow> time \<Rightarrow> db \<Rightarrow> unit result \<times> db" where
  "migrate_to_v3 fault t d =
     (if ''deleted'' \<in> set (columns d) then (Inr (), d)
      else transact fault (v3_statements t) d)"

definition migrate_to_v4 :: "(stmt \<Rightarrow> exn option) \<Rightarrow> time \<Rightarrow> db \<Rightarrow> unit result \<times> db" where
  "migrate_to_v4 fault t d =
     (if ''replication_status'' \<in> set (columns d) then (Inr (), d)
      else transact fault (v4_statements t) d)"

definition initialize_db :: "(stmt \<Rightarrow> exn option) \<Rightarrow> bool \<Rightarrow> time \<Rightarrow> db \<Rightarrow> unit result \<times> db" where
  "initialize_db fault backup_ok t d =
     (case migrate_to_v2 fault backup_ok t (create_tables d) of
       (Inl e, d1) \<Rightarrow> (Inl e, d1)
     | (Inr _, d1) \<Rightarrow>
         (case migrate_to_v3 fault t d1 of
           (Inl e, d2) \<Rightarrow> (Inl e, d2)
         | (Inr _, d2) \<Rightarrow> migrate_to_v4 fault t d2))"

section \<open>Versions\<close>

text \<open>The columns a version has beyond the first, with the values existing rows get.\<close>

definition added :: "nat \<Rightarrow> db_row" where
  "added k = (if 2 \<le> k then [(''version'', I 1), (''device_id'', Null), (''sync_status'', T ''synced'')] else []) @
     (if 3 \<le> k then [(''deleted'', I 0)] else []) @
     (if 4 \<le> k then [(''replication_status'', T ''none'')] else [])"

definition at_version :: "nat \<Rightarrow> db \<Rightarrow> bool" where
  "at_version k d \<longleftrightarrow> 1 \<le> k \<and> k \<le> 4 \<and>
     (\<exists>rs. tbl d = Some (v1_columns @ map fst (added k), rs) \<and>
        (\<forall>r \<in> set rs. map fst r = v1_columns @ map fst (added k))) \<and>
     dirs d \<noteq> None \<and>
     (if k = 1 then schema_row d = None else \<exists>t. schema_row d = Some (Some (int k, t)))"

text \<open>What a row of version \<open>k\<close> gets on the way to version \<open>l\<close>.\<close>

definition gained :: "nat \<Rightarrow> nat \<Rightarrow> db_row" where
  "gained k l = drop (length (added k)) (added l)"

definition upgraded :: "nat \<Rightarrow> nat \<Rightarrow> db \<Rightarrow> db \<Rightarrow> bool" where
  "upgraded k l d d' \<longleftrightarrow> at_version l d' \<and> k \<le> l \<and> dirs d' = dirs d \<and>
     rows d' = map (\<lambda>r. r @ gained k l) (rows d)"

lemma added_simps [simp]:
  "added 1 = []" "added (Suc 0) = []"
  "added 2 = [(''version'', I 1), (''device_id'', Null), (''sync_status'', T ''synced'')]"
  "added 3 = added 2 @ [(''deleted'', I 0)]"
  "added 4 = added 2 @ [(''deleted'', I 0), (''replication_status'', T ''none'')]"
  by (simp_all add: added_def)

lemma version_cases: "1 \<le> k \<Longrightarrow> k \<le> 4 \<Longrightarrow> k = 1 \<or> k = 2 \<or> k = 3 \<or> k = (4 :: nat)"
  by auto

lemma upgraded_refl: "at_version k d \<Longrightarrow> upgraded k k d d"
  by (simp add: upgraded_def gained_def)

lemma upgraded_trans:
  assumes "upgraded k l d d'" and "upgraded l m d' d''" and "at_version k d"
  shows "upgraded k m d d''"
proof -
  have b: "1 \<le> k" "k \<le> l" "l \<le> m" "m \<le> 4" using assms by (auto simp: upgraded_def at_version_def)
  then have "gained k l @ gained l m = gained k m"
    using version_cases [of k] version_cases [of l] version_cases [of m] by (auto simp: gained_def)
  then show ?thesis using assms(1,2) b by (simp add: upgraded_def comp_def)
qed

lemma map_of_past: "k \<notin> fst ` set r \<Longrightarrow> map_of (r @ s) k = map_of s k"
  by (induction r) auto

lemma update_past: "k \<notin> fst ` set r \<Longrightarrow> AList.update k v (r @ s) = r @ AList.update k v s"
  by (induction r) auto

lemma reset_new_row:
  assumes "''version'' \<notin> fst ` set r" and "''sync_status'' \<notin> fst ` set r"
  shows "reset_row (r @ added 2) = r @ added 2"
  using assms by (simp add: reset_row_def map_of_past update_past)

lemma v1_plain: "''version'' \<notin> set v1_columns" "''sync_status'' \<notin> set v1_columns"
  "''device_id'' \<notin> set v1_columns" "''deleted'' \<notin> set v1_columns" "''replication_status'' \<notin> set v1_columns"
  by (simp_all add: v1_columns_def)

lemma create_tables_idle [simp]: "at_version k d \<Longrightarrow> create_tables d = d"
  by (auto simp: at_version_def create_tables_def split: option.splits)

lemma create_tables_empty: "at_version 1 (create_tables empty_db)"
  by (simp add: at_version_def create_tables_def empty_db_def)

section \<open>Each upgrade\<close>

lemma exec_all_no_fault:
  "exec_all fault qs d = Inr d' \<Longrightarrow> exec_all (\<lambda>q. None) qs d = Inr d'"
  by (induction qs arbitrary: d) (auto split: option.splits sum.splits)

lemma exec_all_error:
  "exec_all fault qs d = Inl e \<Longrightarrow> (\<exists>q. fault q \<noteq> None) \<or> exec_all (\<lambda>q. None) qs d = Inl e"
  by (induction qs arbitrary: d) (auto split: option.splits sum.splits)

lemma transact_cases:
  assumes "transact fault qs d = (r, d')"
  obtains "r = Inr ()" and "exec_all (\<lambda>q. None) qs d = Inr d'" 
  | e where "r = Inl e" and "d' = d" and "(\<exists>q. fault q \<noteq> None) \<or> exec_all (\<lambda>q. None) qs d = Inl e"
proof (cases "exec_all fault qs d")
  case (Inl e)
  then show ?thesis using assms exec_all_error [OF Inl] that(2) [of e] by (simp add: transact_def)
next
  case (Inr d1)
  then show ?thesis using assms exec_all_no_fault [OF Inr] that(1) by (simp add: transact_def)
qed

lemma v1_rows:
  assumes "at_version 1 d" and "r \<in> set (rows d)"
  shows "reset_row (r @ added 2) = r @ added 2"
proof -
  have "map fst r = v1_columns" using assms by (auto simp: at_version_def rows_def)
  then show ?thesis by (intro reset_new_row) (auto simp: v1_plain simp flip: set_map)
qed

lemma run_v2:
  assumes "at_version 1 d"
  obtains d' where "exec_all (\<lambda>q. None) (v2_statements t) d = Inr d'" and "upgraded 1 2 d d'"
proof -
  obtain rs where d: "tbl d = Some (v1_columns, rs)" "\<forall>r \<in> set rs. map fst r = v1_columns"
      "dirs d \<noteq> None" "schema_row d = None"
    using assms by (auto simp: at_version_def)
  then have "map (\<lambda>r. reset_row (r @ added 2)) rs = map (\<lambda>r. r @ added 2) rs"
    using v1_rows [OF assms] by (simp add: rows_def)
  then show thesis
    using d by (intro that [of "d\<lparr>tbl := Some (v1_columns @ map fst (added 2), map (\<lambda>r. r @ added 2) rs),
        schema_row := Some (Some (2, t))\<rparr>"])
      (auto simp: v2_statements_def v1_plain upgraded_def at_version_def rows_def gained_def comp_def)
qed

lemma run_v3:
  assumes "at_version 2 d"
  obtains d' where "exec_all (\<lambda>q. None) (v3_statements t) d = Inr d'" and "upgraded 2 3 d d'"
proof -
  obtain rs u where d: "tbl d = Some (v1_columns @ map fst (added 2), rs)"
      "\<forall>r \<in> set rs. map fst r = v1_columns @ map fst (added 2)" "dirs d \<noteq> None" "schema_row d = Some (Some (2, u))"
    using assms by (auto simp: at_version_def)
  then show thesis
    by (intro that [of "d\<lparr>tbl := Some (v1_columns @ map fst (added 3), map (\<lambda>r. r @ [(''deleted'', I 0)]) rs),
        schema_row := Some (Some (3, t))\<rparr>"])
      (auto simp: v3_statements_def v1_plain upgraded_def at_version_def rows_def gained_def)
qed

lemma run_v4:
  assumes "at_version 3 d"
  obtains d' where "exec_all (\<lambda>q. None) (v4_statements t) d = Inr d'" and "upgraded 3 4 d d'"
proof -
  obtain rs u where d: "tbl d = Some (v1_columns @ map fst (added 3), rs)"
      "\<forall>r \<in> set rs. map fst r = v1_columns @ map fst (added 3)" "dirs d \<noteq> None" "schema_row d = Some (Some (3, u))"
    using assms by (auto simp: at_version_def)
  then show thesis
    by (intro that [of "d\<lparr>tbl := Some (v1_columns @ map fst (added 4), map (\<lambda>r. r @ [(''replication_status'', T ''none'')]) rs),
        schema_row := Some (Some (4, t))\<rparr>"])
      (auto simp: v4_statements_def v1_plain upgraded_def at_version_def rows_def gained_def)
qed

text \<open>The checks of the upgrades read the version off the columns.\<close>

lemma version_checks:
  assumes "at_version k d"
  shows "needs_migration d \<longleftrightarrow> k = 1"
    and "''deleted'' \<in> set (columns d) \<longleftrightarrow> 3 \<le> k"
    and "''replication_status'' \<in> set (columns d) \<longleftrightarrow> k = 4"
proof -
  have c: "columns d = v1_columns @ map fst (added k)"
    using assms by (auto simp: at_version_def columns_def)
  have s: "schema_row d = None" if "k = 1" using that assms by (simp add: at_version_def)
  have k: "k = 1 \<or> k = 2 \<or> k = 3 \<or> k = 4" using assms version_cases [of k] by (simp add: at_version_def)
  show "needs_migration d \<longleftrightarrow> k = 1" using k s c by (elim disjE) (simp_all add: needs_migration_def v1_plain)
  show "''deleted'' \<in> set (columns d) \<longleftrightarrow> 3 \<le> k" using k c by (elim disjE) (simp_all add: v1_plain)
  show "''replication_status'' \<in> set (columns d) \<longleftrightarrow> k = 4" using k c by (elim disjE) (simp_all add: v1_plain)
qed

lemma step_v2:
  assumes "at_version k d" and "migrate_to_v2 fault backup_ok t d = (r, d1)"
  obtains l where "upgraded k l d d1" and "l = (if k = 1 \<and> backup_ok \<and> r = Inr () then 2 else k)"
    and "fault = (\<lambda>q. None) \<longrightarrow> r = Inr ()"
proof (cases "k = 1 \<and> backup_ok")
  case True
  have v: "at_version 1 d" using assms(1) True by simp
  obtain d2 where x: "exec_all (\<lambda>q. None) (v2_statements t) d = Inr d2" "upgraded 1 2 d d2"
    using run_v2 [OF v] by blast
  have "transact fault (v2_statements t) d = (r, d1)"
    using assms(2) True version_checks(1) [OF assms(1)] by (simp add: migrate_to_v2_def)
  then show ?thesis
  proof (cases rule: transact_cases)
    case 1
    with x True show ?thesis by (intro that [of 2]) simp_all
  next
    case (2 e)
    with x True upgraded_refl [OF v] show ?thesis by (intro that [of 1]) auto
  qed
next
  case False
  then have "r = Inr ()" "d1 = d"
    using assms(2) version_checks(1) [OF assms(1)] by (auto simp: migrate_to_v2_def split: if_splits)
  with False upgraded_refl [OF assms(1)] show ?thesis by (intro that [of k]) auto
qed

lemma v3_needs_version_table:
  assumes "at_version 1 d"
  shows "\<exists>e. migrate_to_v3 fault t d = (Inl e, d)"
  using assms version_checks(2) [OF assms]
  by (auto simp: migrate_to_v3_def transact_def v3_statements_def at_version_def v1_plain
      split: option.splits sum.splits)

lemma step_v3:
  assumes "at_version k d" and "2 \<le> k" and "migrate_to_v3 fault t d = (r, d1)"
  obtains l where "upgraded k l d d1" and "r = Inr () \<longleftrightarrow> 3 \<le> l" and "l \<le> max k 3"
    and "fault = (\<lambda>q. None) \<longrightarrow> r = Inr ()"
proof (cases "3 \<le> k")
  case True
  then have "r = Inr ()" "d1 = d"
    using assms(3) version_checks(2) [OF assms(1)] by (auto simp: migrate_to_v3_def)
  with True upgraded_refl [OF assms(1)] show ?thesis by (intro that [of k]) auto
next
  case False
  with assms have v: "at_version 2 d" and k: "k = 2" by (auto simp: le_antisym eval_nat_numeral not_le less_Suc_eq_le)
  obtain d2 where x: "exec_all (\<lambda>q. None) (v3_statements t) d = Inr d2" "upgraded 2 3 d d2"
    using run_v3 [OF v] by blast
  have "transact fault (v3_statements t) d = (r, d1)"
    using assms(3) False version_checks(2) [OF assms(1)] by (simp add: migrate_to_v3_def)
  then show ?thesis
  proof (cases rule: transact_cases)
    case 1
    with x k show ?thesis by (intro that [of 3]) simp_all
  next
    case (2 e)
    with x k upgraded_refl [OF v] show ?thesis by (intro that [of 2]) auto
  qed
qed

lemma step_v4:
  assumes "at_version k d" and "3 \<le> k" and "migrate_to_v4 fault t d = (r, d1)"
  obtains l where "upgraded k l d d1" and "r = Inr () \<longleftrightarrow> l = 4" and "fault = (\<lambda>q. None) \<longrightarrow> r = Inr ()"
proof (cases "k = 4")
  case True
  then have "r = Inr ()" "d1 = d"
    using assms(3) version_checks(3) [OF assms(1)] by (auto simp: migrate_to_v4_def)
  with True upgraded_refl [OF assms(1)] show ?thesis by (intro that [of 4]) auto
next
  case False
  have k: "k = 3" using assms(1,2) False by (simp add: at_version_def)
  with assms have v: "at_version 3 d" by simp
  obtain d2 where x: "exec_all (\<lambda>q. None) (v4_statements t) d = Inr d2" "upgraded 3 4 d d2"
    using run_v4 [OF v] by blast
  have "transact fault (v4_statements t) d = (r, d1)"
    using assms(3) False version_checks(3) [OF assms(1)] by (simp add: migrate_to_v4_def)
  then show ?thesis
  proof (cases rule: transact_cases)
    case 1
    with x k show ?thesis by (intro that [of 4]) simp_all
  next
    case (2 e)
    with x k upgraded_refl [OF v] show ?thesis by (intro that [of 3]) auto
  qed
qed

section \<open>Initialization\<close>

text \<open>
  When the copy of a version 1 file fails, the upgrade is logged as stopped, but the next one
  misses the version table and \<open>initialize\<close> raises.
\<close>

lemma backup_failure_raises:
  assumes "at_version 1 d"
  shows "\<exists>e. initialize_db fault False t d = (Inl e, d)"
proof -
  have "migrate_to_v2 fault False t d = (Inr (), d)" by (simp add: migrate_to_v2_def)
  then show ?thesis
    using v3_needs_version_table [OF assms, of fault t] assms by (auto simp: initialize_db_def)
qed

lemma initialize_steps:
  assumes "at_version k d" and "initialize_db fault backup_ok t d = (r, d')"
  shows "\<exists>l. upgraded k l d d' \<and> (r = Inr () \<longleftrightarrow> l = 4) \<and>
    (fault = (\<lambda>q. None) \<and> (backup_ok \<or> 2 \<le> k) \<longrightarrow> l = 4)"
proof -
  note at = assms(1)
  obtain r1 d1 where s1: "migrate_to_v2 fault backup_ok t d = (r1, d1)" by (metis surj_pair)
  obtain l1 where l1: "upgraded k l1 d d1" "l1 = (if k = 1 \<and> backup_ok \<and> r1 = Inr () then 2 else k)"
      "fault = (\<lambda>q. None) \<longrightarrow> r1 = Inr ()"
    using step_v2 [OF at s1] by blast
  have at1: "at_version l1 d1" and k: "1 \<le> k" "k \<le> 4" using l1(1) at by (auto simp: upgraded_def at_version_def)
  show ?thesis
  proof (cases r1)
    case (Inl e)
    have "k = 1"
    proof (rule ccontr)
      assume "k \<noteq> 1"
      then have "migrate_to_v2 fault backup_ok t d = (Inr (), d)"
        using version_checks(1) [OF at] by (simp add: migrate_to_v2_def)
      with s1 Inl show False by simp
    qed
    with Inl assms s1 l1 show ?thesis by (intro exI [of _ 1]) (auto simp: initialize_db_def)
  next
    case (Inr u)
    obtain r2 d2 where s2: "migrate_to_v3 fault t d1 = (r2, d2)" by (metis surj_pair)
    show ?thesis
    proof (cases "l1 = 1")
      case True
      with at1 v3_needs_version_table [of d1 fault t] obtain e where "(r2, d2) = (Inl e, d1)" using s2 by auto
      with Inr True assms s1 s2 l1 k show ?thesis
        by (intro exI [of _ 1]) (auto simp: initialize_db_def split: if_splits)
    next
      case False
      then have "2 \<le> l1" using at1 by (simp add: at_version_def)
      then obtain l2 where l2: "upgraded l1 l2 d1 d2" "r2 = Inr () \<longleftrightarrow> 3 \<le> l2" "l2 \<le> max l1 3"
          "fault = (\<lambda>q. None) \<longrightarrow> r2 = Inr ()"
        using step_v3 [OF at1 _ s2] by blast
      note u2 = upgraded_trans [OF l1(1) l2(1) at]
      show ?thesis
      proof (cases r2)
        case (Inl e)
        with Inr assms s1 s2 l2 u2 show ?thesis
          by (intro exI [of _ l2]) (auto simp: initialize_db_def)
      next
        case (Inr v)
        have s3: "migrate_to_v4 fault t d2 = (r, d')"
          using assms s1 s2 \<open>r1 = Inr u\<close> Inr at by (simp add: initialize_db_def)
        have at2: "at_version l2 d2" and "3 \<le> l2" using l2 Inr by (auto simp: upgraded_def)
        then obtain l where l: "upgraded l2 l d2 d'" "r = Inr () \<longleftrightarrow> l = 4" "fault = (\<lambda>q. None) \<longrightarrow> r = Inr ()"
          using step_v4 [OF _ _ s3] by blast
        with upgraded_trans [OF u2 l(1) at] show ?thesis by blast
      qed
    qed
  qed
qed

text \<open>C22: Opening a database of any version, or a new one, whatever statement fails and whether
  or not the backup copy can be made, ends at a consistent version: no row and no column value is
  lost, the rows only gain the documented defaults of the versions passed, and no error is
  returned exactly when the current version is reached. Without failures it is reached.\<close>

theorem schema_upgrade_loses_nothing:
  assumes "at_version k (create_tables d)" and "initialize_db fault backup_ok t d = (r, d')"
  shows "\<exists>l. upgraded k l (create_tables d) d' \<and> (r = Inr () \<longleftrightarrow> l = 4) \<and>
    (fault = (\<lambda>q. None) \<and> (backup_ok \<or> 2 \<le> k) \<longrightarrow> l = 4)"
proof (rule initialize_steps [OF assms(1)])
  show "initialize_db fault backup_ok t (create_tables d) = (r, d')"
    using assms by (simp add: initialize_db_def)
qed

definition v1_db :: db where
  "v1_db = \<lparr>tbl = Some (v1_columns, [[(''id'', I 1), (''virtual_path'', T ''/a''), (''source_id'', T ''s''),
      (''physical_path'', T ''a''), (''file_size'', I 3), (''created_at'', R 0), (''modified_at'', R 0)]]),
     dirs = Some [], schema_row = None\<rparr>"

theorem schema_upgrade_loses_nothing_witness:
  "\<exists>l. upgraded 1 l (create_tables v1_db) (snd (initialize_db (\<lambda>q. None) True 5 v1_db)) \<and>
    (fst (initialize_db (\<lambda>q. None) True 5 v1_db) = Inr () \<longleftrightarrow> l = 4) \<and>
    ((\<lambda>q :: stmt. None :: exn option) = (\<lambda>q. None) \<and> (True \<or> 2 \<le> (1 :: nat)) \<longrightarrow> l = 4)"
proof (rule schema_upgrade_loses_nothing)
  show "at_version 1 (create_tables v1_db)"
    by (simp add: at_version_def create_tables_def v1_db_def v1_columns_def)
qed simp

lemma migrated_example:
  "tbl (snd (initialize_db (\<lambda>q. None) True 5 v1_db)) = Some
     (v1_columns @ [''version'', ''device_id'', ''sync_status'', ''deleted'', ''replication_status''],
      [[(''id'', I 1), (''virtual_path'', T ''/a''), (''source_id'', T ''s''), (''physical_path'', T ''a''),
        (''file_size'', I 3), (''created_at'', R 0), (''modified_at'', R 0), (''version'', I 1),
        (''device_id'', Null), (''sync_status'', T ''synced''), (''deleted'', I 0),
        (''replication_status'', T ''none'')]])"
  by (simp add: initialize_db_def migrate_to_v2_def migrate_to_v3_def migrate_to_v4_def v1_db_def
      create_tables_def needs_migration_def columns_def v1_columns_def transact_def reset_row_def
      v2_statements_def v3_statements_def v4_statements_def)

end
