(* ===== verification/Encryption.thy ===== *)
theory Encryption
  imports Models
begin

text \<open>
  \<^verbatim>\<open>stardustlib/encryption_engine.py\<close> and \<^verbatim>\<open>stardustlib/key_backup_engine.py\<close>: the
  container formats around AES-256-GCM. The cipher and the key derivation belong to the
  \<^verbatim>\<open>cryptography\<close> package and are parameters; random bytes are arguments.
\<close>

section \<open>The cryptographic library\<close>

text \<open>
  \<open>gcm_enc key iv plaintext\<close> is the pair of ciphertext and tag, \<open>gcm_dec key iv tag
  ciphertext\<close> is \<open>None\<close> where the library raises \<open>InvalidTag\<close>, and \<open>kdf password salt\<close>
  is PBKDF2-SHA256 with the iterations the code asks for.
\<close>

record crypto =
  gcm_enc :: "bytes \<Rightarrow> bytes \<Rightarrow> bytes \<Rightarrow> bytes \<times> bytes"
  gcm_dec :: "bytes \<Rightarrow> bytes \<Rightarrow> bytes \<Rightarrow> bytes \<Rightarrow> bytes option"
  kdf :: "nat \<Rightarrow> string \<Rightarrow> bytes \<Rightarrow> bytes"

text \<open>
  The documented behaviour of AES-GCM: tags have 16 bytes, decryption inverts encryption,
  and decryption succeeds only on the ciphertext and tag that encryption produces.
\<close>

definition aead :: "crypto \<Rightarrow> bool" where
  "aead cr \<longleftrightarrow> (\<forall>k iv p. length (snd (gcm_enc cr k iv p)) = 16) \<and>
     (\<forall>k iv t c p. gcm_dec cr k iv t c = Some p \<longleftrightarrow> gcm_enc cr k iv p = (c, t))"

text \<open>A concrete instance with these laws: the tag depends on key and data.\<close>

definition toy_crypto :: crypto where
  "toy_crypto = \<lparr>gcm_enc = \<lambda>k iv p. (p, replicate 15 0 @ [sum_list (k @ iv @ p)]),
     gcm_dec = \<lambda>k iv t c. if t = replicate 15 0 @ [sum_list (k @ iv @ c)] then Some c else None,
     kdf = \<lambda>n pw salt. replicate 32 (of_nat (length pw))\<rparr>"

lemma aead_toy: "aead toy_crypto"
  by (auto simp: aead_def toy_crypto_def)

lemma aead_len [simp]: "aead cr \<Longrightarrow> gcm_enc cr k iv p = (c, t) \<Longrightarrow> length t = 16"
  by (metis aead_def snd_conv)

lemma aead_dec: "aead cr \<Longrightarrow> gcm_dec cr k iv t c = Some p \<longleftrightarrow> gcm_enc cr k iv p = (c, t)"
  by (simp add: aead_def)

section \<open>EncryptionEngine\<close>

definition HEADER_SIZE :: nat where "HEADER_SIZE = 38"

definition MAGIC :: bytes where "MAGIC = [0x53, 0x44, 0x46, 0x53]"

definition ENC_VERSION :: "8 word" where "ENC_VERSION = 1"

definition MODE_GCM :: "8 word" where "MODE_GCM = 1"

record engine =
  eng_key :: bytes
  eng_crypto :: crypto

definition validate_key :: "bytes \<Rightarrow> bool" where
  "validate_key key \<longleftrightarrow> length key = 32"

definition new_engine :: "crypto \<Rightarrow> bytes \<Rightarrow> engine result" where
  "new_engine cr key =
     (if \<not> validate_key key then Inl InvalidKeyError
      else Inr \<lparr>eng_key = key, eng_crypto = cr\<rparr>)"

text \<open>The result of \<open>generate_iv\<close> is the argument \<open>iv\<close>.\<close>

definition encrypt :: "engine \<Rightarrow> bytes \<Rightarrow> bytes \<Rightarrow> bytes" where
  "encrypt eng iv plaintext =
     (let (ciphertext, tag) = gcm_enc (eng_crypto eng) (eng_key eng) iv plaintext;
          header = MAGIC @ [ENC_VERSION, MODE_GCM] @ iv @ tag
      in header @ ciphertext)"

definition decrypt :: "engine \<Rightarrow> bytes \<Rightarrow> bytes result" where
  "decrypt eng d =
     (if length d < HEADER_SIZE then Inl DecryptionError
      else if slice d 0 4 \<noteq> MAGIC then Inl DecryptionError
      else (let iv = slice d 6 22; tag = slice d 22 38; ciphertext = drop 38 d in
        case gcm_dec (eng_crypto eng) (eng_key eng) iv tag ciphertext of
          None \<Rightarrow> Inl IntegrityError
        | Some plaintext \<Rightarrow> Inr plaintext))"

text \<open>The stream variants read the rest of the input and append to the output.\<close>

definition encrypt_stream :: "engine \<Rightarrow> bytes \<Rightarrow> bytes \<Rightarrow> bytes \<Rightarrow> bytes" where
  "encrypt_stream eng iv input out = out @ encrypt eng iv input"

definition decrypt_stream :: "engine \<Rightarrow> bytes \<Rightarrow> bytes \<Rightarrow> bytes result" where
  "decrypt_stream eng input out =
     (case decrypt eng input of Inl e \<Rightarrow> Inl e | Inr p \<Rightarrow> Inr (out @ p))"

section \<open>KeyBackupEngine\<close>

definition PBKDF2_ITERATIONS :: nat where "PBKDF2_ITERATIONS = 600000"
definition SALT_SIZE :: nat where "SALT_SIZE = 16"
definition IV_SIZE :: nat where "IV_SIZE = 12"
definition TAG_SIZE :: nat where "TAG_SIZE = 16"

definition derive_key :: "crypto \<Rightarrow> string \<Rightarrow> bytes \<Rightarrow> bytes" where
  "derive_key cr password salt = kdf cr PBKDF2_ITERATIONS password salt"

text \<open>\<open>AESGCM\<close> appends the tag to the ciphertext.\<close>

definition aesgcm_encrypt :: "crypto \<Rightarrow> bytes \<Rightarrow> bytes \<Rightarrow> bytes \<Rightarrow> bytes" where
  "aesgcm_encrypt cr key iv data = (let (c, t) = gcm_enc cr key iv data in c @ t)"

definition aesgcm_decrypt :: "crypto \<Rightarrow> bytes \<Rightarrow> bytes \<Rightarrow> bytes \<Rightarrow> bytes option" where
  "aesgcm_decrypt cr key iv ct = gcm_dec cr key iv (drop (length ct - 16) ct) (take (length ct - 16) ct)"

definition encrypt_for_backup :: "crypto \<Rightarrow> bytes \<Rightarrow> bytes \<Rightarrow> bytes \<Rightarrow> string \<Rightarrow> bytes" where
  "encrypt_for_backup cr salt iv master_key password =
     (let derived_key = derive_key cr password salt;
          ct_with_tag = aesgcm_encrypt cr derived_key iv master_key;
          ciphertext = take (length ct_with_tag - TAG_SIZE) ct_with_tag;
          tag = drop (length ct_with_tag - TAG_SIZE) ct_with_tag
      in salt @ iv @ tag @ ciphertext)"

definition decrypt_from_backup :: "crypto \<Rightarrow> bytes \<Rightarrow> string \<Rightarrow> bytes result" where
  "decrypt_from_backup cr blob password =
     (if length blob < SALT_SIZE + IV_SIZE + TAG_SIZE then Inl IntegrityError
      else (let salt = take SALT_SIZE blob;
                iv = take IV_SIZE (drop SALT_SIZE blob);
                tag = take TAG_SIZE (drop (SALT_SIZE + IV_SIZE) blob);
                ciphertext = drop (SALT_SIZE + IV_SIZE + TAG_SIZE) blob;
                derived_key = derive_key cr password salt
            in case aesgcm_decrypt cr derived_key iv (ciphertext @ tag) of
                 None \<Rightarrow> Inl IntegrityError
               | Some master_key \<Rightarrow> Inr master_key))"

section \<open>The contract of an authenticated codec\<close>

text \<open>
  What the users of the engines rely on: opening inverts sealing for every nonce, and
  opens nothing but what sealing with that nonce would produce, up to fields of the
  container that opening ignores (\<open>same\<close>).
\<close>

locale sealed_codec =
  fixes seal :: "'k \<Rightarrow> 'n \<Rightarrow> bytes \<Rightarrow> bytes"
    and open_box :: "'k \<Rightarrow> bytes \<Rightarrow> bytes result"
    and good :: "'k \<Rightarrow> 'n \<Rightarrow> bool"
    and same :: "bytes \<Rightarrow> bytes \<Rightarrow> bool"
  assumes open_seal: "good k n \<Longrightarrow> open_box k (seal k n p) = Inr p"
    and open_only: "good k n0 \<Longrightarrow> open_box k b = Inr p \<Longrightarrow> \<exists>n. good k n \<and> same b (seal k n p)"
begin

lemma seal_inj: "good k n \<Longrightarrow> seal k n p = seal k n q \<Longrightarrow> p = q"
  using open_seal by (metis Inr_inject)

lemma not_sealed_fails:
  "good k n0 \<Longrightarrow> (\<And>n p. good k n \<Longrightarrow> \<not> same b (seal k n p)) \<Longrightarrow> \<exists>e. open_box k b = Inl e"
  using open_only by (cases "open_box k b") fastforce+

end

lemma slice_nat: "slice xs (int a) (int b) = take (b - a) (drop a xs)"
  by (simp add: slice_def nat_diff_distrib')

lemma decrypt_encrypt:
  assumes "aead (eng_crypto eng)" and "length iv = 16"
  shows "decrypt eng (encrypt eng iv p) = Inr p"
proof -
  obtain c t where ct: "gcm_enc (eng_crypto eng) (eng_key eng) iv p = (c, t)"
    by (cases "gcm_enc (eng_crypto eng) (eng_key eng) iv p")
  then have t: "length t = 16" using assms(1) by simp
  have e: "encrypt eng iv p = MAGIC @ [ENC_VERSION, MODE_GCM] @ iv @ t @ c"
    by (simp add: encrypt_def ct)
  have "gcm_dec (eng_crypto eng) (eng_key eng) iv t c = Some p"
    using aead_dec [OF assms(1)] ct by simp
  with t assms(2) show ?thesis
    unfolding decrypt_def e by (simp add: slice_def HEADER_SIZE_def MAGIC_def Let_def)
qed

text \<open>The two bytes after the magic number are written but never read back.\<close>

definition same_box :: "bytes \<Rightarrow> bytes \<Rightarrow> bool" where
  "same_box a b \<longleftrightarrow> take 4 a = take 4 b \<and> drop 6 a = drop 6 b"

lemma decrypt_only:
  assumes "aead (eng_crypto eng)" and "decrypt eng b = Inr p"
  shows "\<exists>iv. length iv = 16 \<and> same_box b (encrypt eng iv p)"
proof -
  have len: "38 \<le> length b" and magic: "take 4 b = MAGIC"
    and dec: "gcm_dec (eng_crypto eng) (eng_key eng) (slice b 6 22) (slice b 22 38) (drop 38 b) = Some p"
    using assms(2) by (auto simp: decrypt_def Let_def HEADER_SIZE_def slice_def split: if_splits option.splits)
  have enc: "gcm_enc (eng_crypto eng) (eng_key eng) (slice b 6 22) p = (drop 38 b, slice b 22 38)"
    using aead_dec [OF assms(1)] dec by simp
  have "drop 6 b = take 16 (drop 6 b) @ drop 22 b"
    using append_take_drop_id [of 16 "drop 6 b"] by simp
  moreover have "drop 22 b = take 16 (drop 22 b) @ drop 38 b"
    using append_take_drop_id [of 16 "drop 22 b"] by simp
  ultimately have "drop 6 b = slice b 6 22 @ slice b 22 38 @ drop 38 b"
    by (simp add: slice_def)
  then have "same_box b (encrypt eng (slice b 6 22) p)"
    using magic by (simp add: same_box_def encrypt_def enc MAGIC_def)
  moreover have "length (slice b 6 22) = 16" using len by (simp add: slice_def)
  ultimately show ?thesis by blast
qed

lemma decrypt_same_box:
  assumes "same_box a b" and "38 \<le> length b"
  shows "decrypt eng a = decrypt eng b"
proof -
  have d: "drop 6 a = drop 6 b" and t: "take 4 a = take 4 b"
    using assms(1) by (auto simp: same_box_def)
  have "length a = length b"
    using arg_cong [OF d, of length] assms(2) by simp
  moreover have "drop 22 a = drop 22 b" and "drop 38 a = drop 38 b"
    using arg_cong [OF d, of "drop 16"] arg_cong [OF d, of "drop 32"] by simp_all
  ultimately show ?thesis using d t by (simp add: decrypt_def slice_def)
qed

lemma encrypt_length:
  assumes "aead (eng_crypto eng)" and "length iv = 16"
  shows "length (encrypt eng iv p) \<ge> 38"
  using assms
  by (auto simp: encrypt_def MAGIC_def split: prod.split)

interpretation aes: sealed_codec encrypt decrypt
  "\<lambda>eng iv. aead (eng_crypto eng) \<and> length iv = 16" same_box
  by unfold_locales (use decrypt_encrypt decrypt_only in auto)

section \<open>Backup blobs\<close>

lemma aesgcm_decrypt_append:
  "length t = 16 \<Longrightarrow> aesgcm_decrypt cr k iv (c @ t) = gcm_dec cr k iv t c"
  by (simp add: aesgcm_decrypt_def)

lemma encrypt_for_backup_parts:
  assumes "aead cr" and "gcm_enc cr (derive_key cr pw salt) iv mk = (c, t)"
  shows "encrypt_for_backup cr salt iv mk pw = salt @ iv @ t @ c"
  using assms by (simp add: encrypt_for_backup_def aesgcm_encrypt_def TAG_SIZE_def Let_def)

lemma decrypt_backup_encrypt:
  assumes "aead cr" and "length salt = 16" and "length iv = 12"
  shows "decrypt_from_backup cr (encrypt_for_backup cr salt iv mk pw) pw = Inr mk"
proof -
  obtain c t where ct: "gcm_enc cr (derive_key cr pw salt) iv mk = (c, t)"
    by (cases "gcm_enc cr (derive_key cr pw salt) iv mk")
  then have t: "length t = 16" using assms(1) by simp
  have "gcm_dec cr (derive_key cr pw salt) iv t c = Some mk"
    using aead_dec [OF assms(1)] ct by simp
  then show ?thesis
    using t assms(2,3)
    by (simp add: encrypt_for_backup_parts [OF assms(1) ct] decrypt_from_backup_def Let_def
        SALT_SIZE_def IV_SIZE_def TAG_SIZE_def aesgcm_decrypt_append)
qed

lemma decrypt_backup_only:
  assumes "aead cr" and "decrypt_from_backup cr blob pw = Inr mk"
  shows "\<exists>salt iv. length salt = 16 \<and> length iv = 12 \<and> blob = encrypt_for_backup cr salt iv mk pw"
proof -
  let ?salt = "take 16 blob" and ?iv = "take 12 (drop 16 blob)"
  let ?t = "take 16 (drop 28 blob)" and ?c = "drop 44 blob"
  have len: "44 \<le> length blob"
    and dec: "aesgcm_decrypt cr (derive_key cr pw ?salt) ?iv (?c @ ?t) = Some mk"
    using assms(2) by (auto simp: decrypt_from_backup_def Let_def SALT_SIZE_def IV_SIZE_def
        TAG_SIZE_def split: if_splits option.splits)
  then have "gcm_enc cr (derive_key cr pw ?salt) ?iv mk = (?c, ?t)"
    using aead_dec [OF assms(1)] by (simp add: aesgcm_decrypt_append)
  then have "encrypt_for_backup cr ?salt ?iv mk pw = ?salt @ ?iv @ ?t @ ?c"
    by (rule encrypt_for_backup_parts [OF assms(1)])
  also have "\<dots> = blob"
  proof -
    have "?t @ ?c = drop 28 blob" using append_take_drop_id [of 16 "drop 28 blob"] by simp
    moreover have "?iv @ drop 28 blob = drop 16 blob"
      using append_take_drop_id [of 12 "drop 16 blob"] by simp
    ultimately show ?thesis by simp
  qed
  finally have "encrypt_for_backup cr ?salt ?iv mk pw = blob" .
  then show ?thesis
    using len by (intro exI [of _ ?salt] exI [of _ ?iv]) simp
qed

text \<open>One nonce for the backups is the pair of salt and iv, the key is the password.\<close>

interpretation backup: sealed_codec
  "\<lambda>pw (salt, iv) mk. encrypt_for_backup cr salt iv mk pw" "\<lambda>pw b. decrypt_from_backup cr b pw"
  "\<lambda>pw (salt, iv). aead cr \<and> length salt = 16 \<and> length iv = 12" "(=)" for cr
  by unfold_locales (use decrypt_backup_encrypt decrypt_backup_only in \<open>auto split: prod.splits\<close>)

section \<open>Properties\<close>

text \<open>Decrypting what the engine has encrypted gives the plaintext back, for every
  key, every 16 byte iv and every content, through the stream interface as well.\<close>

lemma engine_roundtrip:
  assumes "aead cr" and "new_engine cr key = Inr eng" and "length iv = 16"
  shows "decrypt eng (encrypt eng iv p) = Inr p \<and>
    decrypt_stream eng (encrypt_stream eng iv p []) out = Inr (out @ p)"
proof -
  have "aead (eng_crypto eng)"
    using assms(1,2) by (auto simp: new_engine_def split: if_splits)
  then show ?thesis
    using aes.open_seal [of eng iv p] assms(3) by (simp add: decrypt_stream_def encrypt_stream_def)
qed

text \<open>C20: Decryption succeeds on exactly the encryptions under the same key, up to the
  two bytes after the magic number (version and mode, which it does not read); any other
  data raises.\<close>

theorem engine_accepts_only_encryptions:
  assumes "aead (eng_crypto eng)"
  shows "decrypt eng b = Inr p \<longleftrightarrow> (\<exists>iv. length iv = 16 \<and> same_box b (encrypt eng iv p))"
proof
  assume "decrypt eng b = Inr p"
  then show "\<exists>iv. length iv = 16 \<and> same_box b (encrypt eng iv p)"
    using aes.open_only [of eng "replicate 16 0" b p] assms by auto
next
  assume "\<exists>iv. length iv = 16 \<and> same_box b (encrypt eng iv p)"
  then show "decrypt eng b = Inr p"
    using decrypt_same_box encrypt_length aes.open_seal assms by metis
qed

theorem engine_accepts_only_encryptions_witness:
  "let eng = \<lparr>eng_key = replicate 32 7, eng_crypto = toy_crypto\<rparr> in
   decrypt eng [1, 2] = Inr [4] \<longleftrightarrow> (\<exists>iv. length iv = 16 \<and> same_box [1, 2] (encrypt eng iv [4]))"
  unfolding Let_def
  by (rule engine_accepts_only_encryptions) (simp add: aead_toy)

text \<open>A backup blob restores the master key under the password it was made with, and
  a blob that a password opens is exactly the blob that password makes of the key it
  yields.\<close>

lemma key_backup_exact:
  assumes "aead cr"
  shows "decrypt_from_backup cr blob pw = Inr mk \<longleftrightarrow>
    (\<exists>salt iv. length salt = 16 \<and> length iv = 12 \<and> blob = encrypt_for_backup cr salt iv mk pw)"
  using backup.open_only [where cr = cr and ?n0.0 = "(replicate 16 0, replicate 12 0)" and k = pw and b = blob and p = mk]
    decrypt_backup_encrypt assms
  by auto

end
