(* ===== verification/Key_Backup.thy ===== *)
theory Key_Backup
  imports Encryption
begin

text \<open>
  The key backup of \<^verbatim>\<open>stardustfs.py\<close>: \<open>_backup_key_to_server\<close> uploads the master key sealed
  with a password, once, and \<open>_restore_key_from_server\<close> brings it to another device. The
  server is what it answers and the blob it holds for the user.
\<close>

section \<open>Password\<close>

definition backup_password :: "string option \<Rightarrow> string option \<Rightarrow> string" where
  "backup_password stored env = (if truthy stored then the stored else get_str env)"

section \<open>Restoring\<close>

type_synonym key_disk = "string \<rightharpoonup> bytes"

text \<open>
  \<open>response\<close> is the answer to the download with its content, \<open>write_error\<close> the error of
  creating the directory or writing the file, with what it leaves at the path.
\<close>

definition restore_key ::
  "crypto \<Rightarrow> string \<Rightarrow> string result \<Rightarrow> bytes direct \<Rightarrow> (exn \<times> bytes option) option \<Rightarrow> string option \<Rightarrow>
     key_disk \<Rightarrow> unit result \<times> key_disk" where
  "restore_key cr password token response write_error key_file disk =
     (if password = [] then (Inl RuntimeError, disk)
      else case token of
        Inl e \<Rightarrow> (Inl e, disk)
      | Inr _ \<Rightarrow>
          (case response of
            Unreachable \<Rightarrow> (Inl NetworkError, disk)
          | Answer code blob \<Rightarrow>
              if code = 404 then (Inl KeyNotFoundError, disk)
              else if 400 \<le> code then (Inl RuntimeError, disk)
              else (case decrypt_from_backup cr blob password of
                  Inl e \<Rightarrow> (Inl e, disk)
                | Inr master_key \<Rightarrow>
                    (case key_file of
                      None \<Rightarrow> (Inl TypeError, disk)
                    | Some f \<Rightarrow>
                        (case write_error of
                          Some (e, left) \<Rightarrow> (Inl e, disk(f := left))
                        | None \<Rightarrow> (Inr (), disk(f \<mapsto> master_key)))))))"

section \<open>Backing up\<close>

text \<open>
  The server: \<open>key_blob\<close> is what it holds; \<open>check\<close> is the answer to the
  download that only asks whether there is a blob, \<open>put_answer\<close> the answer to an upload.
\<close>

record key_server =
  key_blob :: "bytes option"

definition get_key :: "int option \<Rightarrow> key_server \<Rightarrow> bytes direct" where
  "get_key trouble sv =
     (case trouble of
       Some code \<Rightarrow> Answer code []
     | None \<Rightarrow> (case key_blob sv of None \<Rightarrow> Answer 404 [] | Some b \<Rightarrow> Answer 200 b))"

definition put_key :: "unit direct \<Rightarrow> bytes \<Rightarrow> key_server \<Rightarrow> unit result \<times> key_server" where
  "put_key put_answer b sv =
     (case put_answer of
       Unreachable \<Rightarrow> (Inl NetworkError, sv)
     | Answer code _ \<Rightarrow> (Inr (), if code < 400 then sv\<lparr>key_blob := Some b\<rparr> else sv))"

definition backup_key ::
  "crypto \<Rightarrow> string \<Rightarrow> string result \<Rightarrow> bytes direct \<Rightarrow> string result \<Rightarrow> unit direct \<Rightarrow> bytes \<Rightarrow> bytes \<Rightarrow>
     string \<Rightarrow> key_disk \<Rightarrow> key_server \<Rightarrow> unit result \<times> key_server" where
  "backup_key cr password token check token2 put_answer salt iv key_file disk sv =
     (if password = [] then (Inr (), sv)
      else case token of
        Inl e \<Rightarrow> (Inl e, sv)
      | Inr _ \<Rightarrow>
          (case check of
            Unreachable \<Rightarrow> (Inl NetworkError, sv)
          | Answer code _ \<Rightarrow>
              if code = 200 then (Inr (), sv)
              else (case disk key_file of
                  None \<Rightarrow> (Inl FileNotFoundError, sv)
                | Some master_key \<Rightarrow>
                    (case token2 of
                      Inl e \<Rightarrow> (Inl e, sv)
                    | Inr _ \<Rightarrow> put_key put_answer (encrypt_for_backup cr salt iv master_key password) sv))))"

text \<open>Without an error of the disk, a restore that fails leaves every file as it was.\<close>

lemma failed_restore_keeps_files:
  "restore_key cr pw token resp None f disk = (Inl e, disk') \<Longrightarrow> disk' = disk"
  by (auto simp: restore_key_def split: sum.splits direct.splits option.splits if_splits)

text \<open>C32: A second device that starts with the password of the first one ends up with the
  master key of the first, byte for byte; and once the blob is in place, a start of any device
  that finds it leaves it alone, so that the key can be restored again.\<close>

theorem second_device_gets_key:
  assumes "aead cr" and "length salt = 16" and "length iv = 12" and "password \<noteq> []"
    and "disk1 f1 = Some master_key" and "key_blob sv = None" and "code < 400"
    and "backup_key cr password (Inr tok) (get_key None sv) (Inr tok) (Answer code ()) salt iv f1 disk1 sv = (r, sv1)"
  shows "r = Inr () \<and>
    restore_key cr password (Inr tok2) (get_key None sv1) None (Some f2) disk2 = (Inr (), disk2(f2 \<mapsto> master_key)) \<and>
    snd (backup_key cr password3 token3 (get_key None sv1) token4 put3 salt3 iv3 f3 disk3 sv1) = sv1"
proof -
  let ?blob = "encrypt_for_backup cr salt iv master_key password"
  have sv1: "r = Inr ()" "sv1 = sv\<lparr>key_blob := Some ?blob\<rparr>"
    using assms(4-8) by (simp_all add: backup_key_def get_key_def put_key_def)
  have "decrypt_from_backup cr ?blob password = Inr master_key"
    using assms(1-3) by (rule decrypt_backup_encrypt)
  with assms(4) sv1 show ?thesis
    by (simp add: restore_key_def backup_key_def get_key_def split: sum.splits)
qed

definition sample_key :: bytes where
  "sample_key = replicate 32 7"

theorem second_device_gets_key_witness:
  "restore_key toy_crypto ''pw'' (Inr ''t'')
     (get_key None (snd (backup_key toy_crypto ''pw'' (Inr ''t'') (get_key None \<lparr>key_blob = None\<rparr>) (Inr ''t'')
       (Answer 201 ()) (replicate 16 1) (replicate 12 2) ''/k'' [''/k'' \<mapsto> sample_key] \<lparr>key_blob = None\<rparr>)))
     None (Some ''/other'') Map.empty = (Inr (), [''/other'' \<mapsto> sample_key])"
  using second_device_gets_key [OF aead_toy, of "replicate 16 1" "replicate 12 2" "''pw''" "[''/k'' \<mapsto> sample_key]" "''/k''"
      sample_key "\<lparr>key_blob = None\<rparr>" 201 "''t''" "Inr ()"
      "snd (backup_key toy_crypto ''pw'' (Inr ''t'') (get_key None \<lparr>key_blob = None\<rparr>) (Inr ''t'')
       (Answer 201 ()) (replicate 16 1) (replicate 12 2) ''/k'' [''/k'' \<mapsto> sample_key] \<lparr>key_blob = None\<rparr>)"
      "''t''" "''/other''" Map.empty]
  by (simp add: backup_key_def get_key_def put_key_def)

text \<open>
  Any other answer than 200 to the question for the blob, also an error of the server, is
  taken for "no blob": the upload then replaces the blob that is there.
\<close>

lemma server_trouble_overwrites_blob:
  assumes "password \<noteq> []" and "disk f = Some mk" and "key_blob sv = Some old"
  shows "backup_key cr password (Inr tok) (get_key (Some 500) sv) (Inr tok) (Answer 200 ()) salt iv f disk sv =
    (Inr (), sv\<lparr>key_blob := Some (encrypt_for_backup cr salt iv mk password)\<rparr>)"
  using assms by (simp add: backup_key_def get_key_def put_key_def)

end
