(* ===== verification/JBOD_Manager.thy ===== *)
theory JBOD_Manager
  imports Storage_Source Metadata_Store Encryption
begin

text \<open>
  \<^verbatim>\<open>stardustlib/jbod_manager.py\<close>: the logical volume. The manager places files on the
  local sources, keeps one metadata record per virtual path, encrypts on the way in and
  decrypts on the way out, and routes reads of files that another device owns to that
  device. An operation is a function from the manager's state to a result and the state
  after it; a raised exception is an \<open>Inl\<close> result, with whatever state the code had
  reached when it was raised.
\<close>

section \<open>State\<close>

text \<open>
  \<open>sources\<close> holds the source objects; \<open>_source_map\<close> always maps an id to the last
  source with that id, so it is a function of the list (\<open>source_index\<close>). \<open>remotes\<close>
  says for each registered device proxy whether it is active.
\<close>

record jbod =
  sources :: "source list"
  md :: mstore
  eng :: "engine option"
  dev :: "string option"
  remotes :: "bool dict"
  gc_needed :: bool

text \<open>
  What one operation gets from outside: the operating system, the clock, \<open>uuid4().hex\<close>,
  the random iv, and whether a refresh brings a device proxy back.
\<close>

record jenv =
  os :: os_env
  now :: time
  uuid :: string
  rnd_iv :: bytes
  refreshes :: "string \<Rightarrow> bool"

definition jbod_init :: "source list \<Rightarrow> mstore \<Rightarrow> engine option \<Rightarrow> string option \<Rightarrow> jbod" where
  "jbod_init ss m e d = \<lparr>sources = ss, md = m, eng = e, dev = d, remotes = [], gc_needed = False\<rparr>"

definition mark_gc_needed :: "jbod \<Rightarrow> jbod" where
  "mark_gc_needed j = j\<lparr>gc_needed := True\<rparr>"

definition register_remote_device :: "string \<Rightarrow> bool \<Rightarrow> jbod \<Rightarrow> jbod" where
  "register_remote_device d active j = j\<lparr>remotes := AList.update d active (remotes j)\<rparr>"

section \<open>Sources\<close>

definition skipped :: "source \<Rightarrow> bool" where
  "skipped s \<longleftrightarrow> \<not> src_active s \<or> is_remote s"

text \<open>The loop of \<open>select_source\<close>: \<open>i\<close> is the position of the next source, \<open>best\<close> and
  \<open>space\<close> the best candidate so far. Asking a source for its space may raise.\<close>

fun select_loop ::
  "os_env \<Rightarrow> int \<Rightarrow> nat \<Rightarrow> nat option \<Rightarrow> int \<Rightarrow> source list \<Rightarrow> nat option result \<times> source list" where
  "select_loop e size_bytes i best space [] = (Inr best, [])"
| "select_loop e size_bytes i best space (s # ss) =
     (if skipped s then apsnd ((#) s) (select_loop e size_bytes (Suc i) best space ss)
      else (case get_available_space e s of
        (Inl x, s') \<Rightarrow> (Inl x, s' # ss)
      | (Inr a, s') \<Rightarrow>
          if size_bytes \<le> a \<and> space < a
          then apsnd ((#) s') (select_loop e size_bytes (Suc i) (Some i) a ss)
          else apsnd ((#) s') (select_loop e size_bytes (Suc i) best space ss)))"

definition select_source :: "os_env \<Rightarrow> int \<Rightarrow> jbod \<Rightarrow> nat result \<times> jbod" where
  "select_source e size_bytes j =
     (let (r, ss) = select_loop e size_bytes 0 None (-1) (sources j); j' = j\<lparr>sources := ss\<rparr> in
      case r of
        Inl x \<Rightarrow> (Inl x, j')
      | Inr None \<Rightarrow> (Inl InsufficientStorageError, j')
      | Inr (Some i) \<Rightarrow> (Inr i, j'))"

fun last_index :: "('a \<Rightarrow> bool) \<Rightarrow> 'a list \<Rightarrow> nat option" where
  "last_index P [] = None"
| "last_index P (x # xs) =
     (case last_index P xs of Some i \<Rightarrow> Some (Suc i) | None \<Rightarrow> if P x then Some 0 else None)"

text \<open>\<open>_get_source_by_id\<close>, as a position in \<open>sources\<close>.\<close>

definition source_index :: "string \<Rightarrow> jbod \<Rightarrow> nat option" where
  "source_index sid j = last_index (\<lambda>s. src_id s = sid) (sources j)"

definition add_source :: "source \<Rightarrow> jbod \<Rightarrow> jbod" where
  "add_source s j = j\<lparr>sources := filter (\<lambda>t. src_id t \<noteq> src_id s) (sources j) @ [s]\<rparr>"

definition on_source :: "nat \<Rightarrow> (source \<Rightarrow> 'a result \<times> source) \<Rightarrow> jbod \<Rightarrow> 'a result \<times> jbod" where
  "on_source i f j = apsnd (\<lambda>s. j\<lparr>sources := (sources j)[i := s]\<rparr>) (f (sources j ! i))"

definition generate_physical_path :: "string \<Rightarrow> string \<Rightarrow> string" where
  "generate_physical_path hex vp =
     (let parts = split_on CHR ''/'' (strip CHR ''/'' vp) in
      if 1 < length parts
      then join_on CHR ''/'' (butlast parts) @ ''/'' @ hex @ ''_'' @ last parts
      else hex @ ''_'' @ hd parts)"

section \<open>Reading\<close>

definition decrypted :: "jbod \<Rightarrow> bytes result \<Rightarrow> bytes result" where
  "decrypted j r = (case r of
     Inl e \<Rightarrow> Inl e
   | Inr d \<Rightarrow> (case eng j of None \<Rightarrow> Inr d | Some g \<Rightarrow> decrypt g d))"

definition read_local :: "jenv \<Rightarrow> file_meta \<Rightarrow> jbod \<Rightarrow> bytes result \<times> jbod" where
  "read_local env m j =
     (case source_index (source_id m) j of
       None \<Rightarrow> (Inl (OSError False), j)
     | Some i \<Rightarrow>
         if \<not> src_active (sources j ! i) then (Inl (OSError False), j)
         else apfst (decrypted j) (on_source i (src_read (os env) (physical_path m)) j))"

definition read_remote :: "jenv \<Rightarrow> file_meta \<Rightarrow> string \<Rightarrow> jbod \<Rightarrow> bytes result \<times> jbod" where
  "read_remote env m owner j =
     (case map_of (remotes j) owner of
       None \<Rightarrow> (Inl (OSError False), j)
     | Some active \<Rightarrow>
         (let active' = active \<or> refreshes env owner;
              j' = (if active then j else j\<lparr>remotes := AList.update owner active' (remotes j)\<rparr>) in
          if \<not> active' then (Inl (OSError False), j')
          else (decrypted j (remote_read (os env) owner (physical_path m) (Some (source_id m))), j')))"

text \<open>Whether a record's physical file is on this device (its owner, or no owner).\<close>

definition owned_here :: "jbod \<Rightarrow> file_meta \<Rightarrow> bool" where
  "owned_here j m \<longleftrightarrow> device_id m = None \<or> device_id m = dev j"

definition read_file :: "jenv \<Rightarrow> string \<Rightarrow> jbod \<Rightarrow> bytes result \<times> jbod" where
  "read_file env vp j =
     (case lookup vp (md j) of
       None \<Rightarrow> (Inl FileNotFoundError, j)
     | Some m \<Rightarrow>
         if owned_here j m then read_local env m j
         else read_remote env m (the (device_id m)) j)"

section \<open>Writing\<close>

definition sealed :: "jenv \<Rightarrow> jbod \<Rightarrow> bytes \<Rightarrow> bytes" where
  "sealed env j data = (case eng j of None \<Rightarrow> data | Some g \<Rightarrow> encrypt g (rnd_iv env) data)"

definition set_md :: "mstore \<Rightarrow> jbod \<Rightarrow> jbod" where
  "set_md m j = j\<lparr>md := m\<rparr>"

text \<open>\<open>if source.exists(p): source.delete(p)\<close>, both of which may raise.\<close>

definition remove_partial :: "jenv \<Rightarrow> nat \<Rightarrow> string \<Rightarrow> jbod \<Rightarrow> unit result \<times> jbod" where
  "remove_partial env i p j =
     (case src_exists (os env) p (sources j ! i) of
       Inl e \<Rightarrow> (Inl e, j)
     | Inr present \<Rightarrow> if present then on_source i (src_delete (os env) p) j else (Inr (), j))"

definition space_error :: "exn \<Rightarrow> exn" where
  "space_error e = (if e = OSError True then InsufficientStorageError else e)"

text \<open>Write \<open>enc\<close> to path \<open>p\<close> of source \<open>i\<close> within a transaction, then record it with
  \<open>upd_md\<close>; on failure roll back and run \<open>clean\<close>, whose own exception replaces the error.\<close>

definition write_recorded ::
  "jenv \<Rightarrow> nat \<Rightarrow> string \<Rightarrow> bytes \<Rightarrow> (mstore \<Rightarrow> mstore) \<Rightarrow> bool \<Rightarrow> (exn \<Rightarrow> exn) \<Rightarrow>
     jbod \<Rightarrow> unit result \<times> jbod" where
  "write_recorded env i p enc upd_md clean err j =
     (case begin_transaction (md j) of
       (Inl e, m) \<Rightarrow> (Inl e, set_md m j)
     | (Inr _, m) \<Rightarrow>
         (case on_source i (src_write (os env) p enc) (set_md m j) of
           (Inr _, j1) \<Rightarrow> (Inr (), set_md (commit (upd_md (md j1))) j1)
         | (Inl e, j1) \<Rightarrow>
             (let j2 = set_md (rollback (md j1)) j1 in
              if clean then
                (case remove_partial env i p j2 of
                  (Inl e', j3) \<Rightarrow> (Inl e', j3)
                | (Inr _, j3) \<Rightarrow> (Inl (err e), j3))
              else (Inl (err e), j2))))"

definition takeover_write :: "jenv \<Rightarrow> string \<Rightarrow> bytes \<Rightarrow> int \<Rightarrow> jbod \<Rightarrow> unit result \<times> jbod" where
  "takeover_write env vp enc plain_size j =
     (case select_source (os env) (int (length enc)) j of
       (Inl e, j') \<Rightarrow> (Inl e, j')
     | (Inr i, j') \<Rightarrow>
         (let p = generate_physical_path (uuid env) vp in
          case write_recorded env i p enc
              (update_file vp plain_size (now env) (dev j) (Some (src_id (sources j' ! i))) (Some p))
              True space_error j' of
            (Inl e, j2) \<Rightarrow> (Inl e, j2)
          | (Inr _, j2) \<Rightarrow> (Inr (), j2\<lparr>gc_needed := True\<rparr>)))"

definition overwrite_file ::
  "jenv \<Rightarrow> string \<Rightarrow> file_meta \<Rightarrow> bytes \<Rightarrow> int \<Rightarrow> jbod \<Rightarrow> unit result \<times> jbod" where
  "overwrite_file env vp m enc plain_size j =
     (case source_index (source_id m) j of
       None \<Rightarrow> (Inl (OSError False), j)
     | Some i \<Rightarrow>
         if \<not> src_active (sources j ! i) then (Inl (OSError False), j)
         else write_recorded env i (physical_path m) enc
           (update_file vp plain_size (now env) (dev j) None None) False space_error j)"

definition create_file :: "jenv \<Rightarrow> string \<Rightarrow> bytes \<Rightarrow> int \<Rightarrow> jbod \<Rightarrow> unit result \<times> jbod" where
  "create_file env vp enc plain_size j =
     (case select_source (os env) (int (length enc)) j of
       (Inl e, j') \<Rightarrow> (Inl e, j')
     | (Inr i, j') \<Rightarrow>
         (let p = generate_physical_path (uuid env) vp in
          write_recorded env i p enc
            (insert_file vp (src_id (sources j' ! i)) p plain_size (now env) (now env) (dev j))
            True id j'))"

definition write_file :: "jenv \<Rightarrow> string \<Rightarrow> bytes \<Rightarrow> jbod \<Rightarrow> unit result \<times> jbod" where
  "write_file env vp data j =
     (let enc = sealed env j data; n = int (length data) in
      case lookup vp (md j) of
        Some m \<Rightarrow>
          if \<not> owned_here j m then takeover_write env vp enc n j
          else overwrite_file env vp m enc n j
      | None \<Rightarrow> create_file env vp enc n j)"

section \<open>Orphan collection\<close>

text \<open>\<open>_MANAGED_FILE_RE\<close>: 32 lower case hex digits and an underscore.\<close>

definition managed_name :: "string \<Rightarrow> bool" where
  "managed_name n \<longleftrightarrow> 33 \<le> length n \<and>
     list_all (\<lambda>c. c \<in> set ''0123456789abcdef'') (take 32 n) \<and> n ! 32 = CHR ''_''"

fun gc_names ::
  "os_env \<Rightarrow> (string \<times> string) list \<Rightarrow> string list \<Rightarrow> nat \<Rightarrow> source \<Rightarrow> nat \<times> source" where
  "gc_names e live [] removed s = (removed, s)"
| "gc_names e live (n # ns) removed s =
     (if \<not> managed_name n \<or> (src_id s, n) \<in> set live then gc_names e live ns removed s
      else (case src_delete e n s of
        (Inl x, s') \<Rightarrow> gc_names e live ns removed s'
      | (Inr _, s') \<Rightarrow> gc_names e live ns (Suc removed) s'))"

fun gc_sources ::
  "os_env \<Rightarrow> (string \<times> string) list \<Rightarrow> nat \<Rightarrow> source list \<Rightarrow> nat \<times> source list" where
  "gc_sources e live removed [] = (removed, [])"
| "gc_sources e live removed (s # ss) =
     (if skipped s then apsnd ((#) s) (gc_sources e live removed ss)
      else (case list_physical_files e s of
        Inl x \<Rightarrow> apsnd ((#) s) (gc_sources e live removed ss)
      | Inr names \<Rightarrow>
          (let (k, s') = gc_names e live names removed s in
           apsnd ((#) s') (gc_sources e live k ss))))"

definition gc_orphan_files :: "jenv \<Rightarrow> jbod \<Rightarrow> nat \<times> jbod" where
  "gc_orphan_files env j =
     (case dev j of
       None \<Rightarrow> (0, j)
     | Some d \<Rightarrow> apsnd (\<lambda>ss. j\<lparr>sources := ss\<rparr>)
         (gc_sources (os env) (live_physical_paths_for_device d (md j)) 0 (sources j)))"

definition gc_orphan_files_if_needed :: "jenv \<Rightarrow> jbod \<Rightarrow> nat \<times> jbod" where
  "gc_orphan_files_if_needed env j =
     (if \<not> gc_needed j then (0, j) else gc_orphan_files env (j\<lparr>gc_needed := False\<rparr>))"

section \<open>Deleting, moving, copying\<close>

definition delete_file :: "jenv \<Rightarrow> string \<Rightarrow> jbod \<Rightarrow> unit result \<times> jbod" where
  "delete_file env vp j =
     (case lookup vp (md j) of
       None \<Rightarrow> (Inl FileNotFoundError, j)
     | Some m \<Rightarrow>
         (let tomb = (\<lambda>k. (Inr (), set_md (delete_file_row vp (now env) (md k)) k)) in
          if \<not> owned_here j m then tomb j
          else (case source_index (source_id m) j of
            None \<Rightarrow> tomb j
          | Some i \<Rightarrow>
              if \<not> src_active (sources j ! i) then tomb j
              else (case on_source i (src_delete (os env) (physical_path m)) j of
                (Inr _, k) \<Rightarrow> tomb k
              | (Inl e, k) \<Rightarrow> if e = FileNotFoundError then tomb k else (Inl e, k)))))"

definition move_file :: "string \<Rightarrow> string \<Rightarrow> jbod \<Rightarrow> unit result \<times> jbod" where
  "move_file a b j =
     (case lookup a (md j) of
       None \<Rightarrow> (Inl FileNotFoundError, j)
     | Some m \<Rightarrow> apsnd (\<lambda>t. set_md t j) (rename_path a b (md j)))"

definition copy_file :: "jenv \<Rightarrow> string \<Rightarrow> string \<Rightarrow> jbod \<Rightarrow> unit result \<times> jbod" where
  "copy_file env a b j =
     (case read_file env a j of
       (Inl e, k) \<Rightarrow> (Inl e, k)
     | (Inr data, k) \<Rightarrow> write_file env b data k)"

definition file_exists :: "string \<Rightarrow> jbod \<Rightarrow> bool" where
  "file_exists vp j \<longleftrightarrow> lookup vp (md j) \<noteq> None"

definition get_file_info :: "string \<Rightarrow> jbod \<Rightarrow> file_info option" where
  "get_file_info vp j = map_option (\<lambda>m. \<lparr>fi_virtual_path = virtual_path m,
     fi_source_id = source_id m, fi_file_size = file_size m, fi_created_at = created_at m,
     fi_modified_at = modified_at m, fi_is_directory = False\<rparr>) (lookup vp (md j))"

section \<open>Directories\<close>

definition list_directory :: "string \<Rightarrow> jbod \<Rightarrow> entry_info list" where
  "list_directory vp j = list_entries vp (md j)"

text \<open>Run an operation on every active local source, exceptions being swallowed.\<close>

definition each_local :: "(source \<Rightarrow> source) \<Rightarrow> jbod \<Rightarrow> jbod" where
  "each_local f j = j\<lparr>sources := map (\<lambda>s. if skipped s then s else f s) (sources j)\<rparr>"

definition create_directory :: "jenv \<Rightarrow> string \<Rightarrow> jbod \<Rightarrow> jbod" where
  "create_directory env vp j =
     (let j' = each_local (\<lambda>s. snd (src_mkdir (os env) (lstrip CHR ''/'' vp) s)) j in
      set_md (insert_directory (rstrip CHR ''/'' vp) (now env) (md j')) j')"

text \<open>A loop whose body may raise.\<close>

fun each :: "('x \<Rightarrow> 's \<Rightarrow> unit result \<times> 's) \<Rightarrow> 'x list \<Rightarrow> 's \<Rightarrow> unit result \<times> 's" where
  "each f [] s = (Inr (), s)"
| "each f (x # xs) s =
     (case f x s of (Inl e, s') \<Rightarrow> (Inl e, s') | (Inr _, s') \<Rightarrow> each f xs s')"

definition child_path :: "string \<Rightarrow> string \<Rightarrow> string" where
  "child_path vp n = rstrip CHR ''/'' vp @ ''/'' @ n"

text \<open>\<open>delete_directory\<close> recurses into subdirectories; the first argument is the stack
  depth Python still has, whose exhaustion raises \<open>RecursionError\<close>.\<close>

primrec delete_directory :: "nat \<Rightarrow> jenv \<Rightarrow> string \<Rightarrow> jbod \<Rightarrow> unit result \<times> jbod" where
  "delete_directory 0 env vp j = (Inl RecursionError, j)"
| "delete_directory (Suc depth) env vp j =
     (case each (\<lambda>e k.
         if ei_is_directory e then delete_directory depth env (child_path vp (ei_name e)) k
         else (case delete_file env (child_path vp (ei_name e)) k of
           (Inl x, k') \<Rightarrow> (if x = FileNotFoundError then Inr () else Inl x, k')
         | (Inr _, k') \<Rightarrow> (Inr (), k')))
       (list_entries vp (md j)) j of
       (Inl e, k) \<Rightarrow> (Inl e, k)
     | (Inr _, k) \<Rightarrow>
         (let k' = each_local (\<lambda>s. snd (src_rmdir (os env) (lstrip CHR ''/'' vp) s)) k in
          (Inr (), set_md (delete_directory_entry (rstrip CHR ''/'' vp) (md k')) k')))"

definition move_physical :: "jenv \<Rightarrow> string \<Rightarrow> string \<Rightarrow> source \<Rightarrow> source" where
  "move_physical env a b s =
     (case src_mkdir (os env) b s of
       (Inl e, s1) \<Rightarrow> s1
     | (Inr _, s1) \<Rightarrow>
         (case src_exists (os env) a s1 of
           Inl e \<Rightarrow> s1
         | Inr present \<Rightarrow> if present then snd (src_rmdir (os env) a s1) else s1))"

definition move_directory :: "jenv \<Rightarrow> string \<Rightarrow> string \<Rightarrow> jbod \<Rightarrow> unit result \<times> jbod" where
  "move_directory env a b j =
     (case rename_directory (dir_prefix a) (dir_prefix b) (md j) of
       (Inl e, m) \<Rightarrow> (Inl e, set_md m j)
     | (Inr _, m) \<Rightarrow>
         (case rename_directory_row (rstrip CHR ''/'' a) (rstrip CHR ''/'' b) m of
           (Inl e, m') \<Rightarrow> (Inl e, set_md m' j)
         | (Inr _, m') \<Rightarrow>
             (Inr (), each_local (move_physical env (lstrip CHR ''/'' a) (lstrip CHR ''/'' b))
               (set_md m' j))))"

section \<open>Capacity\<close>

fun sum_space :: "(source \<Rightarrow> int result \<times> source) \<Rightarrow> int \<Rightarrow> source list \<Rightarrow> int result \<times> source list" where
  "sum_space f acc [] = (Inr acc, [])"
| "sum_space f acc (s # ss) =
     (if skipped s then apsnd ((#) s) (sum_space f acc ss)
      else (case f s of
        (Inl e, s') \<Rightarrow> (Inl e, s' # ss)
      | (Inr n, s') \<Rightarrow> apsnd ((#) s') (sum_space f (acc + n) ss)))"

definition total_space :: "jenv \<Rightarrow> jbod \<Rightarrow> int result \<times> jbod" where
  "total_space env j =
     apsnd (\<lambda>ss. j\<lparr>sources := ss\<rparr>) (sum_space (get_total_space (os env)) 0 (sources j))"

definition available_space :: "jenv \<Rightarrow> jbod \<Rightarrow> int result \<times> jbod" where
  "available_space env j =
     apsnd (\<lambda>ss. j\<lparr>sources := ss\<rparr>) (sum_space (get_available_space (os env)) 0 (sources j))"

definition deactivate_source :: "string \<Rightarrow> jbod \<Rightarrow> unit result \<times> jbod" where
  "deactivate_source sid j =
     (case source_index sid j of
       None \<Rightarrow> (Inl ValueError, j)
     | Some i \<Rightarrow> (Inr (), j\<lparr>sources := (sources j)[i := deactivate (sources j ! i)]\<rparr>))"

section \<open>Placement\<close>

lemma last_index_Some: "last_index P xs = Some i \<Longrightarrow> i < length xs \<and> P (xs ! i)"
  by (induction xs arbitrary: i) (auto split: option.splits if_splits)

lemma last_index_None: "last_index P xs = None \<longleftrightarrow> (\<forall>x \<in> set xs. \<not> P x)"
  by (induction xs) (auto split: option.splits)

lemma last_index_map: "last_index (\<lambda>x. P (f x)) xs = last_index P (map f xs)"
  by (induction xs) (auto split: option.splits)

lemma last_index_unique:
  assumes "distinct (map k xs)" and "i < length xs"
  shows "last_index (\<lambda>x. k x = k (xs ! i)) xs = Some i"
proof (cases "last_index (\<lambda>x. k x = k (xs ! i)) xs")
  case None
  then show ?thesis using assms(2) by (auto simp: last_index_None)
next
  case (Some n)
  with last_index_Some [OF Some] assms show ?thesis
    by (metis length_map nth_eq_iff_index_eq nth_map)
qed

lemma source_index_ids:
  "map src_id (sources j') = map src_id (sources j) \<Longrightarrow> source_index sid j' = source_index sid j"
  unfolding source_index_def by (simp add: last_index_map [of "\<lambda>k. k = sid" src_id])

text \<open>The space a source reports, when it reports any.\<close>

definition free_space :: "os_env \<Rightarrow> source \<Rightarrow> int" where
  "free_space e s = (case fst (get_available_space e s) of Inl x \<Rightarrow> -1 | Inr a \<Rightarrow> a)"

lemma available_ok:
  "get_available_space e s = (Inr a, s') \<Longrightarrow> s' = s \<and> free_space e s = a"
  by (auto simp: query_defs free_space_def split: if_splits source_kind.splits option.splits)

lemma select_loop_ok:
  assumes "select_loop e n i best space ss = (Inr r, ss')"
  shows "ss' = ss \<and>
    (r = best \<and> (\<forall>s \<in> set ss. \<not> skipped s \<longrightarrow> free_space e s < n \<or> free_space e s \<le> space) \<or>
     (\<exists>k < length ss. r = Some (i + k) \<and> \<not> skipped (ss ! k) \<and> n \<le> free_space e (ss ! k) \<and>
        space < free_space e (ss ! k) \<and>
        (\<forall>s \<in> set ss. \<not> skipped s \<longrightarrow> free_space e s < n \<or> free_space e s \<le> free_space e (ss ! k))))"
  using assms
proof (induction e n i best space ss arbitrary: ss' rule: select_loop.induct)
  case (2 e n i best space s ss)
  have shift: "\<exists>k < length (s # ss). r = Some (i + k) \<and> Q ((s # ss) ! k)"
    if "k < length ss" "r = Some (Suc i + k)" "Q (ss ! k)" for k Q
    using that by (intro exI [of _ "Suc k"]) auto
  show ?case
  proof (cases "skipped s")
    case True
    with 2(4) obtain t where t: "select_loop e n (Suc i) best space ss = (Inr r, t)" "ss' = s # t"
      by (cases "select_loop e n (Suc i) best space ss") auto
    from 2(1) [OF True t(1)] t(2) True show ?thesis
      by (auto intro!: shift)
  next
    case False
    obtain a where a: "get_available_space e s = (Inr a, s)" "free_space e s = a"
      using 2(4) False available_ok [of e s] by (auto split: prod.splits sum.splits)
    show ?thesis
    proof (cases "n \<le> a \<and> space < a")
      case True
      with 2(4) False a(1) obtain t where t: "select_loop e n (Suc i) (Some i) a ss = (Inr r, t)" "ss' = s # t"
        by (cases "select_loop e n (Suc i) (Some i) a ss") auto
      from 2(2) [OF False a(1) [symmetric] refl True t(1)] t(2) True False a(2) show ?thesis
        by (elim conjE disjE exE) (force intro!: exI [of _ 0], force intro!: shift)
    next
      case no: False
      with 2(4) False a(1) obtain t where t: "select_loop e n (Suc i) best space ss = (Inr r, t)" "ss' = s # t"
        by (cases "select_loop e n (Suc i) best space ss") auto
      from 2(3) [OF False a(1) [symmetric] refl no t(1)] t(2) no False a(2) show ?thesis
        by (elim conjE disjE) (auto intro!: shift)
    qed
  qed
qed simp

lemma select_source_ok:
  assumes "select_source e n j = (Inr i, j')"
  shows "j' = j \<and> i < length (sources j) \<and> \<not> skipped (sources j ! i) \<and>
    n \<le> free_space e (sources j ! i) \<and>
    (\<forall>s \<in> set (sources j). \<not> skipped s \<longrightarrow> free_space e s < n \<or> free_space e s \<le> free_space e (sources j ! i))"
proof -
  from assms obtain ss where "select_loop e n 0 None (-1) (sources j) = (Inr (Some i), ss)"
    and "j' = j\<lparr>sources := ss\<rparr>"
    by (auto simp: select_source_def Let_def split: prod.splits sum.splits option.splits)
  with select_loop_ok [OF this(1)] show ?thesis by auto
qed

section \<open>Recording a write\<close>

lemma begin_ok:
  "begin_transaction m = (Inr (), m') \<Longrightarrow>
    saved m = None \<and> m' = m\<lparr>saved := Some (files m, directories m)\<rparr>"
  by (auto simp: begin_transaction_def split: option.splits)

lemma write_recorded_ok:
  assumes "write_recorded env i p enc f clean err j = (Inr (), j')"
  shows "\<exists>s'. src_write (os env) p enc (sources j ! i) = (Inr (), s') \<and> saved (md j) = None \<and>
    j' = j\<lparr>sources := (sources j)[i := s'],
           md := commit (f ((md j)\<lparr>saved := Some (files (md j), directories (md j))\<rparr>))\<rparr>"
proof -
  obtain m where m: "begin_transaction (md j) = (Inr (), m)"
    using assms by (auto simp: write_recorded_def split: prod.splits sum.splits)
  obtain s' where s': "src_write (os env) p enc (sources j ! i) = (Inr (), s')"
    using assms m
    by (auto simp: write_recorded_def on_source_def set_md_def Let_def apsnd_def map_prod_def
        split: prod.splits sum.splits if_splits)
  from assms m s' begin_ok [OF m] show ?thesis
    by (auto simp: write_recorded_def on_source_def set_md_def)
qed

lemma remove_partial_md [simp]: "md (snd (remove_partial env i p j)) = md j"
  by (simp add: remove_partial_def on_source_def apsnd_def map_prod_def split: sum.split prod.split)

lemma rollback_begin:
  "saved m = None \<Longrightarrow> rollback (m\<lparr>saved := Some (files m, directories m)\<rparr>) = m"
  by (cases m) (simp add: rollback_def)

lemma write_recorded_fail:
  assumes "write_recorded env i p enc f clean err j = (Inl e, j')"
  shows "md j' = md j"
proof (cases "saved (md j)")
  case (Some t)
  with assms show ?thesis by (auto simp: write_recorded_def begin_transaction_def set_md_def)
next
  case None
  then have m: "begin_transaction (md j) =
      (Inr (), (md j)\<lparr>saved := Some (files (md j), directories (md j))\<rparr>)"
    by (simp add: begin_transaction_def)
  obtain r s' where w: "src_write (os env) p enc (sources j ! i) = (r, s')"
    by (cases "src_write (os env) p enc (sources j ! i)")
  let ?j2 = "set_md (md j) (j\<lparr>sources := (sources j)[i := s']\<rparr>)"
  have "\<exists>x. r = Inl x" and "j' = ?j2 \<or> j' = snd (remove_partial env i p ?j2)"
    using assms m w rollback_begin [OF None]
    by (auto simp: write_recorded_def on_source_def set_md_def Let_def
        split: sum.splits if_splits prod.splits)
  then show ?thesis by (auto simp: set_md_def)
qed

section \<open>What is stored where\<close>

text \<open>The file at \<open>vp\<close> is on this device, at path \<open>p\<close> of the active source \<open>i\<close>, with
  content \<open>enc\<close>.\<close>

definition stored :: "jbod \<Rightarrow> string \<Rightarrow> nat \<Rightarrow> string \<Rightarrow> bytes \<Rightarrow> bool" where
  "stored j vp i p enc \<longleftrightarrow> (\<exists>m. lookup vp (md j) = Some m \<and> owned_here j m \<and>
     source_index (source_id m) j = Some i \<and> physical_path m = p \<and> i < length (sources j) \<and>
     src_active (sources j ! i) \<and> content (sources j ! i) p = Some enc)"

definition jbod_ok :: "jbod \<Rightarrow> bool" where
  "jbod_ok j \<longleftrightarrow> paths_distinct (md j) \<and> distinct (map src_id (sources j)) \<and>
     list_all is_local (sources j)"

lemma local_read:
  assumes "is_local s" and "src_active s" and "content s p = Some d" and "fault_free e"
  shows "src_read e p s = (Inr d, s)"
  using assms
  by (auto simp: src_read_def dir_read_def lb_read_def is_local_def is_remote_def content_def
      fault_free_def Let_def split: source_kind.splits)

lemma read_stored:
  assumes "stored j vp i p enc" and "jbod_ok j" and "fault_free (os env)"
  shows "read_file env vp j = (decrypted j (Inr enc), j)"
proof -
  from assms(1) obtain m where m: "lookup vp (md j) = Some m" "owned_here j m"
    "source_index (source_id m) j = Some i" "physical_path m = p" "i < length (sources j)"
    "src_active (sources j ! i)" "content (sources j ! i) p = Some enc"
    by (auto simp: stored_def)
  have "is_local (sources j ! i)"
    using assms(2) m(5) by (simp add: jbod_ok_def list_all_length)
  then have "src_read (os env) p (sources j ! i) = (Inr enc, sources j ! i)"
    using local_read m assms(3) by blast
  with m show ?thesis
    by (simp add: read_file_def read_local_def on_source_def)
qed

lemma write_active:
  assumes "src_write e p d s = (Inr (), s')" and "is_local s"
  shows "src_active s'"
  using assms
  by (auto simp: src_write_def dir_write_def lb_write_def is_local_def is_remote_def put_bytes_def
      Let_def split: source_kind.splits if_splits option.splits)

lemma write_id: "src_write e p d s = (r, s') \<Longrightarrow> src_id s' = src_id s \<and> (is_local s' = is_local s)"
  using src_id_write [of e p d s] is_local_cong [OF src_kind_write, of e p d s] by simp

lemma jbod_ok_written:
  assumes "jbod_ok j" and "src_write e p d (sources j ! i) = (r, s')" and "i < length (sources j)"
    and "paths_distinct m"
  shows "jbod_ok (j\<lparr>sources := (sources j)[i := s'], md := m\<rparr>)"
  using assms write_id [OF assms(2)]
  by (auto simp: jbod_ok_def map_update list_all_length nth_list_update)
    (metis distinct_list_update length_map list_update_id nth_map)

lemma recorded_stored:
  assumes "jbod_ok j" and "i < length (sources j)"
    and w: "src_write e p enc (sources j ! i) = (Inr (), s')"
    and "paths_distinct m" and "row m vp = Some r" and "\<not> deleted r"
    and "device_id r = None \<or> device_id r = dev j"
    and "source_id r = src_id (sources j ! i)" and "physical_path r = p"
  shows "stored (j\<lparr>sources := (sources j)[i := s'], md := m\<rparr>) vp i p enc"
proof -
  let ?j = "j\<lparr>sources := (sources j)[i := s'], md := m\<rparr>"
  have loc: "is_local (sources j ! i)"
    using assms(1,2) by (simp add: jbod_ok_def list_all_length)
  have "lookup vp m = Some (meta_of r)"
    using assms(4-6) by (simp add: lookup_row)
  moreover have "source_index (src_id (sources j ! i)) ?j = Some i"
    using assms(1,2) write_id [OF w]
    by (subst source_index_ids [where j = j])
      (auto simp: source_index_def last_index_unique map_update list_update_same_conv jbod_ok_def)
  moreover have "content s' p = Some enc"
    using src.wr_ok [OF loc w] by simp
  ultimately show ?thesis
    using write_active [OF w loc] assms(2,7-9) by (simp add: stored_def owned_here_def)
qed

lemma recorded:
  assumes "jbod_ok j" and "i < length (sources j)"
    and "write_recorded env i p enc f clean err j = (Inr (), j')"
    and "\<And>m. paths_distinct m \<Longrightarrow> paths_distinct (f m)"
    and "\<And>m. row m = row (md j) \<Longrightarrow> \<exists>r. row (f m) vp = Some r \<and> \<not> deleted r \<and>
      (device_id r = None \<or> device_id r = dev j) \<and>
      source_id r = src_id (sources j ! i) \<and> physical_path r = p"
  shows "stored j' vp i p enc \<and> jbod_ok j' \<and> eng j' = eng j \<and> dev j' = dev j"
proof -
  let ?m = "(md j)\<lparr>saved := Some (files (md j), directories (md j))\<rparr>"
  obtain s' where w: "src_write (os env) p enc (sources j ! i) = (Inr (), s')"
    and j': "j' = j\<lparr>sources := (sources j)[i := s'], md := commit (f ?m)\<rparr>"
    using write_recorded_ok [OF assms(3)] by blast
  have d: "paths_distinct (commit (f ?m))"
    using assms(1,4) by (simp add: jbod_ok_def)
  obtain r where r: "row (commit (f ?m)) vp = Some r" "\<not> deleted r"
    "device_id r = None \<or> device_id r = dev j" "source_id r = src_id (sources j ! i)"
    "physical_path r = p"
    using assms(5) [of ?m] by auto
  show ?thesis
    unfolding j' using recorded_stored [OF assms(1,2) w d r] jbod_ok_written [OF assms(1) w assms(2) d]
    by simp
qed

lemma selected_local:
  "select_source e n j = (Inr i, j') \<Longrightarrow> j' = j \<and> i < length (sources j)"
  using select_source_ok by blast

lemma create_stored:
  assumes "jbod_ok j" and "create_file env vp enc n j = (Inr (), j')"
  shows "\<exists>i. stored j' vp i (generate_physical_path (uuid env) vp) enc \<and> jbod_ok j' \<and>
    eng j' = eng j \<and> dev j' = dev j"
proof -
  obtain i where i: "i < length (sources j)"
    and w: "write_recorded env i (generate_physical_path (uuid env) vp) enc
        (insert_file vp (src_id (sources j ! i)) (generate_physical_path (uuid env) vp) n
          (now env) (now env) (dev j)) True id j = (Inr (), j')"
    using assms(2)
    by (auto simp: create_file_def Let_def split: prod.splits sum.splits dest!: selected_local)
  show ?thesis
    by (rule exI [of _ i], rule recorded [OF assms(1) i w])
      (auto simp: distinct_edits row_insert split: option.split)
qed

lemma takeover_stored:
  assumes "jbod_ok j" and "takeover_write env vp enc n j = (Inr (), j')"
    and "lookup vp (md j) = Some m" and "\<not> owned_here j m" and "dev j \<noteq> None"
  shows "\<exists>i. stored j' vp i (generate_physical_path (uuid env) vp) enc \<and> jbod_ok j' \<and>
    eng j' = eng j \<and> dev j' = dev j"
proof -
  let ?p = "generate_physical_path (uuid env) vp"
  obtain i k where i: "i < length (sources j)"
    and w: "write_recorded env i ?p enc
        (update_file vp n (now env) (dev j) (Some (src_id (sources j ! i))) (Some ?p))
        True space_error j = (Inr (), k)" and j': "j' = k\<lparr>gc_needed := True\<rparr>"
    using assms(2)
    by (auto simp: takeover_write_def Let_def split: prod.splits sum.splits dest!: selected_local)
  obtain r where r: "row (md j) vp = Some r" "\<not> deleted r"
    using assms(1,3) by (auto simp: jbod_ok_def lookup_row split: option.splits if_splits)
  have "stored k vp i ?p enc \<and> jbod_ok k \<and> eng k = eng j \<and> dev k = dev j"
    by (rule recorded [OF assms(1) i w])
      (use r assms(5) in \<open>auto simp: distinct_edits row_update split: option.split\<close>)
  then show ?thesis
    by (auto simp: j' stored_def jbod_ok_def owned_here_def source_index_def)
qed

lemma overwrite_stored:
  assumes "jbod_ok j" and "overwrite_file env vp m enc n j = (Inr (), j')"
    and "lookup vp (md j) = Some m" and "owned_here j m"
  shows "\<exists>i. stored j' vp i (physical_path m) enc \<and> jbod_ok j' \<and> eng j' = eng j \<and> dev j' = dev j"
proof -
  obtain i where si: "source_index (source_id m) j = Some i"
    and w: "write_recorded env i (physical_path m) enc (update_file vp n (now env) (dev j) None None)
        False space_error j = (Inr (), j')"
    using assms(2) by (auto simp: overwrite_file_def split: option.splits if_splits)
  have i: "i < length (sources j)" "src_id (sources j ! i) = source_id m"
    using last_index_Some si by (fastforce simp: source_index_def)+
  obtain r where r: "row (md j) vp = Some r" "\<not> deleted r" "m = meta_of r"
    using assms(1,3) by (auto simp: jbod_ok_def lookup_row split: option.splits if_splits)
  show ?thesis
    by (rule exI [of _ i], rule recorded [OF assms(1) i(1) w])
      (use r i(2) assms(4) in \<open>auto simp: distinct_edits row_update owned_here_def split: option.split\<close>)
qed

lemma write_stored:
  assumes "jbod_ok j" and "write_file env vp data j = (Inr (), j')"
    and "dev j \<noteq> None \<or> (\<forall>m. lookup vp (md j) = Some m \<longrightarrow> owned_here j m)"
  shows "\<exists>i p. stored j' vp i p (sealed env j data) \<and> jbod_ok j' \<and> eng j' = eng j \<and> dev j' = dev j"
proof (cases "lookup vp (md j)")
  case None
  with assms(2) create_stored [OF assms(1)] show ?thesis
    by (fastforce simp: write_file_def Let_def)
next
  case (Some m)
  show ?thesis
  proof (cases "owned_here j m")
    case True
    with Some assms(2) overwrite_stored [OF assms(1) _ Some True] show ?thesis
      by (fastforce simp: write_file_def Let_def)
  next
    case False
    with Some assms(2,3) takeover_stored [OF assms(1) _ Some False] show ?thesis
      by (fastforce simp: write_file_def Let_def)
  qed
qed

text \<open>The engine undoes what it did when the file was written.\<close>

definition engine_ok :: "jenv \<Rightarrow> jbod \<Rightarrow> bool" where
  "engine_ok env j \<longleftrightarrow>
     (case eng j of None \<Rightarrow> True | Some g \<Rightarrow> aead (eng_crypto g) \<and> length (rnd_iv env) = 16)"

lemma decrypted_sealed:
  "engine_ok env j \<Longrightarrow> eng j' = eng j \<Longrightarrow> decrypted j' (Inr (sealed env j data)) = Inr data"
  using aes.open_seal by (auto simp: decrypted_def sealed_def engine_ok_def split: option.splits)

section \<open>Frames\<close>

text \<open>No two live records of this device share a physical file.\<close>

definition unshared :: "jbod \<Rightarrow> bool" where
  "unshared j \<longleftrightarrow> (\<forall>a m b n. lookup a (md j) = Some m \<and> lookup b (md j) = Some n \<and>
     owned_here j m \<and> owned_here j n \<and> source_id m = source_id n \<and>
     physical_path m = physical_path n \<longrightarrow> a = b)"

text \<open>The generated name is new: no record has it.\<close>

definition fresh_path :: "jenv \<Rightarrow> string \<Rightarrow> jbod \<Rightarrow> bool" where
  "fresh_path env vp j \<longleftrightarrow>
     (\<forall>q m. lookup q (md j) = Some m \<longrightarrow> physical_path m \<noteq> generate_physical_path (uuid env) vp)"

lemma lookup_cong:
  "paths_distinct s \<Longrightarrow> paths_distinct t \<Longrightarrow> row s q = row t q \<Longrightarrow> lookup q s = lookup q t"
  by (simp add: lookup_row)

lemma source_index_Some: "source_index a j = Some i \<Longrightarrow> i < length (sources j) \<and> src_id (sources j ! i) = a"
  unfolding source_index_def by (drule last_index_Some) simp

lemma source_inj: "source_index a j = Some i \<Longrightarrow> source_index b j = Some i \<Longrightarrow> a = b"
  by (auto dest!: source_index_Some)

lemma recorded_frame:
  assumes "jbod_ok j" and "i < length (sources j)"
    and "write_recorded env i p enc f clean err j = (Inr (), j')"
    and "\<And>m. paths_distinct m \<Longrightarrow> paths_distinct (f m)" and "\<And>m. row (f m) q = row m q"
    and st: "stored j q i' p' e'" and "(i, p) \<noteq> (i', p')"
  shows "stored j' q i' p' e'"
proof -
  let ?m = "(md j)\<lparr>saved := Some (files (md j), directories (md j))\<rparr>"
  obtain s' where w: "src_write (os env) p enc (sources j ! i) = (Inr (), s')"
    and j': "j' = j\<lparr>sources := (sources j)[i := s'], md := commit (f ?m)\<rparr>"
    using write_recorded_ok [OF assms(3)] by blast
  have loc: "is_local (sources j ! i)"
    using assms(1,2) by (simp add: jbod_ok_def list_all_length)
  have "lookup q (commit (f ?m)) = lookup q (md j)"
    using assms(1,4,5) by (intro lookup_cong) (simp_all add: jbod_ok_def)
  moreover have "source_index sid j' = source_index sid j" for sid
    unfolding j' using write_id [OF w] assms(2)
    by (intro source_index_ids) (auto simp: map_update list_update_same_conv)
  moreover have "content s' x = content (sources j ! i) x" if "x \<noteq> p" for x
    using src.wr_frame [OF loc that] w by (metis snd_conv)
  ultimately show ?thesis
    using st assms(2,7) write_active [OF w loc]
    by (auto simp: stored_def j' owned_here_def nth_list_update)
qed

lemma stored_unique:
  assumes "jbod_ok j" and "unshared j" and "stored j q i p e" and "lookup vp (md j) = Some m"
    and "owned_here j m" and "source_index (source_id m) j = Some i" and "physical_path m = p"
  shows "vp = q"
proof -
  from assms(3) obtain n where n: "lookup q (md j) = Some n" "owned_here j n"
    "source_index (source_id n) j = Some i" "physical_path n = p"
    by (auto simp: stored_def)
  with assms(6) have "source_id m = source_id n" by (auto dest: source_inj)
  with n assms(2,4,5,7) show ?thesis unfolding unshared_def by metis
qed

lemma write_frame:
  assumes ok: "jbod_ok j" and "unshared j" and "fresh_path env vp j" and "q \<noteq> vp"
    and st: "stored j q i' p' e'" and w: "write_file env vp data j = (Inr (), j')"
  shows "stored j' q i' p' e'"
proof -
  let ?p = "generate_physical_path (uuid env) vp"
  have new: "p' \<noteq> ?p"
    using assms(3) st by (auto simp: fresh_path_def stored_def)
  show ?thesis
  proof (cases "lookup vp (md j)")
    case None
    then obtain i where i: "i < length (sources j)"
      and w: "write_recorded env i ?p (sealed env j data)
        (insert_file vp (src_id (sources j ! i)) ?p (int (length data)) (now env) (now env) (dev j))
        True id j = (Inr (), j')"
      using w by (auto simp: write_file_def create_file_def Let_def
          split: prod.splits sum.splits dest!: selected_local)
    show ?thesis
      by (rule recorded_frame [OF ok i w _ _ st]) (use assms(4) new in \<open>auto simp: distinct_edits row_insert\<close>)
  next
    case (Some m)
    show ?thesis
    proof (cases "owned_here j m")
      case False
      then obtain i k where i: "i < length (sources j)"
        and w: "write_recorded env i ?p (sealed env j data) (update_file vp (int (length data)) (now env)
          (dev j) (Some (src_id (sources j ! i))) (Some ?p)) True space_error j = (Inr (), k)"
        and j': "j' = k\<lparr>gc_needed := True\<rparr>"
        using w Some by (auto simp: write_file_def takeover_write_def Let_def
            split: prod.splits sum.splits dest!: selected_local)
      have "stored k q i' p' e'"
        by (rule recorded_frame [OF ok i w _ _ st]) (use assms(4) new in \<open>auto simp: distinct_edits row_update\<close>)
      then show ?thesis by (auto simp: j' stored_def owned_here_def source_index_def)
    next
      case True
      then obtain i where si: "source_index (source_id m) j = Some i"
        and w: "write_recorded env i (physical_path m) (sealed env j data)
          (update_file vp (int (length data)) (now env) (dev j) None None) False space_error j = (Inr (), j')"
        using w Some by (auto simp: write_file_def overwrite_file_def Let_def
            split: option.splits if_splits)
      then have i: "i < length (sources j)"
        using last_index_Some by (fastforce simp: source_index_def)
      show ?thesis
        by (rule recorded_frame [OF ok i w _ _ st])
          (use assms(4) stored_unique [OF ok assms(2) st Some True] si in
            \<open>auto simp: distinct_edits row_update\<close>)
    qed
  qed
qed

lemma select_source_md: "select_source e n j = (r, k) \<Longrightarrow> md k = md j"
  by (auto simp: select_source_def Let_def split: prod.splits sum.splits option.splits)

lemma write_failed_md:
  "write_file env vp data j = (Inl e, j') \<Longrightarrow> md j' = md j"
  by (auto simp: write_file_def takeover_write_def overwrite_file_def create_file_def Let_def
      split: option.splits if_splits prod.splits sum.splits
      dest!: select_source_md write_recorded_fail)

section \<open>Orphan collection, abstractly\<close>

definition protected_name :: "(string \<times> string) list \<Rightarrow> string \<Rightarrow> string \<Rightarrow> bool" where
  "protected_name live sid q \<longleftrightarrow> \<not> managed_name q \<or> (sid, q) \<in> set live"

lemma gc_names_id [simp]: "src_id (snd (gc_names e live ns k s)) = src_id s"
proof (induction e live ns k s rule: gc_names.induct)
  case (2 e live n ns k s)
  obtain r s' where r: "src_delete e n s = (r, s')" by (cases "src_delete e n s")
  then have "src_id s' = src_id s" using src_id_delete [of e n s] by simp
  then show ?case
    using 2(1) 2(2) [OF _ r [symmetric]] 2(3) [OF _ r [symmetric]] r by (cases r) auto
qed simp

lemma gc_names_content:
  assumes "is_local s" and "protected_name live (src_id s) q \<or> q \<notin> set ns"
  shows "content (snd (gc_names e live ns k s)) q = content s q"
  using assms
proof (induction e live ns k s rule: gc_names.induct)
  case (2 e live n ns k s)
  have del: "src_id s' = src_id s" "is_local s'" "q \<noteq> n \<Longrightarrow> content s' q = content s q"
    if "src_delete e n s = (r, s')" for r s'
    using src_id_delete [of e n s] src.inv_rm [OF 2(4), of e n] src.rm_frame [OF 2(4), of q n e] that
    by simp_all
  show ?case
  proof (cases "protected_name live (src_id s) n")
    case True
    then show ?thesis using 2(1,4,5) by (auto simp: protected_name_def)
  next
    case False
    obtain r s' where r: "src_delete e n s = (r, s')" by (cases "src_delete e n s")
    have "q \<noteq> n" using 2(5) False by auto
    then show ?thesis
      using 2(2,3,4,5) False r del [OF r]
      by (cases r) (auto simp: protected_name_def)
  qed
qed simp

definition gc_keeps :: "(string \<times> string) list \<Rightarrow> source \<Rightarrow> source \<Rightarrow> bool" where
  "gc_keeps live s t \<longleftrightarrow> src_id t = src_id s \<and>
     (\<forall>q. protected_name live (src_id s) q \<or> CHR ''/'' \<in> set q \<longrightarrow> content t q = content s q)"

lemma gc_keeps_refl [simp]: "gc_keeps live s s"
  by (simp add: gc_keeps_def)

lemma listed_flat: "list_physical_files e s = Inr ns \<Longrightarrow> q \<in> set ns \<Longrightarrow> CHR ''/'' \<notin> set q"
  by (auto simp: query_defs split: if_splits source_kind.splits option.splits)

lemma gc_sources_keeps:
  "list_all is_local ss \<Longrightarrow> list_all2 (gc_keeps live) ss (snd (gc_sources e live k ss))"
proof (induction e live k ss rule: gc_sources.induct)
  case (2 e live k s ss)
  have "gc_keeps live s (snd (gc_names e live ns k s))" if "list_physical_files e s = Inr ns" for ns
    using gc_names_content [of s live _ ns e k] 2(4) listed_flat [OF that]
    by (auto simp: gc_keeps_def)
  with 2 show ?case
    by (auto simp: Let_def split: sum.split prod.split)
qed simp

lemma gc_content:
  assumes "jbod_ok j" and "i < length (sources j)" and "dev j = Some d"
    and "(src_id (sources j ! i), q) \<in> set (live_physical_paths_for_device d (md j)) \<or>
      \<not> managed_name q \<or> CHR ''/'' \<in> set q"
  shows "content (sources (snd (gc_orphan_files env j)) ! i) q = content (sources j ! i) q"
  using gc_sources_keeps [of "sources j" "live_physical_paths_for_device d (md j)" "os env" 0] assms
  by (auto simp: gc_orphan_files_def list_all2_conv_all_nth gc_keeps_def protected_name_def jbod_ok_def)

section \<open>Deleting and moving\<close>

lemma on_source_parts:
  assumes "on_source i f j = (r, k)"
  shows "k = j\<lparr>sources := (sources j)[i := snd (f (sources j ! i))]\<rparr> \<and> r = fst (f (sources j ! i))"
  using assms by (auto simp: on_source_def apsnd_def map_prod_def split: prod.splits)

text \<open>The source from which \<open>delete_file\<close> removes the physical file, if any.\<close>

definition physical_index :: "jbod \<Rightarrow> file_meta \<Rightarrow> nat option" where
  "physical_index j m = (case source_index (source_id m) j of
     None \<Rightarrow> None
   | Some i \<Rightarrow> if owned_here j m \<and> src_active (sources j ! i) then Some i else None)"

lemma delete_file_ok:
  assumes "delete_file env vp j = (Inr (), j')" and "lookup vp (md j) = Some m"
  shows "j' = j\<lparr>sources := (case physical_index j m of None \<Rightarrow> sources j
       | Some i \<Rightarrow> (sources j)[i := snd (src_delete (os env) (physical_path m) (sources j ! i))]),
     md := delete_file_row vp (now env) (md j)\<rparr> \<and>
    (\<forall>i. physical_index j m = Some i \<longrightarrow>
       fst (src_delete (os env) (physical_path m) (sources j ! i)) \<in> {Inr (), Inl FileNotFoundError})"
proof (cases "physical_index j m")
  case None
  then have "j' = set_md (delete_file_row vp (now env) (md j)) j"
    using assms
    by (auto simp: delete_file_def physical_index_def Let_def split: option.splits if_splits)
  with None show ?thesis by (simp add: set_md_def)
next
  case (Some i)
  then have i: "owned_here j m" "source_index (source_id m) j = Some i" "src_active (sources j ! i)"
    by (auto simp: physical_index_def split: option.splits if_splits)
  obtain r k where rk: "on_source i (src_delete (os env) (physical_path m)) j = (r, k)"
    by (cases "on_source i (src_delete (os env) (physical_path m)) j")
  have "r = Inr () \<or> r = Inl FileNotFoundError"
    and "j' = set_md (delete_file_row vp (now env) (md k)) k"
    using assms i rk by (auto simp: delete_file_def Let_def split: sum.splits if_splits)
  with on_source_parts [OF rk] Some show ?thesis by (auto simp: set_md_def)
qed

lemma local_delete_gone:
  assumes "is_local s" and "src_active s"
    and "fst (src_delete e p s) \<in> {Inr (), Inl FileNotFoundError}"
    and "delete_fault e (src_id s) p = None"
  shows "content (snd (src_delete e p s)) p = None"
  using assms
  by (auto simp: src_delete_def dir_delete_def lb_delete_def is_local_def is_remote_def content_def
      isfile_def fault_exn_def Let_def split: source_kind.splits option.splits if_splits fault.splits)

lemma delete_file_gone:
  assumes "jbod_ok j" and "delete_file env vp j = (Inr (), j')" and "fault_free (os env)"
  shows "lookup vp (md j') = None \<and> (stored j vp i p e \<longrightarrow> content (sources j' ! i) p = None)"
proof -
  obtain m where m: "lookup vp (md j) = Some m"
    using assms(2) by (auto simp: delete_file_def split: option.splits)
  note j' = delete_file_ok [OF assms(2) m]
  obtain r where r: "row (md j) vp = Some r"
    using assms(1) m by (auto simp: jbod_ok_def lookup_row split: option.splits)
  have "lookup vp (md j') = None"
    using assms(1) r j' by (simp add: jbod_ok_def lookup_row distinct_edits row_delete)
  moreover have "content (sources j' ! i) p = None" if st: "stored j vp i p e"
  proof -
    from st m have i: "physical_index j m = Some i" "physical_path m = p"
      "i < length (sources j)" "src_active (sources j ! i)"
      by (auto simp: stored_def physical_index_def)
    have "is_local (sources j ! i)"
      using assms(1) i(3) by (simp add: jbod_ok_def list_all_length)
    then have "content (snd (src_delete (os env) p (sources j ! i))) p = None"
      using local_delete_gone i j' assms(3) by (auto simp: fault_free_def)
    then show ?thesis using i j' by simp
  qed
  ultimately show ?thesis by blast
qed

lemma move_stored:
  assumes "jbod_ok j" and "move_file a b j = (Inr (), j')" and "a \<noteq> b" and "stored j a i p e"
  shows "stored j' b i p e \<and> lookup a (md j') = None \<and> jbod_ok j'"
proof -
  obtain m where m: "lookup a (md j) = Some m" "owned_here j m" "source_index (source_id m) j = Some i"
    "physical_path m = p" "i < length (sources j)" "src_active (sources j ! i)"
    "content (sources j ! i) p = Some e"
    using assms(4) by (auto simp: stored_def)
  have d: "paths_distinct (md j)" using assms(1) by (simp add: jbod_ok_def)
  obtain t where t: "rename_path a b (md j) = (Inr (), t)" and j': "j' = set_md t j"
    using assms(2) m(1) by (cases "rename_path a b (md j)") (auto simp: move_file_def)
  obtain r where r: "row (md j) a = Some r" "\<not> deleted r" "m = meta_of r"
    using m(1) lookup_row [OF d] by (auto split: option.splits if_splits)
  have dt: "paths_distinct t" using tbl.inv_ren [OF d, of a b] t by simp
  have "row t = (row (md j))(a := None, b \<mapsto> r\<lparr>virtual_path := b\<rparr>)"
    using tbl.ren_get [OF d t assms(3) r(1)] .
  then have "lookup b t = Some (meta_of (r\<lparr>virtual_path := b\<rparr>))" "lookup a t = None"
    using r(2) assms(3) by (simp_all add: lookup_row [OF dt])
  then show ?thesis
    using m r(3) dt assms(1)
    by (auto simp: j' set_md_def stored_def owned_here_def source_index_def jbod_ok_def)
qed

lemma failed_move:
  assumes "jbod_ok j" and "lookup a (md j) = Some m" and "a \<noteq> b" and "row (md j) b = Some t"
  shows "move_file a b j = (Inl SqlIntegrityError, set_md (implicit_begin (md j)) j)"
proof -
  have "row (md j) a \<noteq> None"
    using assms(1,2) by (auto simp: jbod_ok_def lookup_row split: option.splits)
  then show ?thesis
    using assms rename_path_cases [of "md j" a b] by (simp add: move_file_def jbod_ok_def)
qed

lemma begin_after_failed: "begin_transaction (implicit_begin m) = (Inl SqlOperationalError, implicit_begin m)"
  by (simp add: begin_transaction_def implicit_begin_def split: option.split)

section \<open>The recursion of delete\_directory\<close>

definition clean_path :: "string \<Rightarrow> bool" where
  "clean_path q \<longleftrightarrow> CHR ''%'' \<notin> set q \<and> \<not> sublist ''//'' q"

lemma hd_split_on: "hd (split_on c s) = takeWhile (\<lambda>x. x \<noteq> c) s"
proof (induction s)
  case (Cons x s)
  then show ?case by (cases "split_on c s") auto
qed simp

lemma rstrip_subset: "set (rstrip c s) \<subseteq> set s"
  unfolding rstrip_def using set_dropWhileD by fastforce

lemma rstrip_length: "length (rstrip c s) \<le> length s"
  unfolding rstrip_def using length_dropWhile_le [of _ "rev s"] by simp

lemma rstrip_nonempty: "s \<noteq> [] \<Longrightarrow> hd s \<noteq> c \<Longrightarrow> rstrip c s \<noteq> []"
  by (cases s) (auto simp: rstrip_def)

lemma dir_prefix_last: "\<exists>x. dir_prefix p = x @ ''/''"
  by (auto simp: dir_prefix_def suffix_def)

lemma after_prefix:
  assumes "CHR ''%'' \<notin> set vp" and "like_prefix (dir_prefix vp) q" and "clean_path q"
    and "drop (length (dir_prefix vp)) q \<noteq> []"
  shows "hd (drop (length (dir_prefix vp)) q) \<noteq> CHR ''/''"
proof
  assume h: "hd (drop (length (dir_prefix vp)) q) = CHR ''/''"
  obtain x where x: "dir_prefix vp = x @ ''/''" using dir_prefix_last by blast
  have "CHR ''%'' \<notin> set (dir_prefix vp)" using assms(1) by (simp add: dir_prefix_def)
  then have "length x < length q" "q ! length x = CHR ''/''"
    using like_positions [OF _ assms(2)] by (auto simp: x)
  then have "drop (length x) q = CHR ''/'' # drop (length (dir_prefix vp)) q"
    by (simp add: x Cons_nth_drop_Suc [symmetric])
  then have "drop (length x) q = ''//'' @ tl (drop (length (dir_prefix vp)) q)"
    using assms(4) h by (cases "drop (length (dir_prefix vp)) q") auto
  then have "q = take (length x) q @ ''//'' @ tl (drop (length (dir_prefix vp)) q)"
    using append_take_drop_id [of "length x" q] by simp
  then show False using assms(3) unfolding clean_path_def sublist_def by blast
qed

lemma listed_directory_name:
  assumes "e \<in> set (list_entries vp m)" and "ei_is_directory e" and "CHR ''%'' \<notin> set vp"
    and "\<forall>q \<in> visible_paths m. clean_path q"
  shows "ei_name e \<noteq> [] \<and> CHR ''/'' \<notin> set (ei_name e) \<and> CHR ''%'' \<notin> set (ei_name e) \<and>
    (\<exists>q \<in> visible_paths m. length (dir_prefix vp) + length (ei_name e) \<le> length q)"
proof -
  obtain q where q: "q \<in> visible_paths m" "like_prefix (dir_prefix vp) q"
    and ne: "drop (length (dir_prefix vp)) q \<noteq> []"
    and nm: "CHR ''/'' \<in> set (drop (length (dir_prefix vp)) q) \<and>
        ei_name e = hd (split_on CHR ''/'' (drop (length (dir_prefix vp)) q)) \<or>
      CHR ''/'' \<notin> set (rstrip CHR ''/'' (drop (length (dir_prefix vp)) q)) \<and>
        ei_name e = rstrip CHR ''/'' (drop (length (dir_prefix vp)) q)"
    using listed_directory_origin [OF assms(1)] assms(2) by (auto simp: dir_origin_def Let_def)
  let ?rel = "drop (length (dir_prefix vp)) q"
  have clean: "clean_path q" using assms(4) q(1) by blast
  have h: "hd ?rel \<noteq> CHR ''/''" using after_prefix [OF assms(3) q(2) clean ne] .
  have "ei_name e \<noteq> [] \<and> CHR ''/'' \<notin> set (ei_name e) \<and> set (ei_name e) \<subseteq> set ?rel \<and>
      length (ei_name e) \<le> length ?rel"
    using nm
  proof
    assume "CHR ''/'' \<in> set ?rel \<and> ei_name e = hd (split_on CHR ''/'' ?rel)"
    then have n: "ei_name e = takeWhile (\<lambda>x. x \<noteq> CHR ''/'') ?rel"
      by (simp add: hd_split_on)
    have "takeWhile (\<lambda>x. x \<noteq> c) r \<noteq> [] \<and> c \<notin> set (takeWhile (\<lambda>x. x \<noteq> c) r) \<and>
        set (takeWhile (\<lambda>x. x \<noteq> c) r) \<subseteq> set r \<and> length (takeWhile (\<lambda>x. x \<noteq> c) r) \<le> length r"
      if "r \<noteq> []" "hd r \<noteq> c" for r and c :: char
      using that length_takeWhile_le [of "\<lambda>x. x \<noteq> c" r] by (cases r) (auto dest: set_takeWhileD)
    from this [OF ne h] show ?thesis unfolding n .
  next
    assume "CHR ''/'' \<notin> set (rstrip CHR ''/'' ?rel) \<and> ei_name e = rstrip CHR ''/'' ?rel"
    then show ?thesis
      using ne h rstrip_subset [of "CHR ''/''" ?rel] rstrip_length [of "CHR ''/''" ?rel] rstrip_nonempty [of ?rel]
      by auto
  qed
  moreover have "CHR ''%'' \<notin> set ?rel"
    using clean set_drop_subset [of "length (dir_prefix vp)" q] by (auto simp: clean_path_def)
  moreover have "length ?rel = length q - length (dir_prefix vp)" "length (dir_prefix vp) \<le> length q"
    using ne by auto
  ultimately show ?thesis using q(1) by (intro conjI bexI [of _ q]) auto
qed

lemma child_prefix:
  assumes "n \<noteq> []" and "CHR ''/'' \<notin> set n"
  shows "dir_prefix (child_path vp n) = rstrip CHR ''/'' (child_path vp n) @ ''/''"
    and "rstrip CHR ''/'' (child_path vp n) = child_path vp n"
proof -
  have "\<not> suffix ''/'' (child_path vp n)"
    using assms by (cases n rule: rev_cases) (auto simp: child_path_def suffix_def)
  then show "rstrip CHR ''/'' (child_path vp n) = child_path vp n"
    and "dir_prefix (child_path vp n) = rstrip CHR ''/'' (child_path vp n) @ ''/''"
    using rstrip_plain by (auto simp: dir_prefix_def)
qed

text \<open>What deleting never does: turn a source remote, or make a path visible.\<close>

definition shrinks :: "jbod \<Rightarrow> jbod \<Rightarrow> bool" where
  "shrinks j k \<longleftrightarrow> (list_all is_local (sources j) \<longrightarrow> list_all is_local (sources k)) \<and>
     visible_paths (md k) \<subseteq> visible_paths (md j)"

lemma shrinks_refl [simp]: "shrinks j j"
  by (simp add: shrinks_def)

lemma shrinks_trans: "shrinks j k \<Longrightarrow> shrinks k l \<Longrightarrow> shrinks j l"
  by (auto simp: shrinks_def)

lemma each_shrinks:
  assumes "\<And>x k. x \<in> set xs \<Longrightarrow> shrinks k (snd (f x k))"
  shows "shrinks j (snd (each f xs j))"
  using assms
proof (induction xs arbitrary: j)
  case (Cons x xs)
  obtain r k where rk: "f x j = (r, k)" by (cases "f x j")
  have "shrinks j k" using Cons.prems [of x j] rk by simp
  moreover have "shrinks k (snd (each f xs k))" using Cons by simp
  ultimately show ?case using rk by (auto split: sum.split intro: shrinks_trans)
qed simp

lemma on_source_local:
  assumes "\<And>s. is_local s \<Longrightarrow> is_local (snd (f s))"
  shows "list_all is_local (sources j) \<Longrightarrow> list_all is_local (sources (snd (on_source i f j)))"
  using assms by (auto simp: on_source_def list_all_length)
    (metis nth_list_update_eq nth_list_update_neq)

lemma visible_cong: "files s = files t \<Longrightarrow> directories s = directories t \<Longrightarrow> visible_paths s = visible_paths t"
  by (simp add: visible_paths_def)

lemma delete_file_shrinks: "shrinks j (snd (delete_file env vp j))"
proof -
  have tomb: "shrinks j (set_md (delete_file_row vp (now env) (md k)) k)" if "shrinks j k" for k
    using that visible_delete_row by (fastforce simp: shrinks_def set_md_def)
  have del: "shrinks j k" if "on_source i (src_delete e p) j = (r, k)" for i e p r k
    using on_source_local [of "src_delete e p" j i] src.inv_rm on_source_parts [OF that] that
    by (auto simp: shrinks_def)
  show ?thesis
    by (auto simp: delete_file_def Let_def intro: tomb del split: option.split sum.split prod.split)
qed

lemma each_local_shrinks:
  "(\<And>s. is_local s \<Longrightarrow> is_local (f s)) \<Longrightarrow> shrinks j (each_local f j)"
  by (auto simp: shrinks_def each_local_def list_all_iff)

lemma rmdir_local: "is_local s \<Longrightarrow> is_local (snd (src_rmdir e p s))"
  by (auto simp: is_local_def is_remote_def src_rmdir_def dir_rmdir_def lb_rmdir_def deactivate_def
      rmtree_def Let_def split: source_kind.splits option.split)

lemma delete_directory_shrinks: "shrinks j (snd (delete_directory depth env vp j))"
proof (induction depth arbitrary: vp j)
  case (Suc depth)
  let ?f = "\<lambda>e k. if ei_is_directory e then delete_directory depth env (child_path vp (ei_name e)) k
      else (case delete_file env (child_path vp (ei_name e)) k of
        (Inl x, k') \<Rightarrow> (if x = FileNotFoundError then Inr () else Inl x, k') | (Inr _, k') \<Rightarrow> (Inr (), k'))"
  have "shrinks k (snd (?f e k))" for e k
    using Suc delete_file_shrinks [of k env "child_path vp (ei_name e)"]
    by (auto split: prod.split sum.split)
  then have loop: "shrinks j (snd (each ?f (list_entries vp (md j)) j))"
    by (intro each_shrinks)
  have fin: "shrinks k (set_md (delete_directory_entry (rstrip CHR ''/'' vp) (md k')) k')"
    if "k' = each_local (\<lambda>s. snd (src_rmdir (os env) p s)) k" for k k' p
    using each_local_shrinks [of "\<lambda>s. snd (src_rmdir (os env) p s)" k] rmdir_local visible_delete_dir that
    by (fastforce simp: shrinks_def set_md_def)
  obtain r k where rk: "each ?f (list_entries vp (md j)) j = (r, k)"
    by (cases "each ?f (list_entries vp (md j)) j")
  have "shrinks j k" using loop rk by simp
  then show ?case
    using rk fin shrinks_trans by (cases r) (auto simp: Let_def)
qed simp

lemma each_result:
  assumes "\<And>x k. x \<in> set xs \<Longrightarrow> P k \<Longrightarrow> P (snd (f x k)) \<and> fst (f x k) \<noteq> Inl e" and "P j"
  shows "fst (each f xs j) \<noteq> Inl e"
  using assms
proof (induction xs arbitrary: j)
  case (Cons x xs)
  obtain r k where rk: "f x j = (r, k)" by (cases "f x j")
  have "P k \<and> r \<noteq> Inl e" using Cons.prems(1) [of x j] Cons.prems(2) rk by simp
  then show ?case using Cons rk by (auto split: sum.split)
qed simp

lemma delete_file_no_recursion:
  assumes "list_all is_local (sources j)"
  shows "fst (delete_file env vp j) \<noteq> Inl RecursionError"
proof -
  have "fst (src_delete e p s) \<noteq> Inl RecursionError" if "is_local s" for e p s
    using that
    by (auto simp: src_delete_def dir_delete_def lb_delete_def is_local_def is_remote_def fault_exn_def
        Let_def split: source_kind.splits option.split fault.split)
  then have "on_source i (src_delete (os env) p) j \<noteq> (Inl RecursionError, k)"
    if "source_index sid j = Some i" for i p k sid
    using assms on_source_parts [of i "src_delete (os env) p" j] source_index_Some [OF that]
    by (metis list_all_length)
  then show ?thesis
    by (auto simp: delete_file_def Let_def dest: source_index_Some split: option.split sum.split prod.split)
qed

lemma delete_directory_depth:
  assumes "list_all is_local (sources j)" and "\<forall>q \<in> visible_paths (md j). clean_path q"
    and "CHR ''%'' \<notin> set vp" and "dir_prefix vp = rstrip CHR ''/'' vp @ ''/''"
    and "\<forall>q \<in> visible_paths (md j). length q \<le> length (dir_prefix vp) + n"
  shows "fst (delete_directory (Suc n) env vp j) \<noteq> Inl RecursionError"
  using assms
proof (induction n arbitrary: vp j rule: nat_less_induct)
  case (1 n)
  let ?f = "\<lambda>e k. if ei_is_directory e then delete_directory n env (child_path vp (ei_name e)) k
      else (case delete_file env (child_path vp (ei_name e)) k of
        (Inl x, k') \<Rightarrow> (if x = FileNotFoundError then Inr () else Inl x, k') | (Inr _, k') \<Rightarrow> (Inr (), k'))"
  have step: "shrinks j (snd (?f e k)) \<and> fst (?f e k) \<noteq> Inl RecursionError"
    if e: "e \<in> set (list_entries vp (md j))" and k: "shrinks j k" for e k
  proof -
    let ?c = "child_path vp (ei_name e)"
    have loc: "list_all is_local (sources k)" and vis: "visible_paths (md k) \<subseteq> visible_paths (md j)"
      using k 1(2) by (auto simp: shrinks_def)
    have "shrinks k (snd (?f e k))"
      using delete_directory_shrinks [of k n env ?c] delete_file_shrinks [of k env ?c]
      by (auto split: prod.split sum.split)
    then have "shrinks j (snd (?f e k))" using k shrinks_trans by blast
    moreover have "fst (?f e k) \<noteq> Inl RecursionError"
    proof (cases "ei_is_directory e")
      case True
      obtain q where nm: "ei_name e \<noteq> []" "CHR ''/'' \<notin> set (ei_name e)" "CHR ''%'' \<notin> set (ei_name e)"
        and q: "q \<in> visible_paths (md j)" "length (dir_prefix vp) + length (ei_name e) \<le> length q"
        using listed_directory_name [OF e True 1(4,3)] by blast
      have len: "length (dir_prefix ?c) = length (dir_prefix vp) + length (ei_name e) + 1"
        using child_prefix [OF nm(1,2)] 1(5) by (simp add: child_path_def)
      have "length (ei_name e) > 0" using nm(1) by simp
      then obtain n' where n': "n = Suc n'"
        using q 1(6) by (metis add_0_right add_le_cancel_left le_trans less_le_not_le not0_implies_Suc)
      have "\<forall>q \<in> visible_paths (md k). length q \<le> length (dir_prefix ?c) + n'"
        using vis 1(6) len n' by fastforce
      moreover have "CHR ''%'' \<notin> set ?c"
        using nm(3) 1(4) rstrip_subset [of "CHR ''/''" vp] by (auto simp: child_path_def)
      moreover have "\<forall>q \<in> visible_paths (md k). clean_path q" using vis 1(3) by blast
      ultimately have "fst (delete_directory (Suc n') env ?c k) \<noteq> Inl RecursionError"
        using 1(1) n' loc child_prefix(1) [OF nm(1,2)] by blast
      with True n' show ?thesis by simp
    next
      case False
      then show ?thesis
        using delete_file_no_recursion [OF loc, of env ?c]
        by (auto split: prod.splits sum.splits)
    qed
    ultimately show ?thesis by blast
  qed
  have "fst (each ?f (list_entries vp (md j)) j) \<noteq> Inl RecursionError"
    by (rule each_result [where P = "shrinks j"]) (use step in auto)
  then show ?case by (auto simp: Let_def split: prod.split sum.split)
qed

section \<open>A small volume for the examples\<close>

definition sample_env :: jenv where
  "sample_env = \<lparr>os = calm_env, now = 7, uuid = ''0123456789abcdef0123456789abcdef'',
     rnd_iv = replicate 16 3, refreshes = \<lambda>d. False\<rparr>"

definition sample_source :: source where
  "sample_source = \<lparr>src_id = ''s'', src_kind = Directory, src_active = True,
     src_files = [], src_dirs = [], src_used = 0\<rparr>"

definition sample_volume :: jbod where
  "sample_volume = jbod_init [sample_source] empty_store
     (Some \<lparr>eng_key = replicate 32 1, eng_crypto = toy_crypto\<rparr>) (Some ''d'')"

definition sample_full :: jbod where
  "sample_full = snd (write_file sample_env ''/a'' [1, 2] sample_volume)"

lemma calm_fault_free [simp]: "fault_free calm_env"
  by (simp add: fault_free_def calm_env_def)

lemma sample_env_os [simp]: "os sample_env = calm_env"
  by (simp add: sample_env_def)

lemma sample_ok: "jbod_ok sample_volume"
  by code_simp

lemma sample_engine: "engine_ok sample_env sample_volume"
  by (simp add: engine_ok_def sample_volume_def jbod_init_def aead_toy sample_env_def)

lemma sample_write: "write_file sample_env ''/a'' [1, 2] sample_volume = (Inr (), sample_full)"
  unfolding sample_full_def by (rule run_eq) code_simp

lemma sample_full_ok: "jbod_ok sample_full"
  by code_simp

lemma sample_stored:
  "stored sample_full ''/a'' 0 ''0123456789abcdef0123456789abcdef_a''
     (sealed sample_env sample_volume [1, 2])"
proof -
  have "lookup ''/a'' (md sample_full) = Some (the (lookup ''/a'' (md sample_full)))
    \<and> owned_here sample_full (the (lookup ''/a'' (md sample_full)))
    \<and> source_index (source_id (the (lookup ''/a'' (md sample_full)))) sample_full = Some 0
    \<and> physical_path (the (lookup ''/a'' (md sample_full))) = ''0123456789abcdef0123456789abcdef_a''
    \<and> 0 < length (sources sample_full) \<and> src_active (sources sample_full ! 0)
    \<and> content (sources sample_full ! 0) ''0123456789abcdef0123456789abcdef_a''
        = Some (sealed sample_env sample_volume [1, 2])"
    by (intro conjI; code_simp)
  then show ?thesis unfolding stored_def by blast
qed

section \<open>Properties\<close>

text \<open>C4: A file written successfully reads back, byte for byte, through placement,
  encryption, metadata and decryption, whether it was new, overwritten, or taken over from
  another device.\<close>

theorem read_after_write:
  assumes "jbod_ok j" and "engine_ok env j" and "write_file env vp data j = (Inr (), j')"
    and "dev j \<noteq> None \<or> (\<forall>m. lookup vp (md j) = Some m \<longrightarrow> owned_here j m)"
    and "fault_free (os env')"
  shows "read_file env' vp j' = (Inr data, j')"
proof -
  obtain i p where st: "stored j' vp i p (sealed env j data)" "jbod_ok j'" "eng j' = eng j"
    using write_stored [OF assms(1,3,4)] by blast
  show ?thesis
    using read_stored [OF st(1,2) assms(5)] decrypted_sealed [OF assms(2) st(3)] by simp
qed

theorem read_after_write_witness: "read_file sample_env ''/a'' sample_full = (Inr [1, 2], sample_full)"
  by (rule read_after_write [OF sample_ok sample_engine sample_write])
    (simp_all add: sample_volume_def jbod_init_def)

text \<open>C5: Writing one file leaves every other file of this device readable with the same
  content, provided no two records share a physical file and the generated name is new.\<close>

theorem write_keeps_other_files:
  assumes "jbod_ok j" and "unshared j" and "fresh_path env vp j" and "q \<noteq> vp"
    and "stored j q i p e" and "write_file env vp data j = (Inr (), j')"
    and "dev j \<noteq> None \<or> (\<forall>m. lookup vp (md j) = Some m \<longrightarrow> owned_here j m)"
    and "fault_free (os env')"
  shows "fst (read_file env' q j') = fst (read_file env' q j)"
proof -
  have st: "stored j' q i p e" using write_frame assms(1-6) by blast
  obtain "jbod_ok j'" and "eng j' = eng j" using write_stored [OF assms(1,6,7)] by blast
  then show ?thesis
    using read_stored [OF st _ assms(8)] read_stored [OF assms(5,1,8)] by (simp add: decrypted_def)
qed

definition other_env :: jenv where
  "other_env = sample_env\<lparr>uuid := ''fedcba9876543210fedcba9876543210''\<rparr>"

lemma sample_lookup: "lookup q (md sample_full) = Some m \<Longrightarrow>
  q = ''/a'' \<and> physical_path m = ''0123456789abcdef0123456789abcdef_a''"
proof -
  assume m: "lookup q (md sample_full) = Some m"
  have fs: "map (\<lambda>r. (virtual_path r, physical_path r)) (files (md sample_full)) =
      [(''/a'', ''0123456789abcdef0123456789abcdef_a'')]"
    by code_simp
  from m obtain r where "r \<in> set (files (md sample_full))" "virtual_path r = q" "m = meta_of r"
    by (rule lookup_in)
  then have "(q, physical_path m) \<in> set (map (\<lambda>r. (virtual_path r, physical_path r)) (files (md sample_full)))"
    by force
  then show ?thesis unfolding fs by simp
qed

theorem write_keeps_other_files_witness:
  "fst (read_file sample_env ''/a'' (snd (write_file other_env ''/b'' [5] sample_full))) =
   fst (read_file sample_env ''/a'' sample_full)"
proof -
  have w: "write_file other_env ''/b'' [5] sample_full = (Inr (), snd (write_file other_env ''/b'' [5] sample_full))"
    by (rule run_eq) code_simp
  have f: "fresh_path other_env ''/b'' sample_full"
    unfolding fresh_path_def by (auto dest!: sample_lookup) code_simp
  have u: "unshared sample_full"
    unfolding unshared_def by (auto dest!: sample_lookup)
  have d: "dev sample_full \<noteq> None" by code_simp
  show ?thesis
    by (rule write_keeps_other_files [OF sample_full_ok u f _ sample_stored w]) (use d in simp_all)
qed

text \<open>A write that fails, at whatever step, leaves the metadata exactly as it was: no
  record appears, changes or disappears and no transaction stays open.\<close>

lemma failed_write_keeps_metadata:
  assumes "write_file env vp data j = (Inl e, j')"
  shows "md j' = md j"
  using assms by (rule write_failed_md)

text \<open>A new file goes to the active local source with the most free space among those
  it fits on, and choosing changes nothing.\<close>

lemma select_source_most_available:
  assumes "select_source e n j = (Inr i, j')"
  shows "j' = j \<and> i < length (sources j) \<and> \<not> skipped (sources j ! i) \<and>
    n \<le> free_space e (sources j ! i) \<and>
    (\<forall>s \<in> set (sources j). \<not> skipped s \<longrightarrow> n \<le> free_space e s \<longrightarrow>
       free_space e s \<le> free_space e (sources j ! i))"
  using select_source_ok [OF assms] by force

text \<open>C6: Orphan collection never touches the physical file of a live record of this
  device, nor a file whose name the manager did not generate, nor anything in a
  subdirectory, whatever the sources answer.\<close>

theorem gc_keeps_live_files:
  assumes "jbod_ok j" and "i < length (sources j)" and "dev j = Some d"
    and "(\<exists>m vp. lookup vp (md j) = Some m \<and> owned_here j m \<and>
        source_id m = src_id (sources j ! i) \<and> physical_path m = q) \<or>
      \<not> managed_name q \<or> CHR ''/'' \<in> set q"
  shows "content (sources (snd (gc_orphan_files env j)) ! i) q = content (sources j ! i) q"
proof -
  have "(src_id (sources j ! i), q) \<in> set (live_physical_paths_for_device d (md j))"
    if "lookup vp (md j) = Some m" "owned_here j m" "source_id m = src_id (sources j ! i)"
      "physical_path m = q" for m vp
    using that assms(3)
    by (force simp: lookup_def find_Some_iff live_physical_paths_for_device_def owned_here_def)
  then show ?thesis using gc_content [OF assms(1-3)] assms(4) by blast
qed

theorem gc_keeps_live_files_witness:
  "content (sources (snd (gc_orphan_files sample_env sample_full)) ! 0) ''notes.txt'' =
   content (sources sample_full ! 0) ''notes.txt''"
proof -
  have d: "dev sample_full = Some ''d''" and l: "0 < length (sources sample_full)" by code_simp+
  have "\<not> managed_name ''notes.txt''" by code_simp
  then show ?thesis using gc_keeps_live_files [OF sample_full_ok l d] by blast
qed

text \<open>C29: Deleting a file of this device removes its record from every lookup and its
  physical file from the source; the record stays behind as a pending tombstone.\<close>

theorem delete_file_removes:
  assumes "jbod_ok j" and "delete_file env vp j = (Inr (), j')" and "fault_free (os env)"
    and "stored j vp i p e"
  shows "lookup vp (md j') = None \<and> content (sources j' ! i) p = None \<and>
    fst (read_file env' vp j') = Inl FileNotFoundError \<and>
    (\<exists>m. lookup_any vp (md j') = Some m \<and> deleted m \<and> sync_status m = ''pending'')"
proof -
  obtain m where m: "lookup vp (md j) = Some m"
    using assms(4) by (auto simp: stored_def)
  then obtain r where "row (md j) vp = Some r"
    using assms(1) by (auto simp: jbod_ok_def lookup_row split: option.splits)
  then have "\<exists>m. lookup_any vp (md j') = Some m \<and> deleted m \<and> sync_status m = ''pending''"
    using delete_file_ok [OF assms(2) m] by (simp add: lookup_any_row row_delete)
  with delete_file_gone [OF assms(1-3)] assms(4) show ?thesis by (simp add: read_file_def)
qed

theorem delete_file_removes_witness:
  "lookup ''/a'' (md (snd (delete_file sample_env ''/a'' sample_full))) = None"
proof -
  have d: "delete_file sample_env ''/a'' sample_full = (Inr (), snd (delete_file sample_env ''/a'' sample_full))"
    by (rule run_eq) code_simp
  from delete_file_removes [OF sample_full_ok d _ sample_stored] show ?thesis by simp
qed

text \<open>C30: A successful move makes the file readable under the new path with the same
  content and unreadable under the old one, without touching any source.\<close>

theorem move_file_keeps_content:
  assumes "jbod_ok j" and "move_file a b j = (Inr (), j')" and "a \<noteq> b" and "stored j a i p e"
    and "fault_free (os env)"
  shows "fst (read_file env b j') = fst (read_file env a j) \<and>
    fst (read_file env a j') = Inl FileNotFoundError \<and> sources j' = sources j"
proof -
  have st: "stored j' b i p e" "lookup a (md j') = None" "jbod_ok j'"
    using move_stored [OF assms(1-4)] by auto
  have same: "eng j' = eng j" "sources j' = sources j"
    using assms(2) by (cases "rename_path a b (md j)"; auto simp: move_file_def set_md_def split: option.splits)+
  show ?thesis
    using read_stored [OF st(1,3) assms(5)] read_stored [OF assms(4,1,5)] st(2) same
    by (simp add: decrypted_def) (simp add: read_file_def)
qed

theorem move_file_keeps_content_witness:
  "fst (read_file sample_env ''/b'' (snd (move_file ''/a'' ''/b'' sample_full))) =
   fst (read_file sample_env ''/a'' sample_full)"
proof -
  have m: "move_file ''/a'' ''/b'' sample_full = (Inr (), snd (move_file ''/a'' ''/b'' sample_full))"
    by (rule run_eq) code_simp
  from move_file_keeps_content [OF sample_full_ok m _ sample_stored] show ?thesis by simp
qed

text \<open>Moving a file to a path that was deleted, and whose tombstone is still kept,
  raises an integrity error although the path does not exist for any lookup, and leaves a
  transaction open, so that the next write through the same connection fails.\<close>

lemma move_onto_tombstone_fails:
  assumes "jbod_ok j" and "lookup a (md j) = Some m" and "a \<noteq> b" and "row (md j) b = Some t"
    and "deleted t"
  shows "\<not> file_exists b j \<and> fst (move_file a b j) = Inl SqlIntegrityError \<and>
    fst (begin_transaction (md (snd (move_file a b j)))) = Inl SqlOperationalError"
  using failed_move [OF assms(1-4)] begin_after_failed assms(1,4,5)
  by (simp add: file_exists_def jbod_ok_def lookup_row set_md_def)

text \<open>C28: Recursive directory deletion returns without exhausting the stack: a depth of
  as many calls as the longest path has characters beyond the directory is enough, whatever
  the sources answer, when paths are normalised and contain no percent sign.\<close>

theorem delete_directory_terminates:
  assumes "list_all is_local (sources j)" and "\<forall>q \<in> visible_paths (md j). clean_path q"
    and "CHR ''%'' \<notin> set vp" and "dir_prefix vp = rstrip CHR ''/'' vp @ ''/''"
    and "\<forall>q \<in> visible_paths (md j). length q \<le> length (dir_prefix vp) + n" and "n < depth"
  shows "fst (delete_directory depth env vp j) \<noteq> Inl RecursionError"
proof -
  obtain k where k: "depth = Suc k" "n \<le> k" using assms(6) by (cases depth) auto
  have "\<forall>q \<in> visible_paths (md j). length q \<le> length (dir_prefix vp) + k"
    using assms(5) k(2) by fastforce
  with delete_directory_depth [OF assms(1-4)] k(1) show ?thesis by blast
qed

theorem delete_directory_terminates_witness:
  "fst (delete_directory 2 sample_env ''/'' sample_full) \<noteq> Inl RecursionError"
proof -
  have loc: "list_all is_local (sources sample_full)" by code_simp
  have v: "visible_paths (md sample_full) = {''/a''}"
  proof -
    have "map (\<lambda>r. (virtual_path r, deleted r)) (files (md sample_full)) = [(''/a'', False)]"
      and "directories (md sample_full) = []"
      by code_simp+
    then show ?thesis by (auto simp: visible_paths_def)
  qed
  have c: "clean_path ''/a''" by code_simp
  show ?thesis
    by (rule delete_directory_terminates [OF loc, where n = 1])
      (use v c in \<open>simp_all add: dir_prefix_def suffix_def rstrip_def\<close>)
qed

section \<open>Divergences\<close>

text \<open>A percent sign makes the listing see another directory's file as a directory with the
  empty name, which the deletion enters again and again.\<close>

lemma delete_directory_percent:
  "let j = sample_volume\<lparr>md := insert_file ''/aXY/f'' ''s'' ''p'' 0 0 0 None
      (insert_directory ''/a%'' 0 empty_store)\<rparr>
   in fst (delete_directory 40 sample_env ''/a%'' j) = Inl RecursionError"
  by code_simp

text \<open>A takeover without a device id keeps the record with the old owner, although the
  content is here: the file can no longer be read.\<close>

lemma takeover_without_device:
  "let j = (jbod_init [sample_source] (insert_file ''/f'' ''r'' ''p'' 0 0 0 (Some ''other'') empty_store)
        None None);
       (r, k) = write_file sample_env ''/f'' [1] j
   in r = Inr () \<and> fst (read_file sample_env ''/f'' k) = Inl (OSError False)"
  by code_simp

text \<open>A move neither raises the version nor marks the record for the sync.\<close>

lemma move_not_synchronised:
  assumes "jbod_ok j" and "move_file a b j = (Inr (), j')" and "a \<noteq> b" and "row (md j) a = Some r"
    and "\<not> deleted r"
  shows "\<exists>r'. row (md j') b = Some r' \<and> version r' = version r \<and> sync_status r' = sync_status r \<and>
    row (md j') a = None"
proof -
  have d: "paths_distinct (md j)" using assms(1) by (simp add: jbod_ok_def)
  have "lookup a (md j) \<noteq> None" using assms(4,5) lookup_row [OF d] by simp
  then obtain t where t: "rename_path a b (md j) = (Inr (), t)" and j': "j' = set_md t j"
    using assms(2) by (cases "rename_path a b (md j)") (auto simp: move_file_def)
  have "row t = (row (md j))(a := None, b \<mapsto> r\<lparr>virtual_path := b\<rparr>)"
    using tbl.ren_get [OF d t assms(3,4)] .
  with assms(3) show ?thesis by (simp add: j' set_md_def)
qed

text \<open>The collector lists only files at the root of a source, but a file of a subdirectory is
  stored in the same subdirectory: its orphans are never collected.\<close>

lemma nested_orphan_kept:
  "CHR ''/'' \<in> set (generate_physical_path ''0123456789abcdef0123456789abcdef'' ''/docs/a.txt'')"
  by code_simp

end
