(* ===== verification/Posix_Path.thy ===== *)
theory Posix_Path
  imports Prelude
begin

text \<open>
  The functions of Python's \<open>posixpath\<close> that the sources call, and the meaning of a path:
  \<open>walk\<close> follows a path through a tree without symbolic links, the way the operating
  system does. The lemmas relate the two: \<open>normpath\<close> changes the text of a path and not
  where it leads.
\<close>

section \<open>Splitting and joining\<close>

text \<open>The position after the last slash.\<close>

definition split_pos :: "string \<Rightarrow> nat" where
  "split_pos p = nat (rfind CHR ''/'' p + 1)"

definition dirname :: "string \<Rightarrow> string" where
  "dirname p = (let h = take (split_pos p) p in
     if h \<noteq> [] \<and> \<not> list_all (\<lambda>c. c = CHR ''/'') h then rstrip CHR ''/'' h else h)"

definition basename :: "string \<Rightarrow> string" where
  "basename p = drop (split_pos p) p"

definition path_join :: "string \<Rightarrow> string \<Rightarrow> string" where
  "path_join a b =
     (if prefix ''/'' b then b
      else if a = [] \<or> suffix ''/'' a then a @ b
      else a @ ''/'' @ b)"

text \<open>\<open>posixpath.normpath\<close>: one step of its loop over the components, and the function.\<close>

definition norm_step :: "bool \<Rightarrow> string list \<Rightarrow> string \<Rightarrow> string list" where
  "norm_step rooted acc c =
     (if c = [] \<or> c = ''.'' then acc
      else if c \<noteq> ''..'' \<or> \<not> rooted \<and> acc = [] \<or> acc \<noteq> [] \<and> last acc = ''..'' then acc @ [c]
      else butlast acc)"

definition initial_slashes :: "string \<Rightarrow> nat" where
  "initial_slashes p =
     (if \<not> prefix ''/'' p then 0
      else if prefix ''//'' p \<and> \<not> prefix ''///'' p then 2 else 1)"

definition norm_parts :: "string \<Rightarrow> string list" where
  "norm_parts p = foldl (norm_step (0 < initial_slashes p)) [] (split_on CHR ''/'' p)"

definition normpath :: "string \<Rightarrow> string" where
  "normpath p =
     (if p = [] then ''.''
      else (let r = replicate (initial_slashes p) CHR ''/'' @ join_on CHR ''/'' (norm_parts p)
        in if r = [] then ''.'' else r))"

section \<open>Where a path leads\<close>

definition walk_step :: "string list \<Rightarrow> string \<Rightarrow> string list" where
  "walk_step here c =
     (if c = [] \<or> c = ''.'' then here else if c = ''..'' then butlast here else here @ [c])"

definition walk_from :: "string list \<Rightarrow> string \<Rightarrow> string list" where
  "walk_from here p = foldl walk_step here (split_on CHR ''/'' p)"

definition walk :: "string list \<Rightarrow> string \<Rightarrow> string list" where
  "walk cwd p = walk_from (if prefix ''/'' p then [] else cwd) p"

text \<open>The components that name something.\<close>

definition names :: "string \<Rightarrow> string list" where
  "names p = filter (\<lambda>c. c \<noteq> [] \<and> c \<noteq> ''.'') (split_on CHR ''/'' p)"

definition no_dots :: "string \<Rightarrow> bool" where
  "no_dots p \<longleftrightarrow> ''..'' \<notin> set (split_on CHR ''/'' p)"

lemma walk_from_slash: "walk_from here (a @ CHR ''/'' # b) = walk_from (walk_from here a) b"
  by (simp add: walk_from_def split_on_append_sep)

lemma foldl_walk_no_dots:
  "''..'' \<notin> set cs \<Longrightarrow> foldl walk_step here cs = here @ filter (\<lambda>c. c \<noteq> [] \<and> c \<noteq> ''.'') cs"
  by (induction cs arbitrary: here) (auto simp: walk_step_def)

lemma walk_from_no_dots: "no_dots p \<Longrightarrow> walk_from here p = here @ names p"
  by (simp add: walk_from_def names_def no_dots_def foldl_walk_no_dots)

lemma walk_join:
  "walk cwd (path_join a b) = (if prefix ''/'' b then walk cwd b
     else walk_from (walk cwd a) b)"
proof (cases "prefix ''/'' b")
  case False
  consider "a = []" | a' where "a = a' @ ''/''" | "a \<noteq> []" "\<not> suffix ''/'' a"
    by (auto simp: suffix_def)
  then show ?thesis
  proof cases
    case 1
    then show ?thesis using False by (simp add: path_join_def walk_def walk_from_def walk_step_def)
  next
    case 2
    have "walk_from h (a' @ ''/'') = walk_from h a'" for h
      using walk_from_slash [of h a' "[]"] by (simp add: walk_from_def walk_step_def)
    moreover have "walk_from h (a' @ ''/'' @ b) = walk_from (walk_from h a') b" for h
      by (simp add: walk_from_slash)
    moreover have "prefix ''/'' (a' @ ''/'' @ b) = prefix ''/'' (a' @ ''/'')" by (cases a') auto
    ultimately show ?thesis using 2 False by (simp add: path_join_def walk_def)
  next
    case 3
    then have "prefix ''/'' (a @ ''/'' @ b) = prefix ''/'' a" by (cases a) auto
    then show ?thesis using 3 False by (simp add: path_join_def walk_def walk_from_slash)
  qed
qed (simp add: path_join_def)

section \<open>Normalisation\<close>

definition norm_form :: "string list \<Rightarrow> bool" where
  "norm_form cs \<longleftrightarrow> (\<forall>c \<in> set cs. c \<noteq> [] \<and> c \<noteq> ''.'' \<and> CHR ''/'' \<notin> set c)"

lemma norm_form_step: "norm_form acc \<Longrightarrow> CHR ''/'' \<notin> set c \<Longrightarrow> norm_form (norm_step ab acc c)"
  by (auto simp: norm_form_def norm_step_def dest: in_set_butlastD)

lemma norm_form_foldl:
  "norm_form acc \<Longrightarrow> \<forall>c \<in> set cs. CHR ''/'' \<notin> set c \<Longrightarrow> norm_form (foldl (norm_step ab) acc cs)"
  by (induction cs arbitrary: acc) (auto simp: norm_form_step)

lemma norm_form_parts: "norm_form (norm_parts p)"
  unfolding norm_parts_def
  by (rule norm_form_foldl) (auto simp: norm_form_def dest: split_on_no_sep)

text \<open>A step of the normalisation leads where a step of the walk does.\<close>

lemma norm_step_walk:
  assumes "norm_form acc" and "ab \<Longrightarrow> here = []"
  shows "foldl walk_step here (norm_step ab acc c) = walk_step (foldl walk_step here acc) c"
proof (cases "c = ''..'' \<and> acc \<noteq> [] \<and> last acc \<noteq> ''..''")
  case True
  then obtain as a where acc: "acc = as @ [a]" "a \<noteq> ''..''"
    by (metis append_butlast_last_id)
  with assms(1) have "a \<noteq> []" "a \<noteq> ''.''" by (auto simp: norm_form_def)
  with acc True show ?thesis by (simp add: norm_step_def walk_step_def)
next
  case False
  then show ?thesis using assms(2) by (cases ab) (auto simp: norm_step_def walk_step_def)
qed

lemma norm_foldl_walk:
  assumes "norm_form acc" and "\<forall>c \<in> set cs. CHR ''/'' \<notin> set c" and "ab \<Longrightarrow> here = []"
  shows "foldl walk_step here (foldl (norm_step ab) acc cs) = foldl walk_step (foldl walk_step here acc) cs"
  using assms
  by (induction cs arbitrary: acc) (auto simp: norm_form_step norm_step_walk)

lemma split_join_parts:
  "norm_form cs \<Longrightarrow> cs \<noteq> [] \<Longrightarrow> split_on CHR ''/'' (join_on CHR ''/'' cs) = cs"
proof (induction "CHR ''/''" cs rule: join_on.induct)
  case (3 x y zs)
  then show ?case by (simp add: norm_form_def split_on_append_sep split_on_plain)
qed (auto simp: norm_form_def split_on_plain)

lemma walk_from_parts:
  assumes "norm_form cs"
  shows "walk_from here (join_on CHR ''/'' cs) = foldl walk_step here cs"
proof (cases "cs = []")
  case True
  then show ?thesis by (simp add: walk_from_def walk_step_def)
next
  case False
  then show ?thesis using split_join_parts [OF assms] by (simp add: walk_from_def)
qed

lemma parts_head:
  assumes "norm_form cs"
  shows "\<not> prefix ''/'' (join_on CHR ''/'' cs)" and "join_on CHR ''/'' cs = [] \<longleftrightarrow> cs = []"
proof -
  have "cs = [] \<or> (\<exists>x xs c ds. cs = (x # xs) # ds \<and> x \<noteq> CHR ''/'')"
    using assms by (cases cs; cases "hd cs") (auto simp: norm_form_def)
  then show "\<not> prefix ''/'' (join_on CHR ''/'' cs)" "join_on CHR ''/'' cs = [] \<longleftrightarrow> cs = []"
    by (auto simp: join_on_Cons split: if_splits)
qed

lemma initial_slashes_pos [simp]: "0 < initial_slashes p \<longleftrightarrow> prefix ''/'' p"
  by (simp add: initial_slashes_def)

lemma walk_from_replicate [simp]: "walk_from here (replicate k CHR ''/'' @ p) = walk_from here p"
proof (induction k)
  case (Suc k)
  then show ?case
    using walk_from_slash [of here "[]" "replicate k CHR ''/'' @ p"] by (simp add: walk_from_def walk_step_def)
qed simp

lemma prefix_replicate: "\<not> prefix [c] s \<Longrightarrow> prefix [c] (replicate k c @ s) \<longleftrightarrow> 0 < k"
  by (cases k) auto

lemma initial_slashes_replicate:
  "k \<le> 2 \<Longrightarrow> \<not> prefix ''/'' s \<Longrightarrow> initial_slashes (replicate k CHR ''/'' @ s) = k"
  by (cases k; cases "k - 1"; cases s) (auto simp: initial_slashes_def)

lemma initial_slashes_le: "initial_slashes p \<le> 2"
  by (simp add: initial_slashes_def)

text \<open>The shape of a normalised path.\<close>

lemma normpath_shape:
  obtains k s where "normpath p = replicate k CHR ''/'' @ s" "\<not> prefix ''/'' s" "k \<le> 2"
    "k = initial_slashes p" "s = join_on CHR ''/'' (norm_parts p) \<or> k = 0 \<and> s = ''.'' \<and> norm_parts p = []"
proof -
  note h = parts_head [OF norm_form_parts, of p]
  show thesis
  proof (cases "normpath p = ''.'' \<and> initial_slashes p = 0 \<and> norm_parts p = []")
    case True
    then show thesis using that [of 0 "''.''"] by simp
  next
    case False
    then have "normpath p = replicate (initial_slashes p) CHR ''/'' @ join_on CHR ''/'' (norm_parts p)"
      using h by (cases "p = []") (auto simp: normpath_def Let_def initial_slashes_def norm_parts_def norm_step_def)
    then show thesis using that h(1) initial_slashes_le by metis
  qed
qed

theorem walk_normpath: "walk cwd (normpath p) = walk cwd p"
proof -
  let ?ab = "prefix ''/'' p"
  let ?here = "if ?ab then [] else cwd"
  have seps: "\<forall>c \<in> set (split_on CHR ''/'' p). CHR ''/'' \<notin> set c"
    by (auto dest: split_on_no_sep)
  have "foldl walk_step ?here (norm_parts p) = foldl walk_step ?here (split_on CHR ''/'' p)"
    using norm_foldl_walk [of "[]", OF _ seps] by (simp add: norm_parts_def norm_form_def)
  then have w: "walk_from ?here p = foldl walk_step ?here (norm_parts p)"
    by (simp add: walk_from_def)
  obtain k s where n: "normpath p = replicate k CHR ''/'' @ s" "\<not> prefix ''/'' s" "k = initial_slashes p"
    "s = join_on CHR ''/'' (norm_parts p) \<or> k = 0 \<and> s = ''.'' \<and> norm_parts p = []"
    by (rule normpath_shape)
  have "walk_from ?here s = foldl walk_step ?here (norm_parts p)"
    using n(4) walk_from_parts [OF norm_form_parts, of ?here p]
    by (elim disjE) (simp, simp add: walk_from_def walk_step_def)
  moreover have "prefix ''/'' (normpath p) = ?ab"
    using n(2,3) by (simp add: n(1) prefix_replicate)
  ultimately show ?thesis by (simp add: walk_def w n(1))
qed

section \<open>Normal forms\<close>

text \<open>A normalised path climbs first, and only if it is relative, and then only descends.\<close>

definition climbs_first :: "bool \<Rightarrow> string list \<Rightarrow> bool" where
  "climbs_first rooted cs \<longleftrightarrow>
     (\<exists>k ns. cs = replicate k ''..'' @ ns \<and> ''..'' \<notin> set ns \<and> (rooted \<longrightarrow> k = 0))"

lemma climbs_first_step:
  assumes "climbs_first ab acc"
  shows "climbs_first ab (norm_step ab acc c)"
proof -
  obtain k ns where acc: "acc = replicate k ''..'' @ ns" "''..'' \<notin> set ns" "ab \<longrightarrow> k = 0"
    using assms by (auto simp: climbs_first_def)
  consider "c = [] \<or> c = ''.''" | "c \<noteq> []" "c \<noteq> ''.''" "c \<noteq> ''..''"
    | "c = ''..''" "ns = []" | "c = ''..''" "ns \<noteq> []" by blast
  then show ?thesis
  proof cases
    case 1
    then show ?thesis using assms by (auto simp: norm_step_def)
  next
    case 2
    then have "norm_step ab acc c = replicate k ''..'' @ (ns @ [c])" by (simp add: norm_step_def acc)
    then show ?thesis using 2 acc(2,3) unfolding climbs_first_def by fastforce
  next
    case 3
    then have "norm_step ab acc c = (if ab then [] else replicate (Suc k) ''..'')"
      using acc by (cases k) (auto simp: norm_step_def replicate_append_same last_replicate)
    then show ?thesis unfolding climbs_first_def by (auto intro: exI [of _ "Suc k"] exI [of _ 0])
  next
    case 4
    then have "last acc \<noteq> ''..''" using acc by (metis last_appendR last_in_set)
    then have "norm_step ab acc c = replicate k ''..'' @ butlast ns"
      using 4 acc by (auto simp: norm_step_def butlast_append)
    then show ?thesis using acc(2,3) unfolding climbs_first_def by (blast dest: in_set_butlastD)
  qed
qed

lemma climbs_first_parts: "climbs_first (prefix ''/'' p) (norm_parts p)"
proof -
  have "climbs_first ab acc \<Longrightarrow> climbs_first ab (foldl (norm_step ab) acc cs)" for ab acc cs
    by (induction cs arbitrary: acc) (auto simp: climbs_first_step)
  moreover have "climbs_first ab []" for ab by (auto simp: climbs_first_def)
  ultimately show ?thesis by (simp add: norm_parts_def)
qed

lemma norm_fixed:
  "norm_form cs \<Longrightarrow> climbs_first ab cs \<Longrightarrow> foldl (norm_step ab) [] cs = cs"
proof (induction cs rule: rev_induct)
  case (snoc c cs)
  obtain k ns where k: "cs @ [c] = replicate k ''..'' @ ns" "''..'' \<notin> set ns" "ab \<longrightarrow> k = 0"
    using snoc.prems by (auto simp: climbs_first_def)
  have c: "c \<noteq> []" "c \<noteq> ''.''" and nf: "norm_form cs" using snoc.prems by (auto simp: norm_form_def)
  show ?case
  proof (cases "ns = []")
    case True
    then obtain l where "k = Suc l" "cs @ [c] = replicate l ''..'' @ [''..'']"
      using k(1) by (cases k) (auto simp: replicate_append_same)
    then have l: "k = Suc l" "cs = replicate l ''..''" "c = ''..''" by simp_all
    then have "climbs_first ab cs"
      using k(3) by (auto simp: climbs_first_def intro!: exI [of _ l] exI [of _ "[]"])
    then have "foldl (norm_step ab) [] cs = cs" using snoc.IH nf by simp
    moreover have "norm_step ab (replicate l ''..'') ''..'' = replicate l ''..'' @ [''..'']"
      using l(1) k(3) by (cases l) (auto simp: norm_step_def last_replicate)
    ultimately show ?thesis using l by simp
  next
    case False
    then have "cs = replicate k ''..'' @ butlast ns" "c = last ns"
      using k(1) by (metis butlast_append butlast_snoc, metis last_appendR last_snoc)
    then have "climbs_first ab cs" "c \<noteq> ''..''"
      using k(2,3) False last_in_set [OF False] unfolding climbs_first_def
      by (blast dest: in_set_butlastD, metis)
    then show ?thesis using snoc.IH nf c by (simp add: norm_step_def)
  qed
qed simp

lemma split_replicate: "split_on c (replicate k c @ s) = replicate k [] @ split_on c s"
  by (induction k) auto

lemma foldl_norm_skip: "foldl (norm_step ab) acc (replicate k []) = acc"
  by (induction k) (auto simp: norm_step_def)

lemma foldl_norm_join:
  "norm_form cs \<Longrightarrow> foldl (norm_step ab) acc (split_on CHR ''/'' (join_on CHR ''/'' cs)) = foldl (norm_step ab) acc cs"
  by (cases "cs = []") (auto simp: norm_step_def split_join_parts)

lemma normpath_fixed [simp]:
  "initial_slashes (normpath p) = initial_slashes p" "norm_parts (normpath p) = norm_parts p"
proof -
  obtain k s where n: "normpath p = replicate k CHR ''/'' @ s" "\<not> prefix ''/'' s" "k \<le> 2"
    "k = initial_slashes p" "s = join_on CHR ''/'' (norm_parts p) \<or> k = 0 \<and> s = ''.'' \<and> norm_parts p = []"
    by (rule normpath_shape)
  show i: "initial_slashes (normpath p) = initial_slashes p"
    using n initial_slashes_replicate by simp
  have "foldl (norm_step (prefix ''/'' p)) [] (split_on CHR ''/'' s) = norm_parts p"
    using n(5) foldl_norm_join [OF norm_form_parts] norm_fixed [OF norm_form_parts climbs_first_parts]
    by (auto simp: norm_step_def)
  then show "norm_parts (normpath p) = norm_parts p"
    unfolding norm_parts_def [of "normpath p"] i
    by (simp add: n(1) split_replicate foldl_norm_skip)
qed

section \<open>Paths below a root\<close>

lemma no_dots_parts:
  "''..'' \<notin> set cs \<Longrightarrow> foldl (norm_step ab) acc cs = acc @ filter (\<lambda>c. c \<noteq> [] \<and> c \<noteq> ''.'') cs"
  by (induction cs arbitrary: acc) (auto simp: norm_step_def)

lemma norm_parts_no_dots: "no_dots p \<Longrightarrow> norm_parts p = names p"
  by (simp add: norm_parts_def names_def no_dots_def no_dots_parts)

lemma names_form: "norm_form (names p)"
  by (auto simp: norm_form_def names_def dest: split_on_no_sep)

lemma names_no_dots: "no_dots p \<Longrightarrow> ''..'' \<notin> set (names p)"
  by (simp add: names_def no_dots_def)

lemma names_join: "norm_form cs \<Longrightarrow> names (join_on CHR ''/'' cs) = cs"
  by (cases "cs = []") (auto simp: names_def split_join_parts norm_form_def filter_id_conv)

lemma no_dots_join: "norm_form cs \<Longrightarrow> ''..'' \<notin> set cs \<Longrightarrow> no_dots (join_on CHR ''/'' cs)"
  by (cases "cs = []") (auto simp: no_dots_def split_join_parts)

lemma join_append:
  "as \<noteq> [] \<Longrightarrow> bs \<noteq> [] \<Longrightarrow> join_on c (as @ bs) = join_on c as @ c # join_on c bs"
  by (induction as) (auto simp: join_on_Cons)

text \<open>A relative path without climbing components, joined to a normalised root.\<close>

lemma normpath_join_relative:
  assumes "\<not> prefix ''/'' p" and "no_dots p" and "norm_parts base \<noteq> []"
  shows "normpath (path_join (normpath base) p) =
    normpath base @ (if names p = [] then [] else CHR ''/'' # join_on CHR ''/'' (names p))"
proof -
  obtain k s where n: "normpath base = replicate k CHR ''/'' @ s" "\<not> prefix ''/'' s" "k \<le> 2"
    "k = initial_slashes base" "s = join_on CHR ''/'' (norm_parts base)"
    using assms(3) by (rule_tac normpath_shape [of base]) auto
  have s: "s \<noteq> []" using n(5) parts_head(2) [OF norm_form_parts, of base] assms(3) by simp
  have slash: "\<not> suffix ''/'' s"
  proof
    assume "suffix ''/'' s"
    then have "\<exists>t. s = t @ CHR ''/'' # []" by (auto simp: suffix_def)
    then have "[] \<in> set (split_on CHR ''/'' s)" by (auto simp: split_on_append_sep)
    then show False
      using split_join_parts [OF norm_form_parts assms(3)] norm_form_parts [of base] n(5)
      by (auto simp: norm_form_def)
  qed
  let ?q = "replicate k CHR ''/'' @ (s @ CHR ''/'' # p)"
  have q: "path_join (normpath base) p = ?q"
    using assms(1) s slash by (auto simp: path_join_def n(1) suffix_append Cons_eq_append_conv)
  have k: "initial_slashes ?q = k"
    using n(2,3) s by (intro initial_slashes_replicate) (cases s; auto)+
  have "norm_parts ?q = foldl (norm_step (0 < k)) [] (split_on CHR ''/'' s @ split_on CHR ''/'' p)"
    by (simp only: norm_parts_def k split_replicate foldl_append foldl_norm_skip split_on_append_sep)
  also have "\<dots> = norm_parts base @ names p"
    using foldl_norm_join [OF norm_form_parts] norm_fixed [OF norm_form_parts climbs_first_parts] assms(2) n(4,5)
    by (simp add: no_dots_parts names_def no_dots_def)
  finally have parts: "norm_parts ?q = norm_parts base @ names p" .
  have "join_on CHR ''/'' (norm_parts base @ names p) =
      s @ (if names p = [] then [] else CHR ''/'' # join_on CHR ''/'' (names p))"
    using assms(3) n(5) by (simp add: join_append)
  moreover have "normpath ?q = replicate k CHR ''/'' @ join_on CHR ''/'' (norm_parts base @ names p)"
    unfolding normpath_def [of ?q] Let_def k parts using s calculation by simp
  ultimately show ?thesis unfolding q by (simp add: n(1))
qed

lemma no_dots_normpath: "no_dots p \<Longrightarrow> no_dots (normpath p)"
proof -
  assume p: "no_dots p"
  obtain k s where n: "normpath p = replicate k CHR ''/'' @ s"
    "s = join_on CHR ''/'' (norm_parts p) \<or> k = 0 \<and> s = ''.'' \<and> norm_parts p = []"
    by (rule normpath_shape)
  have "no_dots s"
    using n(2) no_dots_join [OF names_form names_no_dots [OF p]] norm_parts_no_dots [OF p]
    by (auto simp: no_dots_def)
  then show ?thesis by (auto simp: n(1) no_dots_def split_replicate)
qed

text \<open>The part of a path that lies below its root.\<close>

definition below_root :: "string \<Rightarrow> string \<Rightarrow> string" where
  "below_root base p =
     drop (Suc (length (normpath base))) (normpath (path_join (normpath base) p))"

definition inside_root :: "string \<Rightarrow> string \<Rightarrow> bool" where
  "inside_root base p \<longleftrightarrow> (let r = normpath base; q = normpath (path_join r p) in
     q = r \<or> prefix (r @ ''/'') q)"

lemma normpath_nonempty [simp]: "normpath p \<noteq> []"
  by (simp add: normpath_def Let_def)

lemma inside_root_walk:
  assumes "no_dots p" and "inside_root base p"
  shows "walk cwd (path_join base p) = walk cwd base @ names (below_root base p)"
    and "no_dots (below_root base p)"
proof -
  let ?r = "normpath base" and ?q = "normpath (path_join (normpath base) p)"
  have w: "walk cwd (path_join base p) = walk cwd ?q"
    by (simp add: walk_normpath walk_join)
  consider "?q = ?r" | t where "?q = ?r @ CHR ''/'' # t"
    using assms(2) by (auto simp: inside_root_def Let_def prefix_def)
  then have "walk cwd (path_join base p) = walk cwd base @ names (below_root base p) \<and>
      no_dots (below_root base p)"
  proof cases
    case 1
    then have "walk cwd (path_join base p) = walk cwd base" using w by (simp add: walk_normpath)
    then show ?thesis using 1 by (simp add: below_root_def names_def no_dots_def)
  next
    case (2 t)
    have b: "below_root base p = t" by (simp add: below_root_def 2)
    have t: "no_dots t"
    proof (cases "prefix ''/'' p")
      case True
      then have "no_dots ?q" using no_dots_normpath [OF assms(1)] by (simp add: path_join_def)
      then show ?thesis by (simp add: 2 no_dots_def split_on_append_sep)
    next
      case rel: False
      show ?thesis
      proof (cases "norm_parts base = []")
        case False
        then have "t = (if names p = [] then [] else join_on CHR ''/'' (names p))"
          using normpath_join_relative [OF rel assms(1) False] 2 by (auto split: if_splits)
        then show ?thesis
          using no_dots_join [OF names_form names_no_dots [OF assms(1)]] by (auto simp: no_dots_def)
      next
        case True
        have "no_dots ?r" using True by (auto simp: normpath_def Let_def no_dots_def initial_slashes_def numeral_2_eq_2)
        then have "no_dots (path_join ?r p)"
          using assms(1) rel
          by (auto simp: path_join_def no_dots_def split_on_append_sep suffix_def append_eq_append_conv2)
        then have "no_dots ?q" by (rule no_dots_normpath)
        then show ?thesis by (simp add: 2 no_dots_def split_on_append_sep)
      qed
    qed
    have "prefix ''/'' ?q = prefix ''/'' ?r" using 2 normpath_nonempty [of base] by (cases ?r) auto
    then have "walk cwd ?q = walk_from (walk cwd ?r) t"
      by (simp add: walk_def 2 walk_from_slash)
    then show ?thesis using w b t by (simp add: walk_from_no_dots walk_normpath)
  qed
  then show "walk cwd (path_join base p) = walk cwd base @ names (below_root base p)"
    "no_dots (below_root base p)" by blast+
qed

lemma relative_inside:
  assumes "\<not> prefix ''/'' p" and "no_dots p" and "norm_parts base \<noteq> []"
  shows "inside_root base p" and "below_root base p = join_on CHR ''/'' (names p)"
  using normpath_join_relative [OF assms] by (auto simp: inside_root_def below_root_def Let_def)

end
