(* ===== verification/Conflict_Resolver.thy ===== *)
theory Conflict_Resolver
  imports Metadata_Store Posix_Path
begin

text \<open>
  \<^verbatim>\<open>stardustlib/conflict_resolver.py\<close>: when a file was changed both here and on the
  server, the local record is renamed to a conflict copy so that the server's record can
  take its path. The time stamp is an argument; the search for a free sequence number is
  a loop that could run forever, so it is a partial function, proved to return.
\<close>

section \<open>Detection\<close>

definition detect_conflict :: "int \<Rightarrow> int \<Rightarrow> int \<Rightarrow> bool" where
  "detect_conflict server_version local_version local_base_version \<longleftrightarrow>
     local_base_version < server_version \<and> local_base_version < local_version"

section \<open>Conflict names\<close>

definition split_ext :: "string \<Rightarrow> string \<times> string" where
  "split_ext b = (let i = rfind CHR ''.'' b in
     if 0 < i then (take (nat i) b, drop (nat i) b) else (b, []))"

definition in_dir :: "string \<Rightarrow> string \<Rightarrow> string" where
  "in_dir d n = (if d \<noteq> [] then path_join d n else n)"

definition conflict_base :: "string \<Rightarrow> string \<Rightarrow> string \<Rightarrow> string" where
  "conflict_base dev stamp name = name @ '' (conflict - '' @ dev @ '' - '' @ stamp @ '')''"

definition conflict_path :: "string \<Rightarrow> string \<Rightarrow> string \<Rightarrow> string" where
  "conflict_path dev stamp vp = (let (name, ext) = split_ext (basename vp) in
     in_dir (dirname vp) (conflict_base dev stamp name @ ext))"

definition conflict_path_seq :: "string \<Rightarrow> string \<Rightarrow> string \<Rightarrow> nat \<Rightarrow> string" where
  "conflict_path_seq dev stamp vp n = (let (name, ext) = split_ext (basename vp) in
     in_dir (dirname vp) (conflict_base dev stamp name @ '' ('' @ show_nat n @ '')'' @ ext))"

definition generate_conflict_name :: "string \<Rightarrow> string \<Rightarrow> string \<Rightarrow> mstore \<Rightarrow> string option" where
  "generate_conflict_name dev stamp vp m =
     (if lookup (conflict_path dev stamp vp) m = None then Some (conflict_path dev stamp vp)
      else map_option (conflict_path_seq dev stamp vp)
        (free_seq (\<lambda>n. lookup (conflict_path_seq dev stamp vp n) m \<noteq> None) 2))"

section \<open>Resolution\<close>

text \<open>\<open>resolve_conflict\<close>; \<open>None\<close> would be a search that never returns.\<close>

definition resolve_conflict ::
  "string \<Rightarrow> string \<Rightarrow> string \<Rightarrow> mstore \<Rightarrow> (string result \<times> mstore) option" where
  "resolve_conflict dev stamp vp m =
     (case generate_conflict_name dev stamp vp m of
       None \<Rightarrow> None
     | Some cp \<Rightarrow>
         (case rename_path vp cp m of
           (Inl e, m1) \<Rightarrow> Some (Inl e, snd (set_sync_status vp ''pending'' m1))
         | (Inr _, m1) \<Rightarrow>
             (case set_sync_status cp ''conflict'' m1 of
               (Inl e, m2) \<Rightarrow> Some (Inl e, snd (set_sync_status vp ''pending'' m2))
             | (Inr _, m2) \<Rightarrow> Some (Inr cp, m2))))"

section \<open>The search returns\<close>

lemma in_dir_inj: "hd a \<noteq> CHR ''/'' \<Longrightarrow> hd b \<noteq> CHR ''/'' \<Longrightarrow> in_dir d a = in_dir d b \<Longrightarrow> a = b"
  by (cases a; cases b) (auto simp: in_dir_def path_join_def split: if_splits)

lemma basename_plain: "CHR ''/'' \<notin> set (basename p)"
proof (induction p rule: rev_induct)
  case (snoc x p)
  let ?n = "split_pos p"
  have "split_pos (p @ [x]) = (if x = CHR ''/'' then Suc (length p) else ?n)"
    by (simp add: split_pos_def rfind_def nat_add_distrib)
  moreover have "?n \<le> length p"
    using length_dropWhile_le [of _ "rev p"] by (simp add: split_pos_def rfind_def)
  ultimately show ?case using snoc by (auto simp: basename_def)
qed (simp add: basename_def)

lemma split_ext_append: "split_ext b = (n, e) \<Longrightarrow> n @ e = b"
  by (auto simp: split_ext_def Let_def split: if_splits)

lemma conflict_name_hd:
  "split_ext (basename vp) = (n, e) \<Longrightarrow> hd (conflict_base dev stamp n @ r) \<noteq> CHR ''/''"
  using basename_plain [of vp] split_ext_append [of "basename vp" n e]
  by (cases n) (auto simp: conflict_base_def, metis list.set_intros(1))

lemma conflict_path_seq_inj:
  assumes "conflict_path_seq dev stamp vp a = conflict_path_seq dev stamp vp b"
  shows "a = b"
proof -
  obtain n e where ne: "split_ext (basename vp) = (n, e)" by (cases "split_ext (basename vp)")
  let ?name = "\<lambda>k. conflict_base dev stamp n @ '' ('' @ show_nat k @ '')'' @ e"
  have "in_dir (dirname vp) (?name a) = in_dir (dirname vp) (?name b)"
    using assms by (simp add: conflict_path_seq_def ne)
  then have "?name a = ?name b"
    by (rule in_dir_inj [OF conflict_name_hd [OF ne] conflict_name_hd [OF ne]])
  then show ?thesis by (simp add: show_nat_inj)
qed

lemma taken_finite: "finite {n. lookup (conflict_path_seq dev stamp vp n) m \<noteq> None}"
proof (rule inj_on_finite)
  show "inj_on (conflict_path_seq dev stamp vp) {n. lookup (conflict_path_seq dev stamp vp n) m \<noteq> None}"
    using conflict_path_seq_inj by (auto intro: inj_onI)
  show "conflict_path_seq dev stamp vp ` {n. lookup (conflict_path_seq dev stamp vp n) m \<noteq> None}
      \<subseteq> virtual_path ` set (files m)"
    by (auto elim!: lookup_in intro: rev_image_eqI)
qed simp

lemma generated_free:
  "\<exists>cp. generate_conflict_name dev stamp vp m = Some cp \<and> lookup cp m = None"
proof (cases "lookup (conflict_path dev stamp vp) m")
  case None
  then show ?thesis by (simp add: generate_conflict_name_def)
next
  case (Some r)
  then show ?thesis
    using free_seq_returns [OF taken_finite, of dev stamp vp m 2]
    by (auto simp: generate_conflict_name_def)
qed

section \<open>Setting a record aside\<close>

definition set_status_row :: "string \<Rightarrow> string \<Rightarrow> mstore \<Rightarrow> mstore" where
  "set_status_row vp st m = commit (upd vp (\<lambda>r. r\<lparr>sync_status := st\<rparr>) m)"

lemma set_sync_ok: "st \<in> set valid_sync_statuses \<Longrightarrow> set_sync_status vp st m = (Inr (), set_status_row vp st m)"
  by (simp add: set_sync_status_def set_status_row_def)

lemma row_set_status: "row (set_status_row vp st m) =
    (row m)(vp := map_option (\<lambda>r. r\<lparr>sync_status := st\<rparr>) (row m vp))"
  by (simp add: set_status_row_def row_upd)

lemma distinct_set_status [simp]: "paths_distinct (set_status_row vp st m) = paths_distinct m"
  by (simp add: set_status_row_def distinct_upd)

text \<open>Either the record now is the conflict copy, or nothing happened but for its status.\<close>

lemma resolve_conflict_cases:
  assumes "paths_distinct m" and "row m vp = Some r" and "lookup vp m \<noteq> None \<or> deleted r"
  obtains cp m' where "resolve_conflict dev stamp vp m = Some (Inr cp, m')" "cp \<noteq> vp" "row m cp = None"
      "row m' = (row m)(vp := None, cp \<mapsto> r\<lparr>virtual_path := cp, sync_status := ''conflict''\<rparr>)"
      "paths_distinct m'"
    | cp m' where "resolve_conflict dev stamp vp m = Some (Inl SqlIntegrityError, m')"
      "lookup cp m = None" "row m cp \<noteq> None" "generate_conflict_name dev stamp vp m = Some cp"
      "row m' = (row m)(vp \<mapsto> r\<lparr>sync_status := ''pending''\<rparr>)" "paths_distinct m'"
    | m' where "generate_conflict_name dev stamp vp m = Some vp" "deleted r"
      "resolve_conflict dev stamp vp m = Some (Inr vp, m')"
      "row m' = (row m)(vp \<mapsto> r\<lparr>sync_status := ''conflict''\<rparr>)" "paths_distinct m'"
proof -
  obtain cp where cp: "generate_conflict_name dev stamp vp m = Some cp" "lookup cp m = None"
    using generated_free by blast
  have st: "''conflict'' \<in> set valid_sync_statuses" "''pending'' \<in> set valid_sync_statuses"
    by (simp_all add: valid_sync_statuses_def)
  consider "cp = vp" | "cp \<noteq> vp" "row m cp = None" | "cp \<noteq> vp" "row m cp \<noteq> None" by blast
  then show thesis
  proof cases
    case 1
    with assms cp have d: "deleted r" by auto
    have same: "map (\<lambda>r. if virtual_path r = vp then r\<lparr>virtual_path := vp\<rparr> else r) (files m) = files m"
      by (rule map_idI) auto
    have "rename_path vp vp m = (Inr (), commit m)"
      using rename_path_cases [OF assms(1), of vp vp] by (simp add: same)
    then have "resolve_conflict dev stamp vp m = Some (Inr vp, set_status_row vp ''conflict'' (commit m))"
      using cp 1 by (simp add: resolve_conflict_def set_sync_ok [OF st(1)])
    then show thesis
      using that(3) cp 1 d assms(1,2) by (simp add: row_set_status)
  next
    case 2
    then obtain t where t: "rename_path vp cp m = (Inr (), t)"
      using tbl.ren_free [OF assms(1,2), of cp] by blast
    have rt: "row t = (row m)(vp := None, cp \<mapsto> r\<lparr>virtual_path := cp\<rparr>)"
      using tbl.ren_get [OF assms(1) t _ assms(2)] 2(1) by simp
    have dt: "paths_distinct t" using tbl.inv_ren [OF assms(1), of vp cp] t by simp
    have "resolve_conflict dev stamp vp m = Some (Inr cp, set_status_row cp ''conflict'' t)"
      using cp t by (simp add: resolve_conflict_def set_sync_ok [OF st(1)])
    moreover have "row (set_status_row cp ''conflict'' t) =
        (row m)(vp := None, cp \<mapsto> r\<lparr>virtual_path := cp, sync_status := ''conflict''\<rparr>)"
      by (simp add: row_set_status rt)
    ultimately show thesis using that(1) 2 dt by simp
  next
    case 3
    then have "rename_path vp cp m = (Inl SqlIntegrityError, implicit_begin m)"
      using rename_path_cases [OF assms(1), of vp cp] assms(2) by simp
    then have "resolve_conflict dev stamp vp m =
        Some (Inl SqlIntegrityError, set_status_row vp ''pending'' (implicit_begin m))"
      using cp by (simp add: resolve_conflict_def set_sync_ok [OF st(2)])
    moreover have "row (implicit_begin m) = row m" "paths_distinct (implicit_begin m)"
      using assms(1) by (auto simp: implicit_begin_def split: option.split)
    ultimately show thesis
      using that(2) 3 cp assms(2) by (simp add: row_set_status)
  qed
qed

lemma suffix_in_dir: "suffix e n \<Longrightarrow> suffix e (in_dir d n)"
  by (auto simp: in_dir_def path_join_def suffix_def)

text \<open>A tombstone at the conflict path is invisible to the search, so the rename fails.\<close>

lemma conflict_onto_tombstone:
  "let m = delete_file_row ''/f (conflict - d - t)'' 5
        (insert_file ''/f (conflict - d - t)'' ''s'' ''q'' 1 0 0 None
          (insert_file ''/f'' ''s'' ''p'' 1 0 0 None empty_store))
   in map_option fst (resolve_conflict ''d'' ''t'' ''/f'' m) = Some (Inl SqlIntegrityError)"
  by code_simp

section \<open>Properties\<close>

text \<open>The search for a conflict name always returns, with a path that no live file has
  and that keeps the extension of the original.\<close>

lemma conflict_name_found:
  "\<exists>cp. generate_conflict_name dev stamp vp m = Some cp \<and> lookup cp m = None \<and>
    suffix (snd (split_ext (basename vp))) cp"
proof -
  obtain n e where ne: "split_ext (basename vp) = (n, e)" by (cases "split_ext (basename vp)")
  have "suffix e (conflict_path dev stamp vp)" and "suffix e (conflict_path_seq dev stamp vp k)" for k
    unfolding conflict_path_def conflict_path_seq_def ne Let_def prod.case
    by (intro suffix_in_dir; simp add: suffix_def)+
  then show ?thesis
    using generated_free [of dev stamp vp m] ne
    by (auto simp: generate_conflict_name_def split: if_splits)
qed

end
