(* ===== verification/Sync_Client.thy ===== *)
theory Sync_Client
  imports JBOD_Manager Conflict_Resolver
begin

text \<open>
  \<^verbatim>\<open>stardustlib/sync_client.py\<close>: synchronisation of the metadata database and of the
  key with the server. The server is not part of the repository: its answers are a list
  that the client consumes, one per request, and the requests sent are recorded. While a
  request is under way other threads may edit the local metadata; the edits they make
  come with the answer. The SQLite file format is a parameter (\<open>dump_db\<close>, \<open>parse_db\<close>).
\<close>

section \<open>State\<close>

datatype request =
    GetMetadata
  | PutMetadata "int option" bytes
  | GetStatus
  | PutKey bytes
  | GetKey
  | WaitVersion int

text \<open>The body of a response: its bytes, whether it parses as JSON, and the fields read.\<close>

record body =
  b_bytes :: bytes
  b_json :: bool
  b_version :: "int option"
  b_retention :: "int option"
  b_changed :: bool

text \<open>\<open>Failed\<close>: no token, a timeout, or any other exception while sending.\<close>

datatype answer = Failed | Resp int body

record sync =
  vol :: jbod
  last_synced_version :: int
  failures :: nat
  retention :: time
  last_sync_at :: "time option"
  script :: "(ms_op list \<times> answer) list"
  sent :: "request list"
  sync_key :: "bytes option"
  wait_enabled :: bool

record sync_env =
  je :: jenv
  cr :: crypto
  stamp :: string
  device_name :: string
  blob_iv :: bytes
  dump_db :: "mstore \<Rightarrow> bytes"
  parse_db :: "bytes \<Rightarrow> file_meta list option"
  db_present :: bool
  has_jbod :: bool
  state_writable :: bool

definition MAX_KEY_RETRIES :: nat where "MAX_KEY_RETRIES = 3"
definition MAX_CAS_RETRIES :: nat where "MAX_CAS_RETRIES = 5"
definition DEFAULT_RETENTION_DAYS :: int where "DEFAULT_RETENTION_DAYS = 30"

definition sync_init :: "jbod \<Rightarrow> bytes option \<Rightarrow> time option \<Rightarrow> (ms_op list \<times> answer) list \<Rightarrow> sync" where
  "sync_init j key seen ans = \<lparr>vol = j, last_synced_version = 0, failures = 0,
     retention = of_int (DEFAULT_RETENTION_DAYS * 86400), last_sync_at = seen, script = ans,
     sent = [], sync_key = key, wait_enabled = True\<rparr>"

definition store :: "sync \<Rightarrow> mstore" where
  "store s = md (vol s)"

definition on_store :: "(mstore \<Rightarrow> mstore) \<Rightarrow> sync \<Rightarrow> sync" where
  "on_store f s = s\<lparr>vol := set_md (f (md (vol s))) (vol s)\<rparr>"

text \<open>One request: the next answer of the script, after the edits made meanwhile.\<close>

definition ask :: "request \<Rightarrow> sync \<Rightarrow> answer \<times> sync" where
  "ask q s = (case script s of
     [] \<Rightarrow> (Failed, s\<lparr>sent := sent s @ [q]\<rparr>)
   | (ops, a) # rest \<Rightarrow>
       (a, (on_store (fold ms_step ops) s)\<lparr>script := rest, sent := sent s @ [q]\<rparr>))"

section \<open>The encrypted database\<close>

definition encrypt_blob :: "sync_env \<Rightarrow> bytes option \<Rightarrow> bytes \<Rightarrow> bytes" where
  "encrypt_blob e key plaintext = (case key of
     None \<Rightarrow> plaintext
   | Some k \<Rightarrow>
       (let ct_with_tag = aesgcm_encrypt (cr e) k (blob_iv e) plaintext;
            n = length ct_with_tag - 16
        in blob_iv e @ drop n ct_with_tag @ take n ct_with_tag))"

definition decrypt_blob :: "sync_env \<Rightarrow> bytes option \<Rightarrow> bytes \<Rightarrow> bytes result" where
  "decrypt_blob e key d = (case key of
     None \<Rightarrow> Inr d
   | Some k \<Rightarrow>
       if length d < 28 then Inl KeyMismatchError
       else (case aesgcm_decrypt (cr e) k (take 12 d) (drop 28 d @ take 16 (drop 12 d)) of
         None \<Rightarrow> Inl KeyMismatchError
       | Some p \<Rightarrow> Inr p))"

section \<open>Merging\<close>

text \<open>The columns both statements set, as an update of a row.\<close>

definition adopt :: "file_meta \<Rightarrow> file_row \<Rightarrow> file_row" where
  "adopt m r = r\<lparr>source_id := source_id m, physical_path := physical_path m,
     file_size := file_size m, modified_at := modified_at m, version := version m,
     device_id := device_id m, sync_status := ''synced'', deleted := deleted m\<rparr>"

definition server_row :: "file_meta \<Rightarrow> file_row" where
  "server_row m = \<lparr>virtual_path = virtual_path m, source_id = source_id m,
     physical_path = physical_path m, file_size = file_size m, created_at = created_at m,
     modified_at = modified_at m, version = version m, device_id = device_id m,
     sync_status = ''synced'', deleted = deleted m, replication_status = ''none''\<rparr>"

definition insert_from_server :: "file_meta \<Rightarrow> mstore \<Rightarrow> mstore" where
  "insert_from_server m s = (case lookup_any (virtual_path m) s of
     Some x \<Rightarrow> commit (upd (virtual_path m) (\<lambda>r. (adopt m r)\<lparr>created_at := created_at m\<rparr>) s)
   | None \<Rightarrow> commit (add_row (server_row m) s))"

definition update_from_server :: "sync_env \<Rightarrow> file_meta \<Rightarrow> jbod \<Rightarrow> jbod" where
  "update_from_server e m j =
     (let j1 = (if deleted m \<and> has_jbod e then
         (case lookup (virtual_path m) (md j) of
           None \<Rightarrow> j
         | Some l \<Rightarrow>
             (case source_index (source_id l) j of
               None \<Rightarrow> j
             | Some i \<Rightarrow>
                 if src_active (sources j ! i)
                 then snd (on_source i (src_delete (os (je e)) (physical_path l)) j) else j))
         else j)
      in set_md (commit (upd (virtual_path m) (adopt m) (md j1))) j1)"

definition detect_ownership_loss :: "sync_env \<Rightarrow> file_meta \<Rightarrow> file_meta \<Rightarrow> jbod \<Rightarrow> jbod" where
  "detect_ownership_loss e l m j =
     (if \<not> has_jbod e \<or> dev j = None \<or> deleted m then j
      else if device_id l = dev j \<and> device_id m \<noteq> dev j then mark_gc_needed j
      else j)"

definition handle_conflict :: "sync_env \<Rightarrow> file_meta \<Rightarrow> jbod \<Rightarrow> jbod" where
  "handle_conflict e m j =
     (case resolve_conflict (device_name e) (stamp e) (virtual_path m) (md j) of
       None \<Rightarrow> j
     | Some (Inl x, t) \<Rightarrow> set_md t j
     | Some (Inr cp, t) \<Rightarrow> set_md (insert_from_server m t) j)"

definition merge_record :: "sync_env \<Rightarrow> file_meta \<Rightarrow> jbod \<Rightarrow> jbod" where
  "merge_record e m j =
     (case lookup_any (virtual_path m) (md j) of
       None \<Rightarrow> if deleted m then j else set_md (insert_from_server m (md j)) j
     | Some l \<Rightarrow>
         (let base = (if sync_status l = ''pending'' then version l - 1 else version l) in
          if detect_conflict (version m) (version l) base then handle_conflict e m j
          else if version l < version m
          then update_from_server e m (detect_ownership_loss e l m j)
          else j))"

definition merge_server_metadata :: "sync_env \<Rightarrow> bytes \<Rightarrow> sync \<Rightarrow> unit result \<times> sync" where
  "merge_server_metadata e blob s =
     (case decrypt_blob e (sync_key s) blob of
       Inl x \<Rightarrow> (Inl x, s)
     | Inr plain \<Rightarrow>
         (case parse_db e plain of
           None \<Rightarrow> (Inl KeyMismatchError, s)
         | Some recs \<Rightarrow> (Inr (), s\<lparr>vol := fold (merge_record e) recs (vol s)\<rparr>)))"

section \<open>Tombstones and the sync state file\<close>

definition gc_tombstones :: "sync_env \<Rightarrow> sync \<Rightarrow> sync" where
  "gc_tombstones e s = on_store (\<lambda>m. snd (purge_expired_tombstones (now (je e)) (retention s) m)) s"

definition record_sync_success :: "sync_env \<Rightarrow> sync \<Rightarrow> sync" where
  "record_sync_success e s = (if state_writable e then s\<lparr>last_sync_at := Some (now (je e))\<rparr> else s)"

definition is_stale :: "sync_env \<Rightarrow> sync \<Rightarrow> bool" where
  "is_stale e s \<longleftrightarrow> (case last_sync_at s of None \<Rightarrow> False | Some t \<Rightarrow> retention s < now (je e) - t)"

definition set_retention :: "int option \<Rightarrow> sync \<Rightarrow> sync" where
  "set_retention days s = (case days of
     None \<Rightarrow> s | Some d \<Rightarrow> if 0 < d then s\<lparr>retention := of_int (d * 86400)\<rparr> else s)"

definition fetch_retention_days :: "sync \<Rightarrow> sync" where
  "fetch_retention_days s = (case ask GetStatus s of
     (Resp st b, s') \<Rightarrow> if st = 200 \<and> b_json b then set_retention (b_retention b) s' else s'
   | (Failed, s') \<Rightarrow> s')"

section \<open>Uploading\<close>

definition mark_synced :: "file_meta list \<Rightarrow> sync \<Rightarrow> sync" where
  "mark_synced fs s =
     on_store (fold (\<lambda>f m. snd (set_sync_status (virtual_path f) ''synced'' m)) fs) s"

definition take_version :: "body \<Rightarrow> sync \<Rightarrow> sync" where
  "take_version b s = (if b_json b then
     (case b_version b of None \<Rightarrow> s | Some v \<Rightarrow> s\<lparr>last_synced_version := v\<rparr>) else s)"

definition force_upload :: "sync_env \<Rightarrow> sync \<Rightarrow> sync" where
  "force_upload e s =
     (if \<not> db_present e then s
      else (case ask (PutMetadata None (encrypt_blob e (sync_key s) (dump_db e (store s)))) s of
        (Failed, s') \<Rightarrow> s'
      | (Resp st b, s') \<Rightarrow>
          if st < 400 then
            (let t = take_version b s' in
             record_sync_success e (mark_synced (get_pending_files (store t)) t))
          else s'))"

text \<open>\<open>_download_and_merge\<close> catches whatever goes wrong; the version is taken only after a
  complete merge.\<close>

definition download_and_merge :: "sync_env \<Rightarrow> sync \<Rightarrow> sync" where
  "download_and_merge e s =
     (case ask GetStatus s of
       (Failed, s1) \<Rightarrow> s1
     | (Resp st b, s1) \<Rightarrow>
         if st \<noteq> 200 \<or> \<not> b_json b then s1
         else (let s2 = set_retention (b_retention b) s1 in
           case b_version b of
             None \<Rightarrow> force_upload e s2
           | Some v \<Rightarrow>
               if v \<le> last_synced_version s2 then s2
               else (case ask GetMetadata s2 of
                 (Failed, s3) \<Rightarrow> s3
               | (Resp st' b', s3) \<Rightarrow>
                   if st' \<noteq> 200 then s3
                   else (case merge_server_metadata e (b_bytes b') s3 of
                     (Inl x, s4) \<Rightarrow> s4
                   | (Inr _, s4) \<Rightarrow>
                       record_sync_success e (gc_tombstones e (s4\<lparr>last_synced_version := v\<rparr>))))))"

definition count_failure :: "sync \<Rightarrow> sync" where
  "count_failure s = s\<lparr>failures := failures s + 1\<rparr>"

text \<open>The loop of \<open>upload_metadata\<close>; the first argument is the number of attempts left.\<close>

fun upload_loop :: "nat \<Rightarrow> sync_env \<Rightarrow> sync \<Rightarrow> sync" where
  "upload_loop 0 e s = s"
| "upload_loop (Suc n) e s =
     (let pending = get_pending_files (store s) in
      if pending = [] then s
      else (case ask (PutMetadata (Some (last_synced_version s))
               (encrypt_blob e (sync_key s) (dump_db e (store s)))) s of
        (Failed, s') \<Rightarrow> count_failure s'
      | (Resp st b, s') \<Rightarrow>
          if st = 409 then upload_loop n e (download_and_merge e s')
          else if 400 \<le> st then count_failure s'
          else record_sync_success e (mark_synced pending (take_version b (s'\<lparr>failures := 0\<rparr>)))))"

definition upload_metadata :: "sync_env \<Rightarrow> sync \<Rightarrow> sync" where
  "upload_metadata e s =
     (if get_pending_files (store s) = [] then s
      else if \<not> db_present e then s
      else upload_loop MAX_CAS_RETRIES e (gc_tombstones e s))"

section \<open>The key backup\<close>

fun upload_key_loop :: "nat \<Rightarrow> bytes \<Rightarrow> sync \<Rightarrow> unit result \<times> sync" where
  "upload_key_loop 0 blob s = (Inl SyncError, s)"
| "upload_key_loop (Suc n) blob s = (case ask (PutKey blob) s of
     (Resp st b, s') \<Rightarrow> if st < 400 then (Inr (), s') else upload_key_loop n blob s'
   | (Failed, s') \<Rightarrow> upload_key_loop n blob s')"

definition upload_key :: "bytes \<Rightarrow> sync \<Rightarrow> unit result \<times> sync" where
  "upload_key blob s = upload_key_loop MAX_KEY_RETRIES blob s"

fun download_key_loop :: "nat \<Rightarrow> sync \<Rightarrow> bytes result \<times> sync" where
  "download_key_loop 0 s = (Inl SyncError, s)"
| "download_key_loop (Suc n) s = (case ask GetKey s of
     (Resp st b, s') \<Rightarrow>
       if st = 404 then (Inl KeyNotFoundError, s')
       else if st < 400 then (Inr (b_bytes b), s')
       else download_key_loop n s'
   | (Failed, s') \<Rightarrow> download_key_loop n s')"

definition download_key :: "sync \<Rightarrow> bytes result \<times> sync" where
  "download_key s = download_key_loop MAX_KEY_RETRIES s"

section \<open>The cycles\<close>

definition run_orphan_gc :: "sync_env \<Rightarrow> bool \<Rightarrow> sync \<Rightarrow> sync" where
  "run_orphan_gc e startup s =
     (if \<not> has_jbod e then s
      else s\<lparr>vol := snd (if startup then gc_orphan_files (je e) (vol s)
                          else gc_orphan_files_if_needed (je e) (vol s))\<rparr>)"

definition initial_sync :: "sync_env \<Rightarrow> sync \<Rightarrow> unit result \<times> sync" where
  "initial_sync e s =
     (case ask GetMetadata s of
       (Failed, s') \<Rightarrow> (Inr (), s')
     | (Resp st b, s') \<Rightarrow>
         if st = 404 then (Inr (), force_upload e s')
         else if 400 \<le> st then (Inr (), s')
         else (case merge_server_metadata e (b_bytes b) s' of
           (Inl x, s'') \<Rightarrow> (Inl x, s'')
         | (Inr _, s'') \<Rightarrow> (Inr (), run_orphan_gc e True s'')))"

text \<open>One round of \<open>_periodic_loop\<close>, and what follows a change notice of the long poll.\<close>

definition sync_cycle :: "sync_env \<Rightarrow> sync \<Rightarrow> sync" where
  "sync_cycle e s = run_orphan_gc e False (upload_metadata e (download_and_merge e s))"

definition on_version_changed :: "sync_env \<Rightarrow> sync \<Rightarrow> sync" where
  "on_version_changed e s = run_orphan_gc e False (download_and_merge e s)"

datatype wait_result = Changed bool | Unsupported | WaitFailed

definition wait_for_version :: "sync \<Rightarrow> wait_result \<times> sync" where
  "wait_for_version s = (case ask (WaitVersion (last_synced_version s)) s of
     (Failed, s') \<Rightarrow> (WaitFailed, s')
   | (Resp st b, s') \<Rightarrow>
       if st = 404 then (Unsupported, s')
       else if 400 \<le> st then (Changed False, s')
       else if \<not> b_json b then (WaitFailed, s')
       else (Changed (b_changed b), s'))"

text \<open>One round of \<open>_version_wait_loop\<close>; the flag says whether the loop goes on.\<close>

definition version_wait_round :: "sync_env \<Rightarrow> sync \<Rightarrow> bool \<times> sync" where
  "version_wait_round e s =
     (if \<not> wait_enabled s then (False, s)
      else (case wait_for_version s of
        (Unsupported, s') \<Rightarrow> (False, s'\<lparr>wait_enabled := False\<rparr>)
      | (WaitFailed, s') \<Rightarrow> (True, s')
      | (Changed c, s') \<Rightarrow> (True, if c then on_version_changed e s' else s')))"

text \<open>Setting unsynchronised edits aside before adopting the server's state.\<close>

definition isolate :: "sync_env \<Rightarrow> file_meta \<Rightarrow> nat \<times> mstore \<Rightarrow> nat \<times> mstore" where
  "isolate e f c = (case c of (n, m) \<Rightarrow>
     if deleted f then (n, m)
     else (case generate_conflict_name (device_name e) (stamp e) (virtual_path f) m of
       None \<Rightarrow> (n, m)
     | Some cp \<Rightarrow>
         (case rename_path (virtual_path f) cp m of
           (Inl x, m1) \<Rightarrow> (n, m1)
         | (Inr _, m1) \<Rightarrow> (n + 1, snd (set_sync_status cp ''pending'' m1)))))"

definition reconcile_if_stale :: "sync_env \<Rightarrow> sync \<Rightarrow> bool result \<times> sync" where
  "reconcile_if_stale e s =
     (let s1 = fetch_retention_days s in
      if \<not> is_stale e s1 then (Inr False, s1)
      else (let (n, m) = fold (isolate e) (get_pending_files (store s1)) (0, store s1);
                s2 = (on_store (\<lambda>_. m) s1)\<lparr>last_synced_version := 0\<rparr>
        in case initial_sync e s2 of
             (Inl x, s3) \<Rightarrow> (Inl x, s3)
           | (Inr _, s3) \<Rightarrow> (Inr True, if 0 < n then upload_metadata e s3 else s3)))"

section \<open>Rows after a merge\<close>

lemma adopt_path [simp]: "virtual_path (adopt m r) = virtual_path r"
  by (simp add: adopt_def)

lemma server_row_path [simp]: "virtual_path (server_row m) = virtual_path m"
  by (simp add: server_row_def)

lemma row_insert_from_server:
  "row (insert_from_server m t) = (row t)(virtual_path m \<mapsto>
     (case row t (virtual_path m) of None \<Rightarrow> server_row m
      | Some r \<Rightarrow> (adopt m r)\<lparr>created_at := created_at m\<rparr>))"
proof (cases "row t (virtual_path m)")
  case None
  then show ?thesis
    using row_add [of t "server_row m"] by (simp add: insert_from_server_def lookup_any_row)
next
  case (Some r)
  then show ?thesis by (simp add: insert_from_server_def lookup_any_row row_upd)
qed

lemma distinct_insert_from_server:
  "paths_distinct t \<Longrightarrow> paths_distinct (insert_from_server m t)"
  using tbl.inv_add [of t "server_row m"]
  by (cases "row t (virtual_path m)") (simp_all add: insert_from_server_def lookup_any_row distinct_upd)

lemma on_source_md [simp]: "md (snd (on_source i f j)) = md j"
  by (simp add: on_source_def)

lemma update_from_server_md:
  "md (update_from_server e m j) = commit (upd (virtual_path m) (adopt m) (md j))"
  by (auto simp: update_from_server_def Let_def set_md_def split: option.split)

lemma row_update_from_server:
  "row (md (update_from_server e m j)) =
    (row (md j))(virtual_path m := map_option (adopt m) (row (md j) (virtual_path m)))"
  by (simp add: update_from_server_md row_upd)

lemma detect_ownership_md [simp]: "md (detect_ownership_loss e l m j) = md j"
  by (simp add: detect_ownership_loss_def mark_gc_needed_def)

text \<open>The conditions of the merge, read back from the base version the code computes.\<close>

definition conflicting :: "file_row \<Rightarrow> file_meta \<Rightarrow> bool" where
  "conflicting l m \<longleftrightarrow> sync_status l = ''pending'' \<and> version l \<le> version m"

lemma merge_record_known:
  assumes "row (md j) (virtual_path m) = Some l"
  shows "merge_record e m j =
    (if conflicting l m then handle_conflict e m j
     else if version l < version m
     then update_from_server e m (detect_ownership_loss e (meta_of l) m j) else j)"
  using assms by (auto simp: merge_record_def lookup_any_row detect_conflict_def conflicting_def Let_def)

lemma merge_record_unknown:
  assumes "row (md j) (virtual_path m) = None"
  shows "merge_record e m j = (if deleted m then j else set_md (insert_from_server m (md j)) j)"
  using assms by (simp add: merge_record_def lookup_any_row)

lemma set_md_md [simp]: "md (set_md t j) = t"
  by (simp add: set_md_def)

lemma handle_conflict_cases:
  assumes "paths_distinct (md j)" and l: "row (md j) (virtual_path m) = Some l"
  obtains cp where "cp \<noteq> virtual_path m" "row (md j) cp = None"
      "generate_conflict_name (device_name e) (stamp e) (virtual_path m) (md j) = Some cp"
      "row (md (handle_conflict e m j)) = (row (md j))(virtual_path m \<mapsto> server_row m,
         cp \<mapsto> l\<lparr>virtual_path := cp, sync_status := ''conflict''\<rparr>)"
      "paths_distinct (md (handle_conflict e m j))"
    | cp where "row (md j) cp \<noteq> None" "lookup cp (md j) = None"
      "generate_conflict_name (device_name e) (stamp e) (virtual_path m) (md j) = Some cp"
      "row (md (handle_conflict e m j)) = (row (md j))(virtual_path m \<mapsto> l\<lparr>sync_status := ''pending''\<rparr>)"
      "paths_distinct (md (handle_conflict e m j))"
    | "deleted l" "generate_conflict_name (device_name e) (stamp e) (virtual_path m) (md j) = Some (virtual_path m)"
      "row (md (handle_conflict e m j)) = (row (md j))(virtual_path m \<mapsto>
         (adopt m (l\<lparr>sync_status := ''conflict''\<rparr>))\<lparr>created_at := created_at m\<rparr>)"
      "paths_distinct (md (handle_conflict e m j))"
proof -
  let ?vp = "virtual_path m"
  have live: "lookup ?vp (md j) \<noteq> None \<or> deleted l"
    using l by (simp add: lookup_row [OF assms(1)])
  obtain cp0 where g: "generate_conflict_name (device_name e) (stamp e) ?vp (md j) = Some cp0"
    using generated_free by blast
  show thesis
  proof (rule resolve_conflict_cases [OF assms(1) l live, of "device_name e" "stamp e"])
    fix cp t
    assume r: "resolve_conflict (device_name e) (stamp e) ?vp (md j) = Some (Inr cp, t)"
      and a: "cp \<noteq> ?vp" "row (md j) cp = None"
        "row t = (row (md j))(?vp := None, cp \<mapsto> l\<lparr>virtual_path := cp, sync_status := ''conflict''\<rparr>)"
        "paths_distinct t"
    have "cp = cp0"
      using r g by (auto simp: resolve_conflict_def split: prod.splits sum.splits)
    moreover have "row (insert_from_server m t) = (row (md j))(?vp \<mapsto> server_row m,
        cp \<mapsto> l\<lparr>virtual_path := cp, sync_status := ''conflict''\<rparr>)"
      using a(1,3) by (simp add: row_insert_from_server fun_upd_twist)
    ultimately show thesis
      using that(1) a g r distinct_insert_from_server [OF a(4)] by (simp add: handle_conflict_def)
  next
    fix cp t
    assume r: "resolve_conflict (device_name e) (stamp e) ?vp (md j) = Some (Inl SqlIntegrityError, t)"
      and a: "lookup cp (md j) = None" "row (md j) cp \<noteq> None"
        "generate_conflict_name (device_name e) (stamp e) ?vp (md j) = Some cp"
        "row t = (row (md j))(?vp \<mapsto> l\<lparr>sync_status := ''pending''\<rparr>)" "paths_distinct t"
    then show thesis using that(2) by (simp add: handle_conflict_def)
  next
    fix t
    assume "generate_conflict_name (device_name e) (stamp e) ?vp (md j) = Some ?vp" "deleted l"
      and "resolve_conflict (device_name e) (stamp e) ?vp (md j) = Some (Inr ?vp, t)"
        "row t = (row (md j))(?vp \<mapsto> l\<lparr>sync_status := ''conflict''\<rparr>)" "paths_distinct t"
    then show thesis
      using that(3) distinct_insert_from_server [of t m]
      by (simp add: handle_conflict_def row_insert_from_server)
  qed
qed

lemma merge_distinct: "paths_distinct (md j) \<Longrightarrow> paths_distinct (md (merge_record e m j))"
proof (cases "row (md j) (virtual_path m)")
  case None
  then show "paths_distinct (md j) \<Longrightarrow> ?thesis"
    by (simp add: merge_record_unknown distinct_insert_from_server)
next
  case (Some l)
  assume d: "paths_distinct (md j)"
  have "paths_distinct (md (handle_conflict e m j))"
    by (rule handle_conflict_cases [OF d Some, of e])
  then show ?thesis
    using d by (simp add: merge_record_known [OF Some] update_from_server_md distinct_upd)
qed

text \<open>A merge touches the record's own path, and at most one path that was free.\<close>

lemma merge_frame:
  assumes d: "paths_distinct (md j)" and "q \<noteq> virtual_path m" and "row (md j) q = Some x"
  shows "row (md (merge_record e m j)) q = Some x"
proof (cases "row (md j) (virtual_path m)")
  case None
  with assms show ?thesis by (simp add: merge_record_unknown row_insert_from_server)
next
  case (Some l)
  have "row (md (handle_conflict e m j)) q = Some x"
    by (rule handle_conflict_cases [OF d Some, of e]) (use assms(2,3) in auto)
  then show ?thesis
    using assms by (simp add: merge_record_known [OF Some] row_update_from_server)
qed

lemma merge_pending:
  assumes d: "paths_distinct (md j)" and r: "row (md j) (virtual_path m) = Some r"
    and "sync_status r = ''pending''" and "\<not> deleted r"
  shows "row (md (merge_record e m j)) (virtual_path m) = Some r \<or>
    (\<exists>cp. cp \<noteq> virtual_path m \<and>
       generate_conflict_name (device_name e) (stamp e) (virtual_path m) (md j) = Some cp \<and>
       row (md (merge_record e m j)) cp = Some (r\<lparr>virtual_path := cp, sync_status := ''conflict''\<rparr>) \<and>
       row (md (merge_record e m j)) (virtual_path m) = Some (server_row m))"
proof (cases "version r \<le> version m")
  case True
  then have c: "conflicting r m" using assms(3) by (simp add: conflicting_def)
  have same: "r\<lparr>sync_status := ''pending''\<rparr> = r" using assms(3) by (cases r) simp
  show ?thesis
    unfolding merge_record_known [OF r] if_P [OF c]
    by (rule handle_conflict_cases [OF d r, of e]) (use assms(4) same in auto)
next
  case False
  then show ?thesis using r by (simp add: merge_record_known [OF r] conflicting_def)
qed

section \<open>Merging a whole database\<close>

text \<open>No path of the server's database is a conflict name of this device and second.\<close>

definition fresh_stamp :: "sync_env \<Rightarrow> file_meta list \<Rightarrow> bool" where
  "fresh_stamp e recs \<longleftrightarrow> (\<forall>x \<in> set recs. \<forall>a t.
     generate_conflict_name (device_name e) (stamp e) a t \<noteq> Some (virtual_path x))"

lemma generated_has_paren:
  assumes "generate_conflict_name dn st a t = Some cp"
  shows "CHR ''('' \<in> set cp"
proof -
  have "CHR ''('' \<in> set (in_dir d n)" if "CHR ''('' \<in> set n" for d n
    using that by (auto simp: in_dir_def path_join_def)
  with assms show ?thesis
    by (auto simp: generate_conflict_name_def conflict_path_def conflict_path_seq_def conflict_base_def
        Let_def split: if_splits prod.splits)
qed

definition kept_or_copied :: "sync_env \<Rightarrow> string \<Rightarrow> file_row \<Rightarrow> mstore \<Rightarrow> bool" where
  "kept_or_copied e p r t \<longleftrightarrow> row t p = Some r \<or>
     (\<exists>cp a u. generate_conflict_name (device_name e) (stamp e) a u = Some cp \<and>
        row t cp = Some (r\<lparr>virtual_path := cp, sync_status := ''conflict''\<rparr>))"

lemma kept_or_copied_step:
  assumes "paths_distinct (md j)" and "sync_status r = ''pending''" and "\<not> deleted r"
    and "kept_or_copied e p r (md j)" and "fresh_stamp e (m # recs)"
  shows "kept_or_copied e p r (md (merge_record e m j))"
  using assms(4) unfolding kept_or_copied_def
proof (elim disjE exE conjE)
  assume "row (md j) p = Some r"
  then show "row (md (merge_record e m j)) p = Some r \<or> (\<exists>cp a u.
      generate_conflict_name (device_name e) (stamp e) a u = Some cp \<and>
      row (md (merge_record e m j)) cp = Some (r\<lparr>virtual_path := cp, sync_status := ''conflict''\<rparr>))"
    using merge_pending [OF assms(1) _ assms(2,3), of m e] merge_frame [OF assms(1), of p m r e] by blast
next
  fix cp a u
  assume g: "generate_conflict_name (device_name e) (stamp e) a u = Some cp"
    and c: "row (md j) cp = Some (r\<lparr>virtual_path := cp, sync_status := ''conflict''\<rparr>)"
  have "cp \<noteq> virtual_path m" using g assms(5) by (auto simp: fresh_stamp_def)
  with merge_frame [OF assms(1) _ c] g show "row (md (merge_record e m j)) p = Some r \<or> (\<exists>cp a u.
      generate_conflict_name (device_name e) (stamp e) a u = Some cp \<and>
      row (md (merge_record e m j)) cp = Some (r\<lparr>virtual_path := cp, sync_status := ''conflict''\<rparr>))"
    by blast
qed

lemma kept_or_copied_fold:
  assumes "paths_distinct (md j)" and "sync_status r = ''pending''" and "\<not> deleted r"
    and "kept_or_copied e p r (md j)" and "fresh_stamp e recs"
  shows "kept_or_copied e p r (md (fold (merge_record e) recs j))"
  using assms
proof (induction recs arbitrary: j)
  case (Cons m recs)
  have "fresh_stamp e recs" using Cons.prems(5) by (simp add: fresh_stamp_def)
  with Cons show ?case
    using kept_or_copied_step [OF Cons.prems] merge_distinct [OF Cons.prems(1)] by simp
qed simp

text \<open>A device without unsynchronised changes.\<close>

definition no_pending :: "mstore \<Rightarrow> bool" where
  "no_pending t \<longleftrightarrow> (\<forall>p r. row t p = Some r \<longrightarrow> sync_status r \<noteq> ''pending'')"

definition merged_row :: "file_meta \<Rightarrow> file_row option \<Rightarrow> file_row option" where
  "merged_row m old = (case old of
     None \<Rightarrow> if deleted m then None else Some (server_row m)
   | Some l \<Rightarrow> if version l < version m then Some (adopt m l) else Some l)"

lemma merge_clean:
  assumes "no_pending (md j)"
  shows "row (md (merge_record e m j)) =
    (row (md j))(virtual_path m := merged_row m (row (md j) (virtual_path m)))"
proof (cases "row (md j) (virtual_path m)")
  case None
  then show ?thesis
    by (auto simp: merge_record_unknown merged_row_def row_insert_from_server fun_upd_idem)
next
  case (Some l)
  then have "\<not> conflicting l m" using assms by (auto simp: no_pending_def conflicting_def)
  with Some show ?thesis
    by (auto simp: merge_record_known merged_row_def row_update_from_server fun_upd_idem)
qed

lemma merge_no_pending: "no_pending (md j) \<Longrightarrow> no_pending (md (merge_record e m j))"
  unfolding no_pending_def [of "md (merge_record e m j)"] merge_clean
  by (auto simp: merged_row_def no_pending_def server_row_def adopt_def split: option.splits if_splits)

lemma merge_clean_fold:
  assumes "no_pending (md j)" and "distinct (map virtual_path recs)"
  shows "row (md (fold (merge_record e) recs j)) q =
    (case find (\<lambda>m. virtual_path m = q) recs of
       None \<Rightarrow> row (md j) q | Some m \<Rightarrow> merged_row m (row (md j) q))"
  using assms
proof (induction recs arbitrary: j)
  case (Cons m recs)
  have "find (\<lambda>x. virtual_path x = virtual_path m) recs = None"
    using Cons.prems(2) by (auto simp: find_None_iff image_iff)
  with Cons.IH [OF merge_no_pending [OF Cons.prems(1), of e m]] Cons.prems show ?case
    by (auto simp: merge_clean split: option.split)
qed simp

section \<open>The database blob\<close>

lemma blob_roundtrip:
  assumes "aead (cr e)" and "length (blob_iv e) = 12"
  shows "decrypt_blob e key (encrypt_blob e key p) = Inr p"
proof (cases key)
  case (Some k)
  obtain c t where ct: "gcm_enc (cr e) k (blob_iv e) p = (c, t)"
    by (cases "gcm_enc (cr e) k (blob_iv e) p")
  then have t: "length t = 16" using assms(1) by simp
  have "gcm_dec (cr e) k (blob_iv e) t c = Some p" using aead_dec [OF assms(1)] ct by simp
  then show ?thesis
    using Some t assms(2)
    by (simp add: encrypt_blob_def decrypt_blob_def aesgcm_encrypt_def ct Let_def aesgcm_decrypt_append)
qed (simp add: encrypt_blob_def decrypt_blob_def)

section \<open>Requests\<close>

lemma ask_sent: "sent (snd (ask q s)) = sent s @ [q]"
  by (simp add: ask_def on_store_def split: list.split prod.split)

lemma ask_quiet:
  "script s = ([], a) # rest \<Longrightarrow> ask q s = (a, s\<lparr>script := rest, sent := sent s @ [q]\<rparr>)"
  by (simp add: ask_def on_store_def set_md_def)

lemma sent_frames [simp]:
  "sent (on_store f s) = sent s" "sent (gc_tombstones e s) = sent s"
  "sent (record_sync_success e s) = sent s" "sent (set_retention d s) = sent s"
  "sent (mark_synced fs s) = sent s" "sent (take_version b s) = sent s"
  "sent (count_failure s) = sent s"
  by (auto simp: on_store_def gc_tombstones_def record_sync_success_def set_retention_def
      mark_synced_def take_version_def count_failure_def split: option.split)

lemma merge_sent: "sent (snd (merge_server_metadata e b s)) = sent s"
  by (simp add: merge_server_metadata_def split: sum.split option.split)

definition requests :: "sync \<Rightarrow> nat" where
  "requests s = length (sent s)"

lemma requests_ask: "ask q s = (a, s') \<Longrightarrow> requests s' = Suc (requests s)"
  using ask_sent [of q s] by (simp add: requests_def)

lemma requests_force: "requests (force_upload e s) \<le> Suc (requests s)"
proof -
  have "requests s' = Suc (requests s)" if "ask q s = (a, s')" for q a s'
    using requests_ask [OF that] .
  then show ?thesis
    by (auto simp: force_upload_def Let_def requests_def [of "record_sync_success e t" for t]
        simp flip: requests_def split: prod.split answer.split)
qed

lemma requests_download: "requests (download_and_merge e s) \<le> requests s + 2"
proof -
  obtain a s1 where a: "ask GetStatus s = (a, s1)" by (cases "ask GetStatus s")
  note r1 = requests_ask [OF a]
  show ?thesis
  proof (cases a)
    case Failed
    with a r1 show ?thesis by (simp add: download_and_merge_def)
  next
    case (Resp st b)
    let ?s2 = "set_retention (b_retention b) s1"
    have r2: "requests ?s2 = requests s1" by (simp add: requests_def)
    obtain a' s3 where a': "ask GetMetadata ?s2 = (a', s3)" by (cases "ask GetMetadata ?s2")
    have r3: "requests s3 = requests s + 2" using requests_ask [OF a'] r1 r2 by simp
    have r4: "merge_server_metadata e bb s3 = (x, s4) \<Longrightarrow> requests s4 = requests s3" for bb x s4
      using merge_sent [of e bb s3] by (simp add: requests_def)
    have r5: "requests (record_sync_success e (gc_tombstones e (t\<lparr>last_synced_version := v\<rparr>))) = requests t" for t v
      by (simp add: requests_def)
    show ?thesis
      using Resp a a' r1 r2 r3 r4 r5 requests_force [of e ?s2]
      by (auto dest!: r4 simp: download_and_merge_def Let_def split: option.split answer.split sum.split prod.split)
  qed
qed

lemma requests_upload_loop: "requests (upload_loop n e s) \<le> requests s + 3 * n"
proof (induction n arbitrary: s)
  case (Suc n)
  let ?q = "PutMetadata (Some (last_synced_version s)) (encrypt_blob e (sync_key s) (dump_db e (store s)))"
  obtain a s' where a: "ask ?q s = (a, s')" by (cases "ask ?q s")
  note r = requests_ask [OF a]
  have f: "requests (count_failure t) = requests t"
    "requests (record_sync_success e (mark_synced fs (take_version b (t\<lparr>failures := 0\<rparr>)))) = requests t" for t fs b
    by (simp_all add: requests_def)
  show ?case
    using a r f Suc [of "download_and_merge e s'"] requests_download [of e s']
    by (auto simp: Let_def split: answer.split)
qed simp

section \<open>Marking as synchronised\<close>

lemma fold_sync_files:
  "files (fold (\<lambda>f m. snd (set_sync_status (virtual_path (f :: file_meta)) ''synced'' m)) fs m) =
    map (\<lambda>r. if virtual_path r \<in> virtual_path ` set fs then r\<lparr>sync_status := ''synced''\<rparr> else r) (files m)"
proof (induction fs arbitrary: m)
  case (Cons f fs)
  have "files (snd (set_sync_status (virtual_path f) ''synced'' m)) =
      map (\<lambda>r. if virtual_path r = virtual_path f then r\<lparr>sync_status := ''synced''\<rparr> else r) (files m)"
    by (simp add: set_sync_status_def valid_sync_statuses_def upd_def)
  with Cons show ?case by auto
qed simp

lemma mark_synced_none_pending:
  "get_pending_files (store (mark_synced (get_pending_files (store s)) s)) = []"
  by (auto simp: get_pending_files_def mark_synced_def on_store_def store_def set_md_def
      fold_sync_files filter_empty_conv image_image)

lemma purge_pending:
  "get_pending_files (store (gc_tombstones e s)) \<noteq> [] \<Longrightarrow> get_pending_files (store s) \<noteq> []"
  by (auto simp: gc_tombstones_def on_store_def store_def set_md_def purge_expired_tombstones_def
      get_pending_files_def filter_empty_conv)

lemma gc_frames [simp]:
  "script (gc_tombstones e s) = script s" "sync_key (gc_tombstones e s) = sync_key s"
  "last_synced_version (gc_tombstones e s) = last_synced_version s" "failures (gc_tombstones e s) = failures s"
  by (simp_all add: gc_tombstones_def on_store_def)

lemma store_frames [simp]:
  "store (s\<lparr>script := r, sent := q\<rparr>) = store s" "store (s\<lparr>failures := n\<rparr>) = store s"
  "store (take_version b s) = store s" "store (record_sync_success e s) = store s"
  "store (count_failure s) = store s"
  by (auto simp: store_def take_version_def record_sync_success_def count_failure_def split: option.split)

lemma mark_synced_cong:
  "store s = store t \<Longrightarrow> store (mark_synced fs s) = store (mark_synced fs t)"
  by (simp add: mark_synced_def on_store_def store_def set_md_def)

lemma mark_synced_version [simp]: "last_synced_version (mark_synced fs s) = last_synced_version s"
  by (simp add: mark_synced_def on_store_def)

lemma record_version [simp]: "last_synced_version (record_sync_success e s) = last_synced_version s"
  by (simp add: record_sync_success_def)

section \<open>Examples\<close>

definition sample_sync_env :: sync_env where
  "sample_sync_env = \<lparr>je = sample_env, cr = toy_crypto, stamp = ''2024-01-01 00-00-00'',
     device_name = ''pc'', blob_iv = replicate 12 9, dump_db = \<lambda>m. replicate (length (files m)) 1,
     parse_db = \<lambda>b. Some [], db_present = True, has_jbod = True, state_writable = True\<rparr>"

definition edit_meta :: "string \<Rightarrow> int \<Rightarrow> string \<Rightarrow> file_meta" where
  "edit_meta p v d = \<lparr>virtual_path = p, source_id = ''r'', physical_path = ''remote'', file_size = 3,
     created_at = 0, modified_at = 1, version = v, device_id = Some d, sync_status = ''synced'',
     deleted = False\<rparr>"

definition edited_volume :: jbod where
  "edited_volume = sample_volume\<lparr>md := insert_file ''/f'' ''s'' ''local'' 1 0 0 (Some ''d'') empty_store\<rparr>"

definition ok_body :: "int \<Rightarrow> body" where
  "ok_body v = \<lparr>b_bytes = [], b_json = True, b_version = Some v, b_retention = None, b_changed = True\<rparr>"

lemma edited_distinct: "paths_distinct (md edited_volume)"
  by code_simp

lemma edited_row: "row (md edited_volume) ''/f'' = Some (the (row (md edited_volume) ''/f''))"
  by code_simp

lemma no_paren_fresh: "list_all (\<lambda>x. CHR ''('' \<notin> set (virtual_path x)) recs \<Longrightarrow> fresh_stamp e recs"
  unfolding fresh_stamp_def list_all_iff using generated_has_paren by blast

section \<open>Properties\<close>

text \<open>C1: Merging the server's database never loses an unsynchronised local file: its record
  is still at its path, unchanged, or under a conflict name with the same content,
  version and owner, marked as a conflict.\<close>

theorem merge_never_loses_pending:
  assumes "paths_distinct (md j)" and "row (md j) p = Some r" and "sync_status r = ''pending''"
    and "\<not> deleted r" and "fresh_stamp e recs"
  shows "row (md (fold (merge_record e) recs j)) p = Some r \<or>
    (\<exists>cp a u. generate_conflict_name (device_name e) (stamp e) a u = Some cp \<and>
       row (md (fold (merge_record e) recs j)) cp =
         Some (r\<lparr>virtual_path := cp, sync_status := ''conflict''\<rparr>))"
  using kept_or_copied_fold [OF assms(1,3,4) _ assms(5), of p] assms(2)
  by (simp add: kept_or_copied_def)

theorem merge_never_loses_pending_witness:
  "let r = the (row (md edited_volume) ''/f'');
       t = md (fold (merge_record sample_sync_env) [edit_meta ''/f'' 4 ''x''] edited_volume) in
   row t ''/f'' = Some r \<or>
    (\<exists>cp a u. generate_conflict_name ''pc'' ''2024-01-01 00-00-00'' a u = Some cp \<and>
       row t cp = Some (r\<lparr>virtual_path := cp, sync_status := ''conflict''\<rparr>))"
proof -
  have f: "fresh_stamp sample_sync_env [edit_meta ''/f'' 4 ''x'']"
    by (rule no_paren_fresh) code_simp
  have s: "sync_status (the (row (md edited_volume) ''/f'')) = ''pending''"
    and d: "\<not> deleted (the (row (md edited_volume) ''/f''))"
    by code_simp+
  have e: "device_name sample_sync_env = ''pc''" "stamp sample_sync_env = ''2024-01-01 00-00-00''"
    by (simp_all add: sample_sync_env_def)
  show ?thesis
    using merge_never_loses_pending [OF edited_distinct edited_row s d f] unfolding Let_def e .
qed

text \<open>C11: On a device without unsynchronised changes a merge computes, path by path, the
  newer of the local and the server's record: unknown files are added, deletions of
  unknown files are ignored, newer records (deletions included) are adopted, older and
  equal ones leave the local record alone, and nothing else changes.\<close>

theorem merge_adopts_newer:
  assumes "no_pending (md j)" and "distinct (map virtual_path recs)"
  shows "row (md (fold (merge_record e) recs j)) q =
    (case find (\<lambda>m. virtual_path m = q) recs of
       None \<Rightarrow> row (md j) q
     | Some m \<Rightarrow> (case row (md j) q of
         None \<Rightarrow> if deleted m then None else Some (server_row m)
       | Some l \<Rightarrow> if version l < version m then Some (adopt m l) else Some l))"
  using merge_clean_fold [OF assms, of e q] unfolding merged_row_def .

theorem merge_adopts_newer_witness:
  "row (md (fold (merge_record sample_sync_env) [edit_meta ''/g'' 2 ''x''] sample_volume)) ''/g'' =
    Some (server_row (edit_meta ''/g'' 2 ''x''))"
proof -
  have n: "no_pending (md sample_volume)"
    by (simp add: no_pending_def sample_volume_def jbod_init_def empty_store_def row_def)
  have v: "md sample_volume = empty_store" by (simp add: sample_volume_def jbod_init_def)
  show ?thesis
    using merge_adopts_newer [OF n, of "[edit_meta ''/g'' 2 ''x'']" sample_sync_env "''/g''"]
    by (simp add: edit_meta_def v empty_store_def row_def)
qed

text \<open>Merging the same record a second time changes no row, unless the conflict name was
  taken by a deleted file, in which case the conflict stays unresolved.\<close>

lemma merge_idempotent:
  assumes d: "paths_distinct (md j)"
    and "\<forall>cp. generate_conflict_name (device_name e) (stamp e) (virtual_path m) (md j) = Some cp \<longrightarrow>
      row (md j) cp = None"
  shows "row (md (merge_record e m (merge_record e m j))) = row (md (merge_record e m j))"
proof -
  have noop: "row (md (merge_record e m k)) = row (md k)"
    if "row (md k) (virtual_path m) = Some r" "sync_status r \<noteq> ''pending''" "version m \<le> version r" for k r
    using that by (simp add: merge_record_known conflicting_def)
  show ?thesis
  proof (cases "row (md j) (virtual_path m)")
    case None
    then show ?thesis
      using noop [of "merge_record e m j" "server_row m"]
      by (auto simp: merge_record_unknown row_insert_from_server server_row_def)
  next
    case (Some l)
    consider "conflicting l m" | "\<not> conflicting l m" "version l < version m"
      | "\<not> conflicting l m" "version m \<le> version l" by fastforce
    then show ?thesis
    proof cases
      case 1
      have "row (md (handle_conflict e m j)) (virtual_path m) = Some (server_row m)"
        by (rule handle_conflict_cases [OF d Some, of e]) (use assms(2) Some in auto)
      with 1 show ?thesis
        using noop [of "merge_record e m j" "server_row m"]
        by (simp add: merge_record_known [OF Some] server_row_def)
    next
      case 2
      then show ?thesis
        using noop [of "merge_record e m j" "adopt m l"] Some
        by (simp add: merge_record_known [OF Some] row_update_from_server adopt_def)
    next
      case 3
      then have "merge_record e m j = j" by (simp add: merge_record_known [OF Some])
      then show ?thesis by simp
    qed
  qed
qed



text \<open>However often the server answers that another device was faster, one upload
  ends after at most fifteen requests.\<close>

lemma upload_bounded: "length (sent (upload_metadata e s)) \<le> length (sent s) + 15"
proof -
  have "requests (upload_metadata e s) \<le> requests s + 15"
    using requests_upload_loop [of MAX_CAS_RETRIES e "gc_tombstones e s"]
    by (auto simp: upload_metadata_def MAX_CAS_RETRIES_def requests_def)
  then show ?thesis by (simp add: requests_def)
qed

text \<open>The database blob a device uploads is opened by every device with the same key to
  the same bytes, and merging it there merges exactly the records of the database.\<close>

lemma uploaded_blob_merges:
  assumes "aead (cr e)" and "length (blob_iv e) = 12" and "cr e' = cr e"
    and "sync_key t = key" and "parse_db e' (dump_db e m) = Some recs"
  shows "merge_server_metadata e' (encrypt_blob e key (dump_db e m)) t =
    (Inr (), t\<lparr>vol := fold (merge_record e') recs (vol t)\<rparr>)"
proof -
  have "decrypt_blob e' k b = decrypt_blob e k b" for k b
    by (cases k) (simp_all add: decrypt_blob_def aesgcm_decrypt_def assms(3))
  then show ?thesis
    using blob_roundtrip [OF assms(1,2), of key "dump_db e m"] assms(4,5)
    by (simp add: merge_server_metadata_def)
qed

section \<open>Divergences\<close>

text \<open>The base version of an edited file is taken to be one below the local version. After
  two edits here and one on another device the merge sees no conflict, and the upload
  then replaces the other device's edit.\<close>

lemma two_edits_hide_remote_edit:
  "let j = sample_volume\<lparr>md := update_file ''/f'' 3 2 None None None (update_file ''/f'' 2 1 None None None
       (snd (set_sync_status ''/f'' ''synced'' (insert_file ''/f'' ''s'' ''local'' 1 0 0 (Some ''d'') empty_store))))\<rparr>;
     k = merge_record sample_sync_env (edit_meta ''/f'' 2 ''x'') j
   in map virtual_path (files (md k)) = [''/f''] \<and>
      map_option version (lookup ''/f'' (md k)) = Some 3 \<and>
      map_option sync_status (lookup ''/f'' (md k)) = Some ''pending''"
  by code_simp

text \<open>An upload the server stored but whose answer was lost: the next merge meets the
  device's own record as a conflict, and two live records then share one physical file.\<close>

lemma lost_answer_conflicts_with_itself:
  "let m = meta_of (the (row (md edited_volume) ''/f''));
       t = md (merge_record sample_sync_env m edited_volume)
   in map (\<lambda>r. (virtual_path r, physical_path r, deleted r)) (files t) =
     [(''/f (conflict - pc - 2024-01-01 00-00-00)'', ''local'', False), (''/f'', ''local'', False)]"
  by code_simp

text \<open>An edit made while the upload waits for the server is marked as synchronised although
  the uploaded database does not contain it.\<close>

lemma edit_during_upload_is_lost:
  "let s = sync_init edited_volume None None
       [([MUpdate ''/f'' 9 5 None None None], Resp 200 (ok_body 7))];
     t = upload_metadata sample_sync_env s
   in map_option version (lookup ''/f'' (store s)) = Some 1 \<and>
      map_option version (lookup ''/f'' (store t)) = Some 2 \<and>
      map_option sync_status (lookup ''/f'' (store t)) = Some ''synced''"
  by code_simp

end
