(* ===== verification/Replication_Manager.thy ===== *)
theory Replication_Manager
  imports JBOD_Manager Chunker
begin

text \<open>
  \<^verbatim>\<open>stardustlib/replication_manager.py\<close>: backup copies of encrypted chunks on other
  devices. The answers of the server (registry of chunks and copies, placement) and of the
  holders are given by an environment; what the manager sends is recorded as a list of
  events. Chunks that the code heals concurrently are healed here in the order of the
  list. \<open>hashlib.sha256\<close> is the parameter \<open>sha\<close>.
\<close>

section \<open>Environment\<close>

record holder =
  h_device :: "string option"
  h_address :: "string option"
  h_online :: "bool option"

record rep_env =
  token :: "unit result"
  user_id :: "string option"
  sha :: "string \<Rightarrow> string"
  register_answer :: "string \<Rightarrow> string \<Rightarrow> int \<Rightarrow> int \<Rightarrow> unit result"
  placement_answer :: "int \<Rightarrow> nat \<Rightarrow> string list \<Rightarrow> holder list result"
  record_answer :: "string \<Rightarrow> string \<Rightarrow> bool result"
  chunks_answer :: "string \<Rightarrow> (string \<times> int) list result"
  replicas_answer :: "string \<Rightarrow> holder list result"
  direct_store :: "string \<Rightarrow> string \<Rightarrow> bytes \<Rightarrow> unit direct"
  relay_store :: "string \<Rightarrow> string \<Rightarrow> bytes \<Rightarrow> bool"
  direct_fetch :: "string \<Rightarrow> string \<Rightarrow> bytes option direct"
  relay_fetch :: "string \<Rightarrow> string \<Rightarrow> bytes option"

datatype event =
    Registered string string int int
  | Pushed "string option" string bytes
  | Recorded string string bool

record manager =
  rm_chunk_size :: int
  rm_min_replicas :: nat
  rm_self :: "string option"

definition DEFAULT_MIN_REPLICAS :: nat where "DEFAULT_MIN_REPLICAS = 1"

definition set_min_replicas :: "int \<Rightarrow> manager \<Rightarrow> manager" where
  "set_min_replicas n m = (if 1 \<le> n then m\<lparr>rm_min_replicas := nat n\<rparr> else m)"

definition online :: "holder \<Rightarrow> bool" where
  "online h \<longleftrightarrow> h_online h \<noteq> Some False"

definition file_ref :: "rep_env \<Rightarrow> string \<Rightarrow> string" where
  "file_ref e vp = sha e ((case user_id e of None \<Rightarrow> [] | Some u \<Rightarrow> u) @ '':'' @ vp)"

definition chunk_id :: "rep_env \<Rightarrow> string \<Rightarrow> int \<Rightarrow> string" where
  "chunk_id e ref idx = sha e (ref @ '':'' @ show_nat (nat idx))"

text \<open>A refused token is a replication error, what else goes wrong while it is fetched stays what it is.\<close>

definition rep_token :: "rep_env \<Rightarrow> unit result" where
  "rep_token e = (case token e of
     Inl AuthenticationError \<Rightarrow> Inl ReplicationError | Inl x \<Rightarrow> Inl x | Inr _ \<Rightarrow> Inr ())"

lemma rep_token_ok [simp]: "token e = Inr () \<Longrightarrow> rep_token e = Inr ()"
  by (simp add: rep_token_def)

section \<open>Holders\<close>

definition holder_store ::
  "rep_env \<Rightarrow> string option \<Rightarrow> string option \<Rightarrow> string \<Rightarrow> bytes \<Rightarrow> bool" where
  "holder_store e device address cid d =
     (let relay = (if truthy device then relay_store e (the device) cid d else False) in
      if truthy address then
        (case direct_store e (the address) cid d of
          Answer st _ \<Rightarrow> st = 200
        | Unreachable \<Rightarrow> relay)
      else relay)"

definition holder_fetch :: "rep_env \<Rightarrow> string option \<Rightarrow> string option \<Rightarrow> string \<Rightarrow> bytes option" where
  "holder_fetch e device address cid =
     (let relay = (if truthy device then relay_fetch e (the device) cid else None) in
      if truthy address then
        (case direct_fetch e (the address) cid of
          Answer st d \<Rightarrow> if st = 200 then d else None
        | Unreachable \<Rightarrow> relay)
      else relay)"

fun fetch_loop :: "rep_env \<Rightarrow> string \<Rightarrow> holder list \<Rightarrow> bytes option" where
  "fetch_loop e cid [] = None"
| "fetch_loop e cid (h # hs) =
     (if \<not> online h then fetch_loop e cid hs
      else if \<not> truthy (h_device h) \<and> \<not> truthy (h_address h) then fetch_loop e cid hs
      else (case holder_fetch e (h_device h) (h_address h) cid of
        Some d \<Rightarrow> Some d | None \<Rightarrow> fetch_loop e cid hs))"

definition fetch_from_any_holder :: "rep_env \<Rightarrow> string \<Rightarrow> bytes option result" where
  "fetch_from_any_holder e cid = (case replicas_answer e cid of
     Inl x \<Rightarrow> Inl x | Inr hs \<Rightarrow> Inr (fetch_loop e cid hs))"

section \<open>Replicating\<close>

text \<open>Push a chunk to the placed holders until \<open>limit\<close> copies are recorded (\<open>None\<close>: to all
  of them); the number of recorded copies, or the exception of a record request.\<close>

fun place :: "rep_env \<Rightarrow> nat option \<Rightarrow> string \<Rightarrow> bytes \<Rightarrow> nat \<Rightarrow> holder list \<Rightarrow> nat result \<times> event list" where
  "place e limit cid d n [] = (Inr n, [])"
| "place e limit cid d n (h # hs) =
     (if (case limit of None \<Rightarrow> False | Some k \<Rightarrow> k \<le> n) then (Inr n, [])
      else if \<not> truthy (h_device h) then place e limit cid d n hs
      else if holder_store e (h_device h) (h_address h) cid d then
        (case record_answer e cid (the (h_device h)) of
          Inl x \<Rightarrow> (Inl x, [Pushed (h_device h) cid d])
        | Inr ok \<Rightarrow> apsnd (\<lambda>ev. [Pushed (h_device h) cid d, Recorded cid (the (h_device h)) ok] @ ev)
            (place e limit cid d (if ok then Suc n else n) hs))
      else apsnd (\<lambda>ev. Pushed (h_device h) cid d # ev) (place e limit cid d n hs))"

definition replicate_chunk ::
  "rep_env \<Rightarrow> manager \<Rightarrow> string \<Rightarrow> int \<times> bytes \<Rightarrow> nat result \<times> event list" where
  "replicate_chunk e m ref c = (case c of (idx, d) \<Rightarrow>
     let cid = chunk_id e ref idx; reg = Registered cid ref idx (int (length d)) in
     case register_answer e cid ref idx (int (length d)) of
       Inl x \<Rightarrow> (Inl x, [reg])
     | Inr _ \<Rightarrow>
         (case placement_answer e (int (length d)) (rm_min_replicas m)
                 (if truthy (rm_self m) then [the (rm_self m)] else []) of
           Inl x \<Rightarrow> (Inl x, [reg])
         | Inr hs \<Rightarrow> apsnd ((#) reg) (place e None cid d 0 hs)))"

fun replicate_loop ::
  "rep_env \<Rightarrow> manager \<Rightarrow> string \<Rightarrow> (int \<times> bytes) list \<Rightarrow> nat list result \<times> event list" where
  "replicate_loop e m ref [] = (Inr [], [])"
| "replicate_loop e m ref (c # cs) =
     (case replicate_chunk e m ref c of
       (Inl x, ev) \<Rightarrow> (Inl x, ev)
     | (Inr n, ev) \<Rightarrow>
         (case replicate_loop e m ref cs of
           (Inl x, ev') \<Rightarrow> (Inl x, ev @ ev')
         | (Inr ns, ev') \<Rightarrow> (Inr (n # ns), ev @ ev')))"

record rep_result =
  rr_status :: string
  rr_chunks :: nat
  rr_replicas :: "nat list"

definition replicate_chunks ::
  "rep_env \<Rightarrow> manager \<Rightarrow> string \<Rightarrow> (int \<times> bytes) list \<Rightarrow> rep_result result \<times> event list" where
  "replicate_chunks e m ref cs =
     (case rep_token e of
       Inl x \<Rightarrow> (Inl x, [])
     | Inr _ \<Rightarrow>
         (case replicate_loop e m ref cs of
           (Inl x, ev) \<Rightarrow> (Inl x, ev)
         | (Inr ns, ev) \<Rightarrow>
             (let ok = (ns \<noteq> [] \<and> list_all (\<lambda>n. rm_min_replicas m \<le> n) ns) in
              (Inr \<lparr>rr_status = (if ok then ''replicated'' else ''pending''),
                    rr_chunks = length cs, rr_replicas = ns\<rparr>, ev))))"

text \<open>\<open>replicate\<close>: the volume changes by the read (a failing source) and the new status.\<close>

definition replicate_file ::
  "rep_env \<Rightarrow> jenv \<Rightarrow> manager \<Rightarrow> string \<Rightarrow> jbod \<Rightarrow> rep_result result \<times> event list \<times> jbod" where
  "replicate_file e je m vp j =
     (case eng j of
       None \<Rightarrow> (Inl ReplicationError, [], j)
     | Some g \<Rightarrow>
         (case lookup vp (md j) of
           None \<Rightarrow> (Inl FileNotFoundError, [], j)
         | Some f \<Rightarrow>
             (case read_file je vp j of
               (Inl x, j1) \<Rightarrow> (Inl x, [], j1)
             | (Inr plaintext, j1) \<Rightarrow>
                 (let cs = Chunker.split (encrypt g (rnd_iv je) plaintext) (rm_chunk_size m) in
                  case cs of
                    Inl x \<Rightarrow> (Inl x, [], j1)
                  | Inr cs \<Rightarrow>
                      (case replicate_chunks e m (file_ref e vp) cs of
                        (Inl x, ev) \<Rightarrow> (Inl x, ev, j1)
                      | (Inr r, ev) \<Rightarrow>
                          (Inr r, ev, set_md (snd (set_replication_status vp (rr_status r) (md j1))) j1))))))"

section \<open>Recovering\<close>

fun collect ::
  "rep_env \<Rightarrow> (string \<times> int) list \<Rightarrow> ((int \<times> bytes) list \<times> string list) result" where
  "collect e [] = Inr ([], [])"
| "collect e ((cid, idx) # infos) =
     (case fetch_from_any_holder e cid of
       Inl x \<Rightarrow> Inl x
     | Inr d \<Rightarrow>
         (case collect e infos of
           Inl x \<Rightarrow> Inl x
         | Inr (parts, missing) \<Rightarrow>
             (case d of
               None \<Rightarrow> Inr (parts, cid # missing)
             | Some b \<Rightarrow> Inr ((idx, b) # parts, missing))))"

definition recover_chunks :: "rep_env \<Rightarrow> string \<Rightarrow> bytes result" where
  "recover_chunks e ref =
     (case rep_token e of
       Inl x \<Rightarrow> Inl x
     | Inr _ \<Rightarrow>
         (case chunks_answer e ref of
           Inl x \<Rightarrow> Inl x
         | Inr infos \<Rightarrow>
             if infos = [] then Inl (RecoveryError [])
             else (case collect e infos of
               Inl x \<Rightarrow> Inl x
             | Inr (parts, missing) \<Rightarrow>
                 if missing \<noteq> [] then Inl (RecoveryError missing)
                 else Inr (Chunker.join parts))))"

definition recover :: "rep_env \<Rightarrow> jenv \<Rightarrow> string \<Rightarrow> jbod \<Rightarrow> nat result \<times> jbod" where
  "recover e je vp j =
     (case eng j of
       None \<Rightarrow> (Inl ReplicationError, j)
     | Some g \<Rightarrow>
         (case recover_chunks e (file_ref e vp) of
           Inl x \<Rightarrow> (Inl x, j)
         | Inr blob \<Rightarrow>
             (case decrypt g blob of
               Inl x \<Rightarrow> (Inl x, j)
             | Inr plaintext \<Rightarrow>
                 (case write_file je vp plaintext j of
                   (Inl x, j1) \<Rightarrow> (Inl x, j1)
                 | (Inr _, j1) \<Rightarrow> (Inr (length plaintext), j1)))))"

section \<open>Health and repair\<close>

record heal_outcome =
  ho_chunk :: string
  ho_added :: nat
  ho_healthy :: bool

definition heal_chunk ::
  "rep_env \<Rightarrow> manager \<Rightarrow> string \<Rightarrow> heal_outcome result \<times> event list" where
  "heal_chunk e m cid =
     (case replicas_answer e cid of
       Inl x \<Rightarrow> (Inl x, [])
     | Inr holders \<Rightarrow>
         (let up = filter (\<lambda>h. online h \<and> truthy (h_address h)) holders;
              current = map (\<lambda>h. the (h_device h)) (filter (\<lambda>h. truthy (h_device h)) holders);
              need = int (rm_min_replicas m) - int (length up)
          in if need \<le> 0 then (Inr \<lparr>ho_chunk = cid, ho_added = 0, ho_healthy = True\<rparr>, [])
             else (case List.map_filter (\<lambda>h. holder_fetch e (h_device h) (h_address h) cid) up of
               [] \<Rightarrow> (Inr \<lparr>ho_chunk = cid, ho_added = 0, ho_healthy = False\<rparr>, [])
             | d # _ \<Rightarrow>
                 (let self = rm_self m;
                      exclude = (if truthy self \<and> the self \<notin> set current then current @ [the self] else current)
                  in case placement_answer e (int (length d)) (rm_min_replicas m) exclude of
                    Inl x \<Rightarrow> (Inl x, [])
                  | Inr cands \<Rightarrow>
                      (case place e (Some (nat need)) cid d 0 cands of
                        (Inl x, ev) \<Rightarrow> (Inl x, ev)
                      | (Inr added, ev) \<Rightarrow>
                          (Inr \<lparr>ho_chunk = cid, ho_added = added,
                                ho_healthy = (rm_min_replicas m \<le> length up + added)\<rparr>, ev))))))"

fun heal_loop :: "rep_env \<Rightarrow> manager \<Rightarrow> string list \<Rightarrow> heal_outcome list result \<times> event list" where
  "heal_loop e m [] = (Inr [], [])"
| "heal_loop e m (c # cs) =
     (case heal_chunk e m c of
       (Inl x, ev) \<Rightarrow> (Inl x, ev)
     | (Inr h, ev) \<Rightarrow>
         (case heal_loop e m cs of
           (Inl x, ev') \<Rightarrow> (Inl x, ev @ ev')
         | (Inr hs, ev') \<Rightarrow> (Inr (h # hs), ev @ ev')))"

record heal_report =
  hr_status :: string
  hr_chunks :: nat
  hr_repaired :: nat
  hr_unrecoverable :: "string list"

definition ensure_chunks :: "rep_env \<Rightarrow> manager \<Rightarrow> string \<Rightarrow> heal_report result \<times> event list" where
  "ensure_chunks e m ref =
     (case rep_token e of
       Inl x \<Rightarrow> (Inl x, [])
     | Inr _ \<Rightarrow>
         (case chunks_answer e ref of
           Inl x \<Rightarrow> (Inl x, [])
         | Inr infos \<Rightarrow>
             if infos = [] then (Inl (RecoveryError []), [])
             else (case heal_loop e m (map fst infos) of
               (Inl x, ev) \<Rightarrow> (Inl x, ev)
             | (Inr outs, ev) \<Rightarrow>
                 (let bad = map ho_chunk (filter (\<lambda>h. \<not> ho_healthy h) outs) in
                  (Inr \<lparr>hr_status = (if bad = [] then ''replicated'' else ''pending''),
                        hr_chunks = length infos,
                        hr_repaired = length (filter (\<lambda>h. 0 < ho_added h) outs),
                        hr_unrecoverable = bad\<rparr>, ev)))))"

definition ensure_replicas ::
  "rep_env \<Rightarrow> manager \<Rightarrow> string \<Rightarrow> jbod \<Rightarrow> heal_report result \<times> event list \<times> jbod" where
  "ensure_replicas e m vp j =
     (case ensure_chunks e m (file_ref e vp) of
       (Inl x, ev) \<Rightarrow> (Inl x, ev, j)
     | (Inr r, ev) \<Rightarrow>
         (Inr r, ev, if lookup vp (md j) \<noteq> None
            then set_md (snd (set_replication_status vp (hr_status r) (md j))) j else j))"

record health_summary =
  hs_degraded :: bool
  hs_chunks :: nat
  hs_min_online :: nat

fun online_counts :: "rep_env \<Rightarrow> string list \<Rightarrow> nat list result" where
  "online_counts e [] = Inr []"
| "online_counts e (c # cs) =
     (case replicas_answer e c of
       Inl x \<Rightarrow> Inl x
     | Inr hs \<Rightarrow> (case online_counts e cs of
         Inl x \<Rightarrow> Inl x | Inr ns \<Rightarrow> Inr (length (filter online hs) # ns)))"

definition replication_health :: "rep_env \<Rightarrow> manager \<Rightarrow> string \<Rightarrow> health_summary result" where
  "replication_health e m vp =
     (case rep_token e of
       Inl x \<Rightarrow> Inl x
     | Inr _ \<Rightarrow>
         (case chunks_answer e (file_ref e vp) of
           Inl x \<Rightarrow> Inl x
         | Inr infos \<Rightarrow>
             if infos = [] then Inr \<lparr>hs_degraded = False, hs_chunks = 0, hs_min_online = 0\<rparr>
             else (case online_counts e (map fst infos) of
               Inl x \<Rightarrow> Inl x
             | Inr ns \<Rightarrow> (let lo = fold min (tl ns) (hd ns) in
                 Inr \<lparr>hs_degraded = (lo < rm_min_replicas m), hs_chunks = length infos,
                       hs_min_online = lo\<rparr>))))"

section \<open>Placing copies\<close>

definition recorded_devices :: "event list \<Rightarrow> string list" where
  "recorded_devices ev = List.map_filter (\<lambda>x. case x of Recorded c d ok \<Rightarrow> Some d | _ \<Rightarrow> None) ev"

lemma recorded_devices_simps [simp]:
  "recorded_devices [] = []"
  "recorded_devices (Pushed dv c b # ev) = recorded_devices ev"
  "recorded_devices (Registered c r i n # ev) = recorded_devices ev"
  "recorded_devices (Recorded c d ok # ev) = d # recorded_devices ev"
  by (simp_all add: recorded_devices_def map_filter_simps)

lemma place_Cons_cases:
  assumes "place e limit cid d n (h # hs) = (r, ev)"
  obtains "\<exists>k. limit = Some k \<and> k \<le> n" "r = Inr n" "ev = []"
    | "place e limit cid d n hs = (r, ev)"
    | ev' where "place e limit cid d n hs = (r, ev')" "ev = Pushed (h_device h) cid d # ev'"
    | x where "r = Inl x" "ev = [Pushed (h_device h) cid d]"
    | ok n' ev' where "n' = n \<or> n' = Suc n \<and> ok" "\<not> (\<exists>k. limit = Some k \<and> k \<le> n)" "place e limit cid d n' hs = (r, ev')"
      "ev = [Pushed (h_device h) cid d, Recorded cid (the (h_device h)) ok] @ ev'"
      "truthy (h_device h)" "holder_store e (h_device h) (h_address h) cid d"
proof (cases "\<exists>k. limit = Some k \<and> k \<le> n")
  case True
  then show thesis using assms that(1) by auto
next
  case False
  then have l: "\<not> (case limit of None \<Rightarrow> False | Some k \<Rightarrow> k \<le> n)" by (auto split: option.splits)
  show thesis
  proof (cases "truthy (h_device h)")
    case False
    then show thesis using assms l that(2) by simp
  next
    case tr: True
    show thesis
    proof (cases "holder_store e (h_device h) (h_address h) cid d")
      case False
      obtain r' ev' where "place e limit cid d n hs = (r', ev')" by (cases "place e limit cid d n hs")
      then show thesis using assms l tr False that(3) by simp
    next
      case st: True
      show thesis
      proof (cases "record_answer e cid (the (h_device h))")
        case (Inl x)
        then show thesis using assms l tr st by (intro that(4)) auto
      next
        case (Inr ok)
        obtain r' ev' where "place e limit cid d (if ok then Suc n else n) hs = (r', ev')"
          by (cases "place e limit cid d (if ok then Suc n else n) hs")
        then show thesis using assms l tr st Inr False by (intro that(5) [of "if ok then Suc n else n" ok ev']) auto
      qed
    qed
  qed
qed

lemma place_count:
  "place e limit cid d n hs = (Inr k, ev) \<Longrightarrow>
    n \<le> k \<and> k \<le> n + length (recorded_devices ev) \<and> (\<forall>l. limit = Some l \<longrightarrow> n \<le> l \<longrightarrow> k \<le> l)"
proof (induction hs arbitrary: n ev)
  case (Cons h hs)
  from Cons.prems show ?case
    by (rule place_Cons_cases) (use Cons.IH in \<open>force+\<close>)
qed simp

lemma place_devices:
  "place e limit cid d n hs = (r, ev) \<Longrightarrow> set (recorded_devices ev) \<subseteq> (\<lambda>h. the (h_device h)) ` set hs"
proof (induction hs arbitrary: n ev)
  case (Cons h hs)
  from Cons.prems show ?case
    by (rule place_Cons_cases) (use Cons.IH in \<open>force+\<close>)
qed simp

text \<open>Everything pushed for a chunk is the chunk.\<close>

lemma place_pushes:
  "place e limit cid d n hs = (r, ev) \<Longrightarrow> Pushed dv c b \<in> set ev \<Longrightarrow> c = cid \<and> b = d"
proof (induction hs arbitrary: n ev)
  case (Cons h hs)
  from Cons.prems(1) show ?case
    by (rule place_Cons_cases) (use Cons.IH Cons.prems(2) in \<open>force+\<close>)
qed simp

lemma replicate_chunk_events:
  assumes "replicate_chunk e m ref (idx, d) = (r, ev)" and "Pushed dv c b \<in> set ev"
  shows "c = chunk_id e ref idx \<and> b = d"
proof -
  obtain hs rr ev' where "place e None (chunk_id e ref idx) d 0 hs = (rr, ev')"
    "Pushed dv c b \<in> set ev'"
    using assms
    by (cases "register_answer e (chunk_id e ref idx) ref idx (int (length d))"; cases "placement_answer e (int (length d))
          (rm_min_replicas m) (if truthy (rm_self m) then [the (rm_self m)] else [])")
      (auto simp: replicate_chunk_def Let_def apsnd_def map_prod_def split: prod.splits if_splits)
  then show ?thesis using place_pushes by blast
qed

lemma replicate_loop_events:
  "replicate_loop e m ref cs = (r, ev) \<Longrightarrow> Pushed dv c b \<in> set ev \<Longrightarrow>
    \<exists>(idx, d) \<in> set cs. c = chunk_id e ref idx \<and> b = d"
proof (induction cs arbitrary: r ev)
  case (Cons x cs)
  obtain idx d where x: "x = (idx, d)" by (cases x)
  obtain rx ex where rx: "replicate_chunk e m ref x = (rx, ex)" by (cases "replicate_chunk e m ref x")
  obtain rs es where rs: "replicate_loop e m ref cs = (rs, es)" by (cases "replicate_loop e m ref cs")
  have "Pushed dv c b \<in> set ex \<or> Pushed dv c b \<in> set es"
    using Cons.prems rx rs by (auto split: sum.splits)
  then show ?case
    using replicate_chunk_events [of e m ref idx d rx ex] rx x Cons.IH [OF rs] by auto
qed simp

lemma replicate_loop_length:
  "replicate_loop e m ref cs = (Inr ns, ev) \<Longrightarrow> length ns = length cs"
  by (induction cs arbitrary: ns ev) (auto split: prod.splits sum.splits)

section \<open>Collecting chunks\<close>

lemma collect_ok:
  assumes "\<And>cid idx. (cid, idx) \<in> set infos \<Longrightarrow> fetch_from_any_holder e cid = Inr (Some (piece idx))"
  shows "collect e infos = Inr (map (\<lambda>(cid, idx). (idx, piece idx)) infos, [])"
  using assms
proof (induction infos)
  case (Cons i infos)
  obtain cid idx where i: "i = (cid, idx)" by (cases i)
  have "fetch_from_any_holder e cid = Inr (Some (piece idx))"
    using Cons.prems [of cid idx] i by simp
  moreover have "collect e infos = Inr (map (\<lambda>(cid, idx). (idx, piece idx)) infos, [])"
    using Cons by simp
  ultimately show ?case by (simp add: i)
qed simp

lemma collect_missing:
  "collect e infos = Inr (parts, missing) \<Longrightarrow>
    missing = map fst (filter (\<lambda>(cid, idx). fetch_from_any_holder e cid = Inr None) infos)"
  by (induction infos arbitrary: parts missing) (auto split: sum.splits option.splits prod.splits)

text \<open>The registry lists exactly the chunks of the file, in some order.\<close>

definition registry_lists :: "rep_env \<Rightarrow> string \<Rightarrow> (int \<times> bytes) list \<Rightarrow> bool" where
  "registry_lists e ref cs \<longleftrightarrow> (\<exists>infos. chunks_answer e ref = Inr infos \<and>
     mset infos = mset (map (\<lambda>(idx, d). (chunk_id e ref idx, idx)) cs))"

lemma recover_chunks_ok:
  assumes "Chunker.split blob n = Inr cs" and "0 < length blob" and "token e = Inr ()"
    and "registry_lists e ref cs"
    and "\<And>idx d. (idx, d) \<in> set cs \<Longrightarrow> fetch_from_any_holder e (chunk_id e ref idx) = Inr (Some d)"
    and "distinct (map fst cs)"
  shows "recover_chunks e ref = Inr blob"
proof -
  obtain infos where infos: "chunks_answer e ref = Inr infos"
    "mset infos = mset (map (\<lambda>(idx, d). (chunk_id e ref idx, idx)) cs)"
    using assms(4) by (auto simp: registry_lists_def)
  let ?piece = "\<lambda>idx. the (map_of cs idx)"
  have piece: "?piece idx = d" if "(idx, d) \<in> set cs" for idx d
    using that assms(6) by simp
  have mem: "set infos = (\<lambda>(idx, d). (chunk_id e ref idx, idx)) ` set cs"
    using arg_cong [OF infos(2), of set_mset] by simp
  have col: "collect e infos = Inr (map (\<lambda>(cid, idx). (idx, ?piece idx)) infos, [])"
    by (rule collect_ok) (use mem assms(5) piece in auto)
  have "mset (map (\<lambda>(cid, idx). (idx, ?piece idx)) infos) =
      image_mset (\<lambda>(cid, idx). (idx, ?piece idx)) (mset infos)" by simp
  also have "\<dots> = mset (map (\<lambda>(idx, d). (idx, ?piece idx)) cs)"
    by (simp add: infos(2) multiset.map_comp comp_def) (intro image_mset_cong, auto)
  also have "\<dots> = mset cs"
    using piece by (intro arg_cong [where f = mset] map_idI) auto
  finally have "Chunker.join (map (\<lambda>(cid, idx). (idx, ?piece idx)) infos) = blob"
    using chunks.glue_any_order [OF assms(1)] by blast
  moreover have "infos \<noteq> []"
  proof
    assume "infos = []"
    with infos(2) have "cs = []" by simp
    with chunks.glue_cut [OF assms(1)] assms(2) show False by (simp add: Chunker.join_def)
  qed
  ultimately show ?thesis
    using infos(1) col assms(3) by (simp add: recover_chunks_def)
qed

lemma split_indices:
  assumes "Chunker.split blob n = Inr cs"
  shows "distinct (map fst cs)"
proof -
  have "0 < n" using assms by (auto simp: Chunker.split_def split: if_splits)
  with assms split_parts [of n blob] show ?thesis
    by (auto simp: comp_def distinct_map inj_on_def)
qed

section \<open>Counting copies\<close>

fun is_copy :: "string \<Rightarrow> event \<Rightarrow> bool" where
  "is_copy cid (Recorded c d ok) = (c = cid \<and> ok)"
| "is_copy cid _ = False"

definition copies :: "string \<Rightarrow> event list \<Rightarrow> nat" where
  "copies cid ev = length (filter (is_copy cid) ev)"

lemma copies_simps [simp]:
  "copies cid [] = 0" "copies cid (Pushed d c b # ev) = copies cid ev"
  "copies cid (Registered c r i n # ev) = copies cid ev"
  "copies cid (Recorded c dv ok # ev) = (if c = cid \<and> ok then Suc (copies cid ev) else copies cid ev)"
  "copies cid (ev @ ev') = copies cid ev + copies cid ev'"
  by (simp_all add: copies_def)

lemma place_copies: "place e limit cid d n hs = (Inr k, ev) \<Longrightarrow> k \<le> n + copies cid ev"
proof (induction hs arbitrary: n ev)
  case (Cons h hs)
  from Cons.prems show ?case
    by (rule place_Cons_cases) (use Cons.IH in \<open>force+\<close>)
qed simp

lemma replicate_chunk_copies:
  assumes "replicate_chunk e m ref (idx, d) = (Inr k, ev)"
  shows "k \<le> copies (chunk_id e ref idx) ev"
proof -
  obtain hs ev' where "place e None (chunk_id e ref idx) d 0 hs = (Inr k, ev')"
    "ev = Registered (chunk_id e ref idx) ref idx (int (length d)) # ev'"
    using assms by (auto simp: replicate_chunk_def Let_def apsnd_def map_prod_def
        split: sum.splits prod.splits)
  then show ?thesis using place_copies by fastforce
qed

lemma replicate_loop_copies:
  assumes "replicate_loop e m ref cs = (Inr ns, ev)" and "list_all (\<lambda>n. k \<le> n) ns"
    and "(idx, d) \<in> set cs"
  shows "k \<le> copies (chunk_id e ref idx) ev"
  using assms
proof (induction cs arbitrary: ns ev)
  case (Cons c cs)
  obtain n ev1 where c: "replicate_chunk e m ref c = (Inr n, ev1)"
    using Cons.prems(1) by (cases "replicate_chunk e m ref c") (auto split: sum.splits)
  obtain ms ev2 where cs: "replicate_loop e m ref cs = (Inr ms, ev2)"
    using Cons.prems(1) c by (cases "replicate_loop e m ref cs") (auto split: sum.splits)
  have ev: "ev = ev1 @ ev2" "ns = n # ms" using Cons.prems(1) c cs by auto
  show ?case
  proof (cases "c = (idx, d)")
    case True
    then show ?thesis
      using replicate_chunk_copies [of e m ref idx d n ev1] c ev Cons.prems(2) by simp
  next
    case False
    then have "k \<le> copies (chunk_id e ref idx) ev2"
      using Cons.IH [OF cs] Cons.prems(2,3) ev by simp
    then show ?thesis by (simp add: ev)
  qed
qed simp

text \<open>A copy is recorded only for a device that has accepted the chunk.\<close>

lemma place_accepted:
  "place e limit cid d n hs = (r, ev) \<Longrightarrow> Recorded c dv ok \<in> set ev \<Longrightarrow>
    \<exists>h \<in> set hs. c = cid \<and> h_device h = Some dv \<and> holder_store e (h_device h) (h_address h) c d"
proof (induction hs arbitrary: n ev r)
  case (Cons h hs)
  from Cons.prems(1) show ?case
    by (rule place_Cons_cases) (use Cons.IH Cons.prems(2) in \<open>force simp: truthy_def\<close>)+
qed simp

lemma replicate_chunk_accepted:
  assumes "replicate_chunk e m ref (idx, d) = (r, ev)" and "Recorded c dv ok \<in> set ev"
  shows "\<exists>a. c = chunk_id e ref idx \<and> holder_store e (Some dv) a c d"
proof -
  obtain hs rr ev' where "place e None (chunk_id e ref idx) d 0 hs = (rr, ev')"
    "Recorded c dv ok \<in> set ev'"
    using assms
    by (cases "register_answer e (chunk_id e ref idx) ref idx (int (length d))"; cases "placement_answer e (int (length d))
          (rm_min_replicas m) (if truthy (rm_self m) then [the (rm_self m)] else [])")
      (auto simp: replicate_chunk_def Let_def apsnd_def map_prod_def split: prod.splits if_splits)
  then show ?thesis by (metis place_accepted)
qed

lemma replicate_loop_accepted:
  "replicate_loop e m ref cs = (r, ev) \<Longrightarrow> Recorded c dv ok \<in> set ev \<Longrightarrow>
    \<exists>(idx, d) \<in> set cs. \<exists>a. c = chunk_id e ref idx \<and> holder_store e (Some dv) a c d"
proof (induction cs arbitrary: r ev)
  case (Cons x cs)
  obtain idx d where x: "x = (idx, d)" by (cases x)
  obtain rx ex where rx: "replicate_chunk e m ref x = (rx, ex)" by (cases "replicate_chunk e m ref x")
  obtain rs es where rs: "replicate_loop e m ref cs = (rs, es)" by (cases "replicate_loop e m ref cs")
  have "Recorded c dv ok \<in> set ex \<or> Recorded c dv ok \<in> set es"
    using Cons.prems rx rs by (auto split: sum.splits)
  then show ?case
    using replicate_chunk_accepted [of e m ref idx d rx ex c dv] rx x Cons.IH [OF rs] by auto
qed simp

section \<open>Properties\<close>

text \<open>Recovery restores the file: if the registry lists the chunks of an encrypted file, in
  whatever order, and from some holder each chunk comes back as it was pushed, then the
  plaintext is written to the volume again, whichever random iv the backup used.\<close>

lemma recover_restores_file:
  assumes "eng j = Some g" and "aead (eng_crypto g)" and "length iv = 16"
    and "Chunker.split (encrypt g iv p) n = Inr cs" and "token e = Inr ()"
    and "registry_lists e (file_ref e vp) cs"
    and "\<forall>(idx, d) \<in> set cs. fetch_from_any_holder e (chunk_id e (file_ref e vp) idx) = Inr (Some d)"
    and "write_file je vp p j = (Inr (), j')"
  shows "recover e je vp j = (Inr (length p), j')"
proof -
  have "0 < length (encrypt g iv p)" using encrypt_length [OF assms(2,3), of p] by (cases "encrypt g iv p") auto
  then have "recover_chunks e (file_ref e vp) = Inr (encrypt g iv p)"
    using recover_chunks_ok [OF assms(4) _ assms(5,6)] assms(7) split_indices [OF assms(4)] by blast
  then show ?thesis
    using assms(1,8) aes.open_seal [of g iv p] assms(2,3) by (simp add: recover_def)
qed

text \<open>A registry and one holder that answers with the chunks of a blob.\<close>

definition one_holder :: "(int \<times> bytes) list \<Rightarrow> rep_env" where
  "one_holder cs = \<lparr>token = Inr (), user_id = Some ''u'', sha = (\<lambda>s. s),
     register_answer = \<lambda>c r i n. Inr (), placement_answer = \<lambda>n k x. Inr [\<lparr>h_device = Some ''h'', h_address = Some ''a'', h_online = Some True\<rparr>],
     record_answer = \<lambda>c d. Inr True,
     chunks_answer = \<lambda>r. Inr (rev (map (\<lambda>(idx, d). (r @ '':'' @ show_nat (nat idx), idx)) cs)),
     replicas_answer = \<lambda>c. Inr [\<lparr>h_device = Some ''h'', h_address = Some ''a'', h_online = Some True\<rparr>],
     direct_store = \<lambda>a c b. Answer 200 (), relay_store = \<lambda>d c b. False,
     direct_fetch = \<lambda>a c. Answer 200 (map_of (map (\<lambda>(idx, d). (''u:/a:'' @ show_nat (nat idx), d)) cs) c),
     relay_fetch = \<lambda>d c. None\<rparr>"

definition sample_chunks :: "(int \<times> bytes) list" where
  "sample_chunks = (case Chunker.split (encrypt \<lparr>eng_key = replicate 32 1, eng_crypto = toy_crypto\<rparr>
      (replicate 16 5) [1, 2]) 30 of Inr cs \<Rightarrow> cs | Inl x \<Rightarrow> [])"

definition sample_manager :: manager where
  "sample_manager = \<lparr>rm_chunk_size = 30, rm_min_replicas = 1, rm_self = Some ''d''\<rparr>"

text \<open>C16: A file is reported as replicated only if each of its chunks was recorded at the
  registry as a copy at least the required number of times, each time for a device that
  had accepted it.\<close>

theorem replicated_means_enough_copies:
  assumes "replicate_chunks e m ref cs = (Inr r, ev)" and "rr_status r = ''replicated''"
    and "(idx, d) \<in> set cs"
  shows "rm_min_replicas m \<le> copies (chunk_id e ref idx) ev \<and>
    (\<forall>c dv ok. Recorded c dv ok \<in> set ev \<longrightarrow>
      (\<exists>(i, b) \<in> set cs. \<exists>a. c = chunk_id e ref i \<and> holder_store e (Some dv) a c b))"
proof -
  obtain ns where ns: "replicate_loop e m ref cs = (Inr ns, ev)"
    and ok: "list_all (\<lambda>n. rm_min_replicas m \<le> n) ns"
    using assms(1,2) by (auto simp: replicate_chunks_def Let_def split: sum.splits prod.splits if_splits)
  show ?thesis
    using replicate_loop_copies [OF ns ok assms(3)] replicate_loop_accepted [OF ns] by blast
qed

theorem replicated_means_enough_copies_witness:
  "1 \<le> copies (chunk_id (one_holder []) ''r'' 0)
     (snd (replicate_chunks (one_holder []) sample_manager ''r'' [(0, [7])]))"
proof -
  let ?r = "\<lparr>rr_status = ''replicated'', rr_chunks = 1, rr_replicas = [1]\<rparr>"
  have "replicate_chunks (one_holder []) sample_manager ''r'' [(0, [7])] =
      (Inr ?r, snd (replicate_chunks (one_holder []) sample_manager ''r'' [(0, [7])]))"
    by (rule run_eq) code_simp
  from replicated_means_enough_copies [OF this, of 0 "[7]"] show ?thesis
    by (simp add: sample_manager_def)
qed



text \<open>Repairing a chunk adds at most the copies that are missing, each recorded at the
  registry, and calls the chunk healthy exactly if the copies that were reachable before
  and the added ones reach the target.\<close>

lemma heal_chunk_effect:
  assumes "heal_chunk e m cid = (Inr h, ev)" and "replicas_answer e cid = Inr hs"
    and "up = length (filter (\<lambda>x. online x \<and> truthy (h_address x)) hs)"
  shows "(ho_healthy h \<longleftrightarrow> rm_min_replicas m \<le> up + ho_added h) \<and>
    ho_added h \<le> rm_min_replicas m - up \<and> ho_added h \<le> copies cid ev"
proof -
  let ?up = "filter (\<lambda>x. online x \<and> truthy (h_address x)) hs"
  show ?thesis
  proof (cases "rm_min_replicas m \<le> length ?up")
    case True
    then show ?thesis using assms by (auto simp: heal_chunk_def Let_def)
  next
    case short: False
    show ?thesis
    proof (cases "List.map_filter (\<lambda>x. holder_fetch e (h_device x) (h_address x) cid) ?up")
      case Nil
      then show ?thesis using assms short by (auto simp: heal_chunk_def Let_def)
    next
      case (Cons d ds)
      let ?ex = "let current = map (\<lambda>h. the (h_device h)) (filter (\<lambda>h. truthy (h_device h)) hs) in
        if truthy (rm_self m) \<and> the (rm_self m) \<notin> set current then current @ [the (rm_self m)] else current"
      obtain cands where c: "placement_answer e (int (length d)) (rm_min_replicas m) ?ex = Inr cands"
        using assms short Cons by (auto simp: heal_chunk_def Let_def split: sum.splits)
      let ?need = "nat (int (rm_min_replicas m) - int (length ?up))"
      obtain added where pl: "place e (Some ?need) cid d 0 cands = (Inr added, ev)"
        and h: "h = \<lparr>ho_chunk = cid, ho_added = added, ho_healthy = (rm_min_replicas m \<le> length ?up + added)\<rparr>"
        using assms short Cons c by (auto simp: heal_chunk_def Let_def split: prod.splits sum.splits)
      have "added \<le> ?need" using place_count [OF pl] by simp
      moreover have "added \<le> copies cid ev" using place_copies [OF pl] by simp
      ultimately show ?thesis using h assms(3) short by (simp add: nat_diff_distrib')
    qed
  qed
qed

section \<open>Divergences\<close>

text \<open>The health check counts a holder that is online but has no address, the repair does
  not: such a chunk is reported as not degraded and is never repaired by the scheduler,
  although the repair itself would call it short of copies.\<close>

lemma health_counts_unreachable:
  "let e = (one_holder [])\<lparr>replicas_answer := \<lambda>c. Inr [\<lparr>h_device = Some ''h'', h_address = None, h_online = None\<rparr>],
             chunks_answer := \<lambda>r. Inr [(''c'', 0)]\<rparr>
   in replication_health e sample_manager ''/a'' =
        Inr \<lparr>hs_degraded = False, hs_chunks = 1, hs_min_online = 1\<rparr> \<and>
      fst (heal_chunk e sample_manager ''c'') = Inr \<lparr>ho_chunk = ''c'', ho_added = 0, ho_healthy = False\<rparr>"
  by code_simp

text \<open>Overwriting a replicated file keeps its status, so the new content is not backed up.\<close>

lemma overwrite_keeps_replicated:
  "let j = sample_full\<lparr>md := snd (set_replication_status ''/a'' ''replicated'' (md sample_full))\<rparr>;
       k = snd (write_file sample_env ''/a'' [9, 9, 9] j)
   in get_replication_status ''/a'' (md k) = Some ''replicated'' \<and>
      list_virtual_paths_for_replication [''none'', ''pending''] (Some ''d'') (md k) = []"
  by code_simp

end
