(* ===== verification/Replication_Scheduler.thy ===== *)
theory Replication_Scheduler
  imports Metadata_Store
begin

text \<open>
  \<^verbatim>\<open>stardustlib/replication_scheduler.py\<close>: the background cycles that back up files and
  repair their copies. The manager the scheduler drives is an argument, as it is in the
  code; \<open>'s\<close> is whatever state it works on. Files of one cycle that the code handles
  concurrently are handled in the order of the list.
\<close>

section \<open>State\<close>

record 's manager_api =
  api_store :: "'s \<Rightarrow> mstore"
  api_replicate :: "string \<Rightarrow> 's \<Rightarrow> string result \<times> 's"
  api_degraded :: "string \<Rightarrow> 's \<Rightarrow> bool result"
  api_ensure :: "string \<Rightarrow> 's \<Rightarrow> string result \<times> 's"

record sched =
  owner_device :: "string option"
  heal_grace :: time
  max_files :: nat
  backup_interval :: time
  degraded_since :: "time dict"
  skip_backup :: "string list"
  stopped :: bool

definition BACKLOG_DRAIN_DELAY :: time where "BACKLOG_DRAIN_DELAY = 2"

definition sched_init :: "string option \<Rightarrow> sched" where
  "sched_init owner = \<lparr>owner_device = owner, heal_grace = 86400, max_files = 20,
     backup_interval = 300, degraded_since = [], skip_backup = [], stopped = False\<rparr>"

section \<open>The backup cycle\<close>

definition backup_targets :: "'s manager_api \<Rightarrow> sched \<Rightarrow> 's \<Rightarrow> string list" where
  "backup_targets a c s =
     filter (\<lambda>vp. vp \<notin> set (skip_backup c))
       (take (max_files c)
         (list_virtual_paths_for_replication [''none'', ''pending''] (owner_device c) (api_store a s)))"

text \<open>One file: counted when the manager returns, remembered when it has no local file.\<close>

definition backup_one ::
  "'s manager_api \<Rightarrow> string \<Rightarrow> nat \<times> sched \<times> 's \<Rightarrow> nat \<times> sched \<times> 's" where
  "backup_one a vp st = (case st of (n, c, s) \<Rightarrow>
     if stopped c then (n, c, s)
     else (case api_replicate a vp s of
       (Inr r, s') \<Rightarrow> (n + 1, c, s')
     | (Inl e, s') \<Rightarrow>
         if e = FileNotFoundError then (n, c\<lparr>skip_backup := List.insert vp (skip_backup c)\<rparr>, s')
         else (n, c, s')))"

definition run_backup_cycle :: "'s manager_api \<Rightarrow> sched \<Rightarrow> 's \<Rightarrow> nat \<times> sched \<times> 's" where
  "run_backup_cycle a c s = fold (backup_one a) (backup_targets a c s) (0, c, s)"

text \<open>The delay \<open>_backup_loop\<close> takes after a cycle.\<close>

definition backup_delay :: "sched \<Rightarrow> nat \<Rightarrow> time" where
  "backup_delay c processed = (if max_files c \<le> processed then BACKLOG_DRAIN_DELAY else backup_interval c)"

section \<open>The repair cycle\<close>

text \<open>The state of the cycle: files repaired, the paths repaired (for the properties), the
  scheduler and the manager's state.\<close>

definition heal_one ::
  "'s manager_api \<Rightarrow> time \<Rightarrow> string \<Rightarrow> nat \<times> string list \<times> sched \<times> 's \<Rightarrow>
     nat \<times> string list \<times> sched \<times> 's" where
  "heal_one a now vp st = (case st of (n, done_, c, s) \<Rightarrow>
     if stopped c then st
     else (case api_degraded a vp s of
       Inl e \<Rightarrow> st
     | Inr degraded \<Rightarrow>
         if \<not> degraded then (n, done_, c\<lparr>degraded_since := AList.delete vp (degraded_since c)\<rparr>, s)
         else (let first = (case map_of (degraded_since c) vp of None \<Rightarrow> now | Some t \<Rightarrow> t);
                   c' = (if map_of (degraded_since c) vp = None
                         then c\<lparr>degraded_since := AList.update vp now (degraded_since c)\<rparr> else c)
           in if now - first < heal_grace c then (n, done_, c', s)
              else (case api_ensure a vp s of
                (Inl e, s') \<Rightarrow> (n, done_ @ [vp], c', s')
              | (Inr r, s') \<Rightarrow>
                  (n + 1, done_ @ [vp], c'\<lparr>degraded_since := AList.delete vp (degraded_since c')\<rparr>, s')))))"

definition run_heal_cycle ::
  "'s manager_api \<Rightarrow> time \<Rightarrow> sched \<Rightarrow> 's \<Rightarrow> nat \<times> string list \<times> sched \<times> 's" where
  "run_heal_cycle a now c s =
     fold (heal_one a now)
       (take (max_files c)
         (list_virtual_paths_for_replication [''replicated''] (owner_device c) (api_store a s)))
       (0, [], c, s)"

section \<open>What the cycles keep\<close>

lemma backup_one_frame:
  "backup_one a vp (n, c, s) = (n', c', s') \<Longrightarrow>
    max_files c' = max_files c \<and> owner_device c' = owner_device c \<and> stopped c' = stopped c \<and>
    n' \<le> Suc n \<and> set (skip_backup c) \<subseteq> set (skip_backup c')"
  by (auto simp: backup_one_def split: if_splits prod.splits sum.splits)

lemma backup_fold_count:
  "fold (backup_one a) vps (n, c, s) = (n', c', s') \<Longrightarrow>
    n' \<le> n + length vps \<and> max_files c' = max_files c \<and> set (skip_backup c) \<subseteq> set (skip_backup c')"
proof (induction vps arbitrary: n c s)
  case (Cons vp vps)
  obtain n1 c1 s1 where b: "backup_one a vp (n, c, s) = (n1, c1, s1)"
    by (cases "backup_one a vp (n, c, s)")
  show ?case
    using Cons.IH [of n1 c1 s1] Cons.prems backup_one_frame [OF b] b by auto
qed simp

text \<open>First observations of degraded files lie in the past, and a file is repaired only after
  the grace period.\<close>

definition observed_before :: "time \<Rightarrow> sched \<Rightarrow> bool" where
  "observed_before now c \<longleftrightarrow> (\<forall>vp t. map_of (degraded_since c) vp = Some t \<longrightarrow> t \<le> now)"

lemma heal_one_grace:
  assumes "heal_one a now vp (n, dn, c, s) = (n', dn', c', s')"
  shows "heal_grace c' = heal_grace c \<and>
    (dn' = dn \<or> dn' = dn @ [vp] \<and>
       (heal_grace c \<le> 0 \<or> (\<exists>t. map_of (degraded_since c) vp = Some t \<and> heal_grace c \<le> now - t))) \<and>
    (\<forall>q. q \<noteq> vp \<longrightarrow> map_of (degraded_since c') q = map_of (degraded_since c) q)"
  using assms
  by (auto simp: heal_one_def Let_def split: if_splits sum.splits prod.splits option.splits)

lemma heal_fold_listed:
  "fold (heal_one a now) vps (n, dn, c, s) = (n', dn', c', s') \<Longrightarrow> set dn' \<subseteq> set dn \<union> set vps"
proof (induction vps arbitrary: n dn c s)
  case (Cons w ws)
  obtain n2 dn2 c2 s2 where h2: "heal_one a now w (n, dn, c, s) = (n2, dn2, c2, s2)"
    by (cases "heal_one a now w (n, dn, c, s)")
  have "set dn2 \<subseteq> set dn \<union> {w}" using heal_one_grace [OF h2] by auto
  moreover have "set dn' \<subseteq> set dn2 \<union> set ws" using Cons.IH [of n2 dn2 c2 s2] Cons.prems h2 by simp
  ultimately show ?case by auto
qed simp

lemma heal_fold_grace:
  assumes "fold (heal_one a now) vps (n, dn, c, s) = (n', dn', c', s')" and "distinct vps"
    and "vp \<in> set dn' - set dn"
  shows "heal_grace c \<le> 0 \<or> (\<exists>t. map_of (degraded_since c) vp = Some t \<and> heal_grace c \<le> now - t)"
  using assms
proof (induction vps arbitrary: n dn c s)
  case (Cons v vps)
  obtain n1 dn1 c1 s1 where h: "heal_one a now v (n, dn, c, s) = (n1, dn1, c1, s1)"
    by (cases "heal_one a now v (n, dn, c, s)")
  have f: "fold (heal_one a now) vps (n1, dn1, c1, s1) = (n', dn', c', s')"
    using Cons.prems(1) h by simp
  note g = heal_one_grace [OF h]
  have sub: "set dn' \<subseteq> set dn1 \<union> set vps" using f by (rule heal_fold_listed)
  show ?case
  proof (cases "vp \<in> set dn1")
    case True
    then show ?thesis using g Cons.prems(3) by auto
  next
    case False
    then have "vp \<in> set vps" using sub Cons.prems(3) by auto
    then have "vp \<noteq> v" using Cons.prems(2) by auto
    then show ?thesis
      using Cons.IH [OF f] Cons.prems(2,3) False g by auto
  qed
qed simp

lemma replication_paths_distinct:
  "paths_distinct m \<Longrightarrow> distinct (list_virtual_paths_for_replication sts owner m)"
  by (simp add: list_virtual_paths_for_replication_def paths_distinct_def distinct_map_filter)

section \<open>Properties\<close>

text \<open>A file is repaired only when it has been seen degraded for the whole grace period:
  at the start of the cycle it already was on record as degraded since a time at least
  that long ago.\<close>

lemma heal_respects_grace:
  assumes "paths_distinct (api_store a s)" and "0 < heal_grace c"
    and "run_heal_cycle a now c s = (n, healed, c', s')" and "vp \<in> set healed"
  shows "\<exists>t. map_of (degraded_since c) vp = Some t \<and> heal_grace c \<le> now - t"
  using heal_fold_grace [of a now _ 0 "[]" c s n healed c' s' vp] assms
  by (auto simp: run_heal_cycle_def intro: distinct_take replication_paths_distinct)

text \<open>An example: one replicated file whose copies are always short.\<close>

definition example_store :: mstore where
  "example_store = snd (set_replication_status ''/a'' ''replicated''
     (insert_file ''/a'' ''s'' ''p'' 1 0 0 (Some ''d'') empty_store))"

definition example_api :: "mstore manager_api" where
  "example_api = \<lparr>api_store = \<lambda>s. s, api_replicate = \<lambda>vp s. (Inr ''replicated'', s),
     api_degraded = \<lambda>vp s. Inr True, api_ensure = \<lambda>vp s. (Inr ''replicated'', s)\<rparr>"

definition example_sched :: sched where
  "example_sched = (sched_init (Some ''d''))\<lparr>degraded_since := [(''/a'', 5)]\<rparr>"

text \<open>A backup cycle handles at most the configured number of files; but once that many
  files at the head of the list cannot be backed up here, every cycle does nothing, however
  many other files wait behind them.\<close>

lemma backup_cycle_bounded_and_starved:
  "fst (run_backup_cycle a c s) \<le> max_files c \<and>
   (set (take (max_files c) (list_virtual_paths_for_replication [''none'', ''pending'']
       (owner_device c) (api_store a s))) \<subseteq> set (skip_backup c) \<longrightarrow>
    run_backup_cycle a c s = (0, c, s))"
proof -
  obtain n c' s' where r: "fold (backup_one a) (backup_targets a c s) (0, c, s) = (n, c', s')"
    by (cases "fold (backup_one a) (backup_targets a c s) (0, c, s)")
  have "length (backup_targets a c s) \<le> max_files c"
    unfolding backup_targets_def by (rule order_trans [OF length_filter_le]) simp
  with backup_fold_count [OF r] have "n \<le> max_files c" by simp
  moreover have "backup_targets a c s = []"
    if "set (take (max_files c) (list_virtual_paths_for_replication [''none'', ''pending'']
       (owner_device c) (api_store a s))) \<subseteq> set (skip_backup c)"
    using that by (auto simp: backup_targets_def filter_empty_conv)
  ultimately show ?thesis by (simp add: run_backup_cycle_def r)
qed

text \<open>The repair cycle looks at the first files of the list only, in every cycle at the same ones: a file
  behind them is not even checked, however long its copies are short.\<close>

lemma heal_checks_only_first_files:
  assumes "run_heal_cycle a now c s = (n, healed, c', s')"
    and "vp \<notin> set (take (max_files c) (list_virtual_paths_for_replication [''replicated''] (owner_device c) (api_store a s)))"
  shows "vp \<notin> set healed"
  using assms heal_fold_listed [of a now _ 0 "[]" c s n healed c' s'] by (auto simp: run_heal_cycle_def)

end
