(* ===== verification/Base64.thy ===== *)
theory Base64
  imports Prelude
begin

text \<open>
  \<open>base64.b64encode\<close> and \<open>base64.b64decode\<close> of Python's standard library, which the peer
  protocol uses to carry file contents in JSON. Decoding follows \<open>binascii.a2b_base64\<close> in
  its lenient mode: characters outside the alphabet are skipped, a complete padding ends
  the input, and an incomplete last group is an error.
\<close>

definition b64_alphabet :: string where
  "b64_alphabet = ''ABCDEFGHIJKLMNOPQRSTUVWXYZabcdefghijklmnopqrstuvwxyz0123456789+/''"

definition b64_char :: "nat \<Rightarrow> char" where
  "b64_char n = b64_alphabet ! n"

definition b64_value :: "char \<Rightarrow> nat option" where
  "b64_value c = map_of (zip b64_alphabet [0 ..< 64]) c"

fun b64encode :: "bytes \<Rightarrow> string" where
  "b64encode [] = []"
| "b64encode [a] = [b64_char (unat a div 4), b64_char (unat a mod 4 * 16), CHR ''='', CHR ''='']"
| "b64encode [a, b] = [b64_char (unat a div 4), b64_char (unat a mod 4 * 16 + unat b div 16),
     b64_char (unat b mod 16 * 4), CHR ''='']"
| "b64encode (a # b # c # rest) =
     b64_char (unat a div 4) # b64_char (unat a mod 4 * 16 + unat b div 16) #
     b64_char (unat b mod 16 * 4 + unat c div 64) # b64_char (unat c mod 64) # b64encode rest"

text \<open>\<open>q\<close> characters of the current group of four have been read, \<open>left\<close> holds the bits not
  yet written, \<open>pads\<close> counts the padding seen.\<close>

fun a2b_base64 :: "nat \<Rightarrow> nat \<Rightarrow> nat \<Rightarrow> string \<Rightarrow> bytes option" where
  "a2b_base64 q left pads [] = (if q = 0 then Some [] else None)"
| "a2b_base64 q left pads (c # cs) =
     (if c = CHR ''='' then
        (if 2 \<le> q then
           (if 4 \<le> q + Suc pads then Some [] else a2b_base64 q left (Suc pads) cs)
         else a2b_base64 q left pads cs)
      else (case b64_value c of
        None \<Rightarrow> a2b_base64 q left pads cs
      | Some v \<Rightarrow>
          if q = 0 then a2b_base64 1 v 0 cs
          else if q = 1 then map_option ((#) (word_of_nat (left * 4 + v div 16))) (a2b_base64 2 (v mod 16) 0 cs)
          else if q = 2 then map_option ((#) (word_of_nat (left * 16 + v div 4))) (a2b_base64 3 (v mod 4) 0 cs)
          else map_option ((#) (word_of_nat (left * 64 + v))) (a2b_base64 0 0 0 cs)))"

definition b64decode :: "string \<Rightarrow> bytes option" where
  "b64decode s = (if list_all (\<lambda>c. (of_char c :: nat) < 128) s then a2b_base64 0 0 0 s else None)"

section \<open>Round trip\<close>

lemma b64_alphabet_facts: "length b64_alphabet = 64" "distinct b64_alphabet"
  "CHR ''='' \<notin> set b64_alphabet" "list_all (\<lambda>c. (of_char c :: nat) < 128) b64_alphabet"
  by code_simp+

lemma b64_value_char [simp]: "n < 64 \<Longrightarrow> b64_value (b64_char n) = Some n"
  using map_of_zip_nth [of b64_alphabet "[0 ..< 64]" n] b64_alphabet_facts
  by (simp add: b64_value_def b64_char_def)

lemma b64_char_facts [simp]:
  assumes "n < 64"
  shows "b64_char n \<noteq> CHR ''=''" and "(of_char (b64_char n) :: nat) < 128"
proof -
  have "b64_char n \<in> set b64_alphabet"
    using assms b64_alphabet_facts(1) by (simp add: b64_char_def)
  then show "b64_char n \<noteq> CHR ''=''" "(of_char (b64_char n) :: nat) < 128"
    using b64_alphabet_facts by (auto simp: list_all_iff)
qed

lemma unat_byte: "unat (a :: 8 word) < 256"
  using unsigned_less [of a] by simp

lemma sextets [simp]:
  fixes a b :: "8 word"
  shows "unat a div 4 < 64" "unat a mod 4 * 16 < 64" "unat a mod 4 * 16 + unat b div 16 < 64"
    "unat a mod 16 * 4 < 64" "unat a mod 16 * 4 + unat b div 64 < 64" "unat a mod 64 < 64"
  using unat_byte [of a] unat_byte [of b] by linarith+

lemma b64_carry [simp]:
  "(n * 16 + k) div 16 = n + k div 16" "(n * 4 + k) div 4 = n + k div 4" for n k :: nat
  by simp_all

lemma b64encode_ascii: "list_all (\<lambda>c. (of_char c :: nat) < 128) (b64encode d)"
  by (induction d rule: b64encode.induct) auto

lemma a2b_encode: "a2b_base64 0 0 0 (b64encode d) = Some d"
proof (induction d rule: b64encode.induct)
  case (2 a)
  then show ?case using unat_byte [of a] by simp
next
  case (3 a b)
  have "unat b div 16 < 16" "(unat a mod 4 * 16 + unat b div 16) mod 16 = unat b div 16"
    using unat_byte [of b] by simp_all
  then show ?case using unat_byte [of b] by simp
next
  case (4 a b c rest)
  have "(unat a mod 4 * 16 + unat b div 16) mod 16 = unat b div 16" "unat b div 16 div 16 = 0"
    "(unat b mod 16 * 4 + unat c div 64) mod 4 = unat c div 64" "unat c div 64 div 4 = 0"
    using unat_byte [of b] unat_byte [of c] by simp_all
  then show ?case using 4 by simp
qed simp

theorem b64_round_trip [simp]: "b64decode (b64encode d) = Some d"
  by (simp add: b64decode_def b64encode_ascii a2b_encode)

end
