(* ===== verification/P2P_Server.thy ===== *)
theory P2P_Server
  imports JBOD_Manager Parity_Store Posix_Path Base64
begin

text \<open>
  \<^verbatim>\<open>stardustlib/p2p_server.py\<close>: the requests a device serves to other devices, through
  HTTP (\<open>handle\<close>, \<open>handle_replica\<close>) or through the relay (\<open>dispatch\<close>). A request is the
  parsed JSON body, a missing key being \<open>None\<close>; values that are not strings are not
  modelled. \<open>Inl\<close> is an exception that leaves the handler, which the HTTP library turns
  into status 500. The central server's answers and the root directories of the sources
  come from an environment.
\<close>

section \<open>Requests and replies\<close>

record request =
  rq_source :: "string option"
  rq_path :: "string option"
  rq_data :: "string option"
  rq_chunk :: "string option"
  rq_auth :: "string option"
  rq_share :: "string option"

datatype reply =
    RError string
  | RData string
  | RWritten nat
  | RStatus string
  | REntries "string list"
  | RExists bool
  | RSpace int int

type_synonym response = "int \<times> reply"

record token_info =
  ti_valid :: bool
  ti_user :: "string option"

record share_info =
  si_valid :: bool
  si_device :: "string option"

record p2p_env =
  p_os :: os_env
  source_path :: "string \<Rightarrow> string"
  verify_answer :: "string \<Rightarrow> token_info direct"
  share_answer :: "string \<Rightarrow> string \<Rightarrow> share_info direct"

record p2p =
  jb :: jbod
  parity :: "parity_store option"
  local_user :: "string option"

definition MAX_WRITE_SIZE :: int where "MAX_WRITE_SIZE = 100 * 1024 * 1024"

definition put_source :: "nat \<Rightarrow> source \<Rightarrow> p2p \<Rightarrow> p2p" where
  "put_source i s st = st\<lparr>jb := (jb st)\<lparr>sources := (sources (jb st))[i := s]\<rparr>\<rparr>"

section \<open>Choosing the source and checking the path\<close>

definition select_source_or_error :: "request \<Rightarrow> p2p \<Rightarrow> response + nat" where
  "select_source_or_error rq st =
     (if truthy (rq_source rq) then
        (case source_index (the (rq_source rq)) (jb st) of
          None \<Rightarrow> Inl (404, RError ''Source not found'')
        | Some i \<Rightarrow> Inr i)
      else if sources (jb st) \<noteq> [] then Inr 0
      else Inl (404, RError ''No source available''))"

text \<open>What the changing operations do with an unknown source: they take the first one.\<close>

definition source_or_first :: "request \<Rightarrow> p2p \<Rightarrow> response + nat" where
  "source_or_first rq st =
     (case select_source_or_error rq st of
       Inr i \<Rightarrow> Inr i
     | Inl _ \<Rightarrow> if sources (jb st) \<noteq> [] then Inr 0 else Inl (404, RError ''No source available''))"

text \<open>A loopback source keeps its files in the companion directory beside its image.\<close>

definition source_data_root :: "p2p_env \<Rightarrow> source \<Rightarrow> string" where
  "source_data_root e s =
     (case src_kind s of
       Loopback n \<Rightarrow> source_path e (src_id s) @ ''.d''
     | Directory \<Rightarrow> source_path e (src_id s)
     | Remote d \<Rightarrow> [])"

definition validate_path_err :: "string \<Rightarrow> string \<Rightarrow> response option" where
  "validate_path_err base p =
     (if p = [] then Some (400, RError ''Missing physical_path'')
      else if ''..'' \<in> set (split_on CHR ''/'' (replace_char CHR 0x5C CHR ''/'' p))
        then Some (400, RError ''Path traversal detected'')
      else if inside_root base p then None
      else Some (400, RError ''Path traversal detected''))"

text \<open>The file a source finds for a checked path: \<open>os.path.join\<close> of its root and the path,
  as the operating system follows it. A remote source sends the path on.\<close>

definition source_file :: "p2p_env \<Rightarrow> source \<Rightarrow> string \<Rightarrow> string" where
  "source_file e s p = (if is_remote s then p else below_root (source_data_root e s) p)"

text \<open>The beginning the operations share.\<close>

definition checked ::
  "p2p_env \<Rightarrow> request \<Rightarrow> response + nat \<Rightarrow> p2p \<Rightarrow>
     (nat \<Rightarrow> source \<Rightarrow> string \<Rightarrow> response result \<times> p2p) \<Rightarrow> response result \<times> p2p" where
  "checked e rq sel st k =
     (case sel of
       Inl r \<Rightarrow> (Inr r, st)
     | Inr i \<Rightarrow>
         (let s = sources (jb st) ! i; p = get_str (rq_path rq) in
          case validate_path_err (source_data_root e s) p of
            Some r \<Rightarrow> (Inr r, st)
          | None \<Rightarrow> k i s (source_file e s p)))"

section \<open>Operations on files\<close>

definition op_read :: "p2p_env \<Rightarrow> request \<Rightarrow> p2p \<Rightarrow> response result \<times> p2p" where
  "op_read e rq st = checked e rq (select_source_or_error rq st) st (\<lambda>i s p.
     case src_read (p_os e) p s of
       (Inr d, s') \<Rightarrow> (Inr (200, RData (b64encode d)), put_source i s' st)
     | (Inl x, s') \<Rightarrow>
         (if x = FileNotFoundError then Inr (404, RError ''File not found'') else Inl x, put_source i s' st))"

definition op_write :: "p2p_env \<Rightarrow> request \<Rightarrow> p2p \<Rightarrow> response result \<times> p2p" where
  "op_write e rq st = checked e rq (source_or_first rq st) st (\<lambda>i s p.
     case b64decode (get_str (rq_data rq)) of
       None \<Rightarrow> (Inr (400, RError ''Invalid base64 data''), st)
     | Some d \<Rightarrow>
         if MAX_WRITE_SIZE < int (length d) then (Inr (413, RError ''Payload too large (max 100MB)''), st)
         else (case src_write (p_os e) p d s of
           (Inr _, s') \<Rightarrow> (Inr (200, RWritten (length d)), put_source i s' st)
         | (Inl x, s') \<Rightarrow> (Inl x, put_source i s' st)))"

definition op_delete :: "p2p_env \<Rightarrow> request \<Rightarrow> p2p \<Rightarrow> response result \<times> p2p" where
  "op_delete e rq st = checked e rq (source_or_first rq st) st (\<lambda>i s p.
     case src_exists (p_os e) p s of
       Inl x \<Rightarrow> (Inl x, st)
     | Inr False \<Rightarrow> (Inr (404, RError ''File not found''), st)
     | Inr True \<Rightarrow>
         (case src_delete (p_os e) p s of
           (Inr _, s') \<Rightarrow> (Inr (200, RStatus ''deleted''), put_source i s' st)
         | (Inl x, s') \<Rightarrow>
             (if x = FileNotFoundError then Inr (404, RError ''File not found'') else Inl x, put_source i s' st)))"

definition op_list :: "p2p_env \<Rightarrow> request \<Rightarrow> p2p \<Rightarrow> response result \<times> p2p" where
  "op_list e rq st = checked e rq (select_source_or_error rq st) st (\<lambda>i s p.
     if \<not> isdir s (below_root (source_data_root e s) (get_str (rq_path rq)))
     then (Inr (404, RError ''Directory not found''), st)
     else (case src_list_dir (p_os e) p s of
       (Inr es, s') \<Rightarrow> (Inr (200, REntries es), put_source i s' st)
     | (Inl x, s') \<Rightarrow> (Inl x, put_source i s' st)))"

definition op_exists :: "p2p_env \<Rightarrow> request \<Rightarrow> p2p \<Rightarrow> response result \<times> p2p" where
  "op_exists e rq st = checked e rq (select_source_or_error rq st) st (\<lambda>i s p.
     case src_exists (p_os e) p s of
       Inl x \<Rightarrow> (Inl x, st)
     | Inr b \<Rightarrow> (Inr (200, RExists b), st))"

definition op_mkdir :: "p2p_env \<Rightarrow> request \<Rightarrow> p2p \<Rightarrow> response result \<times> p2p" where
  "op_mkdir e rq st = checked e rq (source_or_first rq st) st (\<lambda>i s p.
     case src_mkdir (p_os e) p s of
       (Inr _, s') \<Rightarrow> (Inr (200, RStatus ''created''), put_source i s' st)
     | (Inl x, s') \<Rightarrow> (Inl x, put_source i s' st))"

definition op_rmdir :: "p2p_env \<Rightarrow> request \<Rightarrow> p2p \<Rightarrow> response result \<times> p2p" where
  "op_rmdir e rq st = checked e rq (source_or_first rq st) st (\<lambda>i s p.
     if \<not> isdir s (below_root (source_data_root e s) (get_str (rq_path rq)))
     then (Inr (404, RError ''Directory not found''), st)
     else (case src_rmdir (p_os e) p s of
       (Inr _, s') \<Rightarrow> (Inr (200, RStatus ''removed''), put_source i s' st)
     | (Inl x, s') \<Rightarrow> (Inl x, put_source i s' st)))"

definition op_space :: "p2p_env \<Rightarrow> request \<Rightarrow> p2p \<Rightarrow> response result \<times> p2p" where
  "op_space e rq st =
     (case sources (jb st) of
       [] \<Rightarrow> (Inl IndexError, st)
     | s # _ \<Rightarrow>
         (case get_available_space (p_os e) s of
           (Inl x, s1) \<Rightarrow> (Inl x, put_source 0 s1 st)
         | (Inr a, s1) \<Rightarrow>
             (case get_total_space (p_os e) s1 of
               (Inl x, s2) \<Rightarrow> (Inl x, put_source 0 s2 st)
             | (Inr t, s2) \<Rightarrow> (Inr (200, RSpace a t), put_source 0 s2 st))))"

section \<open>Operations on hosted chunks\<close>

definition op_replica_store :: "request \<Rightarrow> string option \<Rightarrow> p2p \<Rightarrow> response result \<times> p2p" where
  "op_replica_store rq requester st =
     (case parity st of
       None \<Rightarrow> (Inr (503, RError ''Parity hosting not enabled''), st)
     | Some ps \<Rightarrow>
         (case b64decode (get_str (rq_data rq)) of
           None \<Rightarrow> (Inr (400, RError ''Invalid base64 data''), st)
         | Some d \<Rightarrow>
             if MAX_WRITE_SIZE < int (length d) then (Inr (413, RError ''Payload too large (max 100MB)''), st)
             else (let (r, ps') = parity_put (get_str (rq_chunk rq)) requester d ps;
                       st' = st\<lparr>parity := Some ps'\<rparr> in
               (case r of
                 Inr _ \<Rightarrow> Inr (200, RWritten (length d))
               | Inl ValueError \<Rightarrow> Inr (400, RError ''Invalid chunk_id'')
               | Inl PermissionError \<Rightarrow> Inr (403, RError ''Chunk owner mismatch'')
               | Inl QuotaExceededError \<Rightarrow> Inr (507, RError ''Insufficient storage (quota exceeded)'')
               | Inl x \<Rightarrow> Inl x, st'))))"

definition op_replica_fetch :: "request \<Rightarrow> string option \<Rightarrow> p2p \<Rightarrow> response result \<times> p2p" where
  "op_replica_fetch rq requester st =
     (case parity st of
       None \<Rightarrow> (Inr (503, RError ''Parity hosting not enabled''), st)
     | Some ps \<Rightarrow>
         (case parity_fetch (get_str (rq_chunk rq)) requester ps of
           Inr d \<Rightarrow> Inr (200, RData (b64encode d))
         | Inl ValueError \<Rightarrow> Inr (400, RError ''Invalid chunk_id'')
         | Inl FileNotFoundError \<Rightarrow> Inr (404, RError ''Chunk not found'')
         | Inl PermissionError \<Rightarrow> Inr (403, RError ''Not chunk owner'')
         | Inl x \<Rightarrow> Inl x, st))"

definition op_replica_delete :: "request \<Rightarrow> string option \<Rightarrow> p2p \<Rightarrow> response result \<times> p2p" where
  "op_replica_delete rq requester st =
     (case parity st of
       None \<Rightarrow> (Inr (503, RError ''Parity hosting not enabled''), st)
     | Some ps \<Rightarrow>
         (let (r, ps') = parity_delete (get_str (rq_chunk rq)) requester ps;
              st' = st\<lparr>parity := Some ps'\<rparr> in
          (case r of
            Inr _ \<Rightarrow> Inr (200, RStatus ''deleted'')
          | Inl ValueError \<Rightarrow> Inr (400, RError ''Invalid chunk_id'')
          | Inl PermissionError \<Rightarrow> Inr (403, RError ''Not chunk owner'')
          | Inl x \<Rightarrow> Inl x, st')))"

section \<open>The relay\<close>

datatype file_op = OpRead | OpWrite | OpDelete | OpList | OpExists | OpMkdir | OpRmdir | OpSpace
datatype replica_op = RepStore | RepFetch | RepDelete

fun run_op :: "p2p_env \<Rightarrow> file_op \<Rightarrow> request \<Rightarrow> p2p \<Rightarrow> response result \<times> p2p" where
  "run_op e OpRead rq st = op_read e rq st"
| "run_op e OpWrite rq st = op_write e rq st"
| "run_op e OpDelete rq st = op_delete e rq st"
| "run_op e OpList rq st = op_list e rq st"
| "run_op e OpExists rq st = op_exists e rq st"
| "run_op e OpMkdir rq st = op_mkdir e rq st"
| "run_op e OpRmdir rq st = op_rmdir e rq st"
| "run_op e OpSpace rq st = op_space e rq st"

fun run_replica :: "replica_op \<Rightarrow> request \<Rightarrow> string option \<Rightarrow> p2p \<Rightarrow> response result \<times> p2p" where
  "run_replica RepStore rq u st = op_replica_store rq u st"
| "run_replica RepFetch rq u st = op_replica_fetch rq u st"
| "run_replica RepDelete rq u st = op_replica_delete rq u st"

definition replica_map :: "replica_op dict" where
  "replica_map = [(''replica_store'', RepStore), (''replica_fetch'', RepFetch), (''replica_delete'', RepDelete)]"

definition op_map :: "file_op dict" where
  "op_map = [(''read'', OpRead), (''write'', OpWrite), (''delete'', OpDelete), (''list'', OpList),
     (''exists'', OpExists), (''mkdir'', OpMkdir), (''rmdir'', OpRmdir), (''space'', OpSpace)]"

definition caught :: "response result \<times> p2p \<Rightarrow> response \<times> p2p" where
  "caught r = (case r of
     (Inr x, st) \<Rightarrow> (x, st) | (Inl e, st) \<Rightarrow> ((500, RError ''Internal error''), st))"

definition dispatch :: "p2p_env \<Rightarrow> string \<Rightarrow> request \<Rightarrow> p2p \<Rightarrow> response \<times> p2p" where
  "dispatch e opname rq st =
     (case map_of replica_map opname of
       Some r \<Rightarrow> caught (run_replica r rq (local_user st) st)
     | None \<Rightarrow>
         (case map_of op_map opname of
           None \<Rightarrow> ((400, RError (''Unknown op: '' @ opname)), st)
         | Some f \<Rightarrow> caught (run_op e f rq st)))"

section \<open>Authorisation\<close>

definition verify_token :: "p2p_env \<Rightarrow> string \<Rightarrow> bool \<Rightarrow> string option \<Rightarrow> response + token_info" where
  "verify_token e tok same_user user =
     (case verify_answer e tok of
       Unreachable \<Rightarrow> Inl (503, RError ''Auth service unavailable'')
     | Answer code d \<Rightarrow>
         if code \<noteq> 200 then Inl (401, RError ''Invalid or expired token'')
         else if \<not> ti_valid d then Inl (401, RError ''Invalid or expired token'')
         else if same_user \<and> ti_user d \<noteq> user then Inl (403, RError ''User ID mismatch'')
         else Inr d)"

definition verify_share_token :: "p2p_env \<Rightarrow> string \<Rightarrow> string \<Rightarrow> response + share_info" where
  "verify_share_token e tok p =
     (case share_answer e tok p of
       Unreachable \<Rightarrow> Inl (503, RError ''Auth service unavailable'')
     | Answer code d \<Rightarrow>
         if code \<noteq> 200 then Inl (401, RError ''Invalid or expired share token'')
         else if \<not> si_valid d then
           (if truthy (si_device d) then Inl (403, RError ''Share token path mismatch'')
            else Inl (401, RError ''Invalid or expired share token''))
         else Inr d)"

text \<open>The body is \<open>None\<close> when it is not JSON.\<close>

definition parse_and_verify ::
  "p2p_env \<Rightarrow> bool \<Rightarrow> request option \<Rightarrow> string option \<Rightarrow> response + request" where
  "parse_and_verify e allow_share_token body user =
     (case body of
       None \<Rightarrow> Inl (400, RError ''Invalid JSON body'')
     | Some rq \<Rightarrow>
         if allow_share_token \<and> truthy (rq_share rq) then
           (case verify_share_token e (the (rq_share rq)) (get_str (rq_path rq)) of
             Inl r \<Rightarrow> Inl r | Inr _ \<Rightarrow> Inr rq)
         else if \<not> truthy (rq_auth rq) then Inl (401, RError ''Missing auth_token'')
         else (case verify_token e (the (rq_auth rq)) True user of
           Inl r \<Rightarrow> Inl r | Inr _ \<Rightarrow> Inr rq))"

definition parse_and_verify_any_user :: "p2p_env \<Rightarrow> request option \<Rightarrow> response + request \<times> string" where
  "parse_and_verify_any_user e body =
     (case body of
       None \<Rightarrow> Inl (400, RError ''Invalid JSON body'')
     | Some rq \<Rightarrow>
         if \<not> truthy (rq_auth rq) then Inl (401, RError ''Missing auth_token'')
         else (case verify_token e (the (rq_auth rq)) False None of
           Inl r \<Rightarrow> Inl r
         | Inr d \<Rightarrow>
             if truthy (ti_user d) then Inr (rq, the (ti_user d))
             else Inl (401, RError ''Invalid token (no user_id)'')))"

text \<open>The eleven HTTP handlers.\<close>

definition handle :: "p2p_env \<Rightarrow> file_op \<Rightarrow> request option \<Rightarrow> p2p \<Rightarrow> response result \<times> p2p" where
  "handle e f body st =
     (case parse_and_verify e (f = OpRead) body (local_user st) of
       Inl r \<Rightarrow> (Inr r, st)
     | Inr rq \<Rightarrow> run_op e f rq st)"

definition handle_replica ::
  "p2p_env \<Rightarrow> replica_op \<Rightarrow> request option \<Rightarrow> p2p \<Rightarrow> response result \<times> p2p" where
  "handle_replica e r body st =
     (case parse_and_verify_any_user e body of
       Inl x \<Rightarrow> (Inr x, st)
     | Inr (rq, user) \<Rightarrow> run_replica r rq (Some user) st)"

section \<open>Checked paths\<close>

lemma split_replace:
  "split_on c (replace_char b c p) = concat (map (split_on b) (split_on c p))" if "b \<noteq> c"
proof (induction p)
  case (Cons x p)
  obtain q qs where q: "split_on c p = q # qs" by (cases "split_on c p") auto
  obtain r rs where r: "split_on b q = r # rs" by (cases "split_on b q") auto
  from Cons q r that show ?case by (auto simp: replace_char_def)
qed (simp add: replace_char_def)

lemma valid_path_no_dots: "validate_path_err base p = None \<Longrightarrow> no_dots p"
  by (auto simp: validate_path_err_def no_dots_def split_replace split_on_plain split: if_splits)

lemma valid_path_inside: "validate_path_err base p = None \<Longrightarrow> inside_root base p"
  by (simp add: validate_path_err_def split: if_splits)

lemma plain_path_accepted:
  assumes "p \<noteq> []" and "\<not> prefix ''/'' p" and "CHR 0x5C \<notin> set p" and "no_dots p"
    and "norm_parts base \<noteq> []"
  shows "validate_path_err base p = None"
proof -
  have "replace_char CHR 0x5C CHR ''/'' p = p"
    using assms(3) by (auto simp: replace_char_def intro: map_idI)
  then show ?thesis
    using assms relative_inside(1) by (simp add: validate_path_err_def no_dots_def)
qed

section \<open>What a read leaves alone\<close>

lemma src_read_files [simp]: "src_files (snd (src_read env p s)) = src_files s"
  by (auto simp: src_read_def Let_def dir_read_def lb_read_def deactivate_def split: source_kind.split option.split)

lemma put_source_frame [simp]:
  "parity (put_source i s st) = parity st" "md (jb (put_source i s st)) = md (jb st)"
  "local_user (put_source i s st) = local_user st"
  by (simp_all add: put_source_def)

lemma put_source_files:
  "src_files s = src_files (sources (jb st) ! i) \<Longrightarrow>
    map src_files (sources (jb (put_source i s st))) = map src_files (sources (jb st))"
  by (simp add: put_source_def map_update list_update_same_conv)
    (metis list_update_beyond list_update_id map_update not_le)

definition same_content :: "p2p \<Rightarrow> p2p \<Rightarrow> bool" where
  "same_content st st' \<longleftrightarrow> md (jb st') = md (jb st) \<and> parity st' = parity st \<and>
     map src_files (sources (jb st')) = map src_files (sources (jb st))"

lemma same_content_refl [simp]: "same_content st st"
  by (simp add: same_content_def)

lemma op_read_keeps: "same_content st (snd (op_read e rq st))"
proof (cases "select_source_or_error rq st")
  case (Inr i)
  let ?s = "sources (jb st) ! i" and ?p = "get_str (rq_path rq)"
  let ?r = "src_read (p_os e) (source_file e ?s ?p) ?s"
  have put: "same_content st (put_source i (snd ?r) st)"
    by (simp add: same_content_def put_source_files)
  show ?thesis
  proof (cases "validate_path_err (source_data_root e ?s) ?p")
    case None
    obtain r s' where r: "?r = (r, s')" by (cases ?r)
    have "snd (op_read e rq st) = put_source i s' st"
      using Inr None r by (cases r) (simp_all add: op_read_def checked_def Let_def)
    then show ?thesis using put r by simp
  qed (simp add: op_read_def checked_def Let_def Inr)
qed (simp add: op_read_def checked_def)

section \<open>Requests one after another\<close>

text \<open>What a host goes through: HTTP requests for files and chunks, requests from the relay,
  and a new quota from the policy loop.\<close>

datatype p2p_event =
    HttpFile file_op "request option"
  | HttpReplica replica_op "request option"
  | Relayed string request
  | NewQuota "int option"

fun p2p_step :: "p2p_env \<Rightarrow> p2p_event \<Rightarrow> p2p \<Rightarrow> p2p" where
  "p2p_step e (HttpFile f body) st = snd (handle e f body st)"
| "p2p_step e (HttpReplica r body) st = snd (handle_replica e r body st)"
| "p2p_step e (Relayed name rq) st = snd (dispatch e name rq st)"
| "p2p_step e (NewQuota mx) st = st\<lparr>parity := map_option (set_max_bytes mx) (parity st)\<rparr>"

definition same_user_and_chunks :: "p2p \<Rightarrow> p2p \<Rightarrow> bool" where
  "same_user_and_chunks st t \<longleftrightarrow> parity t = parity st \<and> local_user t = local_user st"

lemma same_user_and_chunks_put [simp]:
  "same_user_and_chunks st st" "same_user_and_chunks st (put_source i s st)"
  by (simp_all add: same_user_and_chunks_def)

lemma checked_frame:
  assumes "\<And>i s p. same_user_and_chunks st (snd (k i s p))"
  shows "same_user_and_chunks st (snd (checked e rq sel st k))"
  using assms by (auto simp: checked_def Let_def split: sum.split option.split)

lemma run_op_frame': "same_user_and_chunks st (snd (run_op e f rq st))"
proof (cases f)
  case OpRead
  then show ?thesis
    by (auto simp: op_read_def split: prod.split sum.split intro!: checked_frame)
next
  case OpWrite
  then show ?thesis
    by (auto simp: op_write_def split: prod.split sum.split option.split intro!: checked_frame)
next
  case OpDelete
  then show ?thesis
    by (auto simp: op_delete_def split: prod.split sum.split bool.split intro!: checked_frame)
next
  case OpList
  then show ?thesis by (auto simp: op_list_def split: prod.split sum.split intro!: checked_frame)
next
  case OpExists
  then show ?thesis by (auto simp: op_exists_def split: sum.split intro!: checked_frame)
next
  case OpMkdir
  then show ?thesis by (auto simp: op_mkdir_def split: prod.split sum.split intro!: checked_frame)
next
  case OpRmdir
  then show ?thesis by (auto simp: op_rmdir_def split: prod.split sum.split intro!: checked_frame)
next
  case OpSpace
  then show ?thesis by (auto simp: op_space_def split: list.split prod.split sum.split)
qed

lemma run_op_frame:
  "parity (snd (run_op e f rq st)) = parity st" "local_user (snd (run_op e f rq st)) = local_user st"
  using run_op_frame' [of st e f rq] by (simp_all add: same_user_and_chunks_def)

text \<open>A chunk that \<open>u\<close> can fetch stays so under the requests of others.\<close>

definition fetchable :: "string \<Rightarrow> string option \<Rightarrow> bytes \<Rightarrow> p2p \<Rightarrow> bool" where
  "fetchable cid u d st \<longleftrightarrow> (case parity st of None \<Rightarrow> False | Some ps \<Rightarrow> parity_fetch cid u ps = Inr d)"

lemma run_replica_foreign:
  assumes "w \<noteq> u" and "fetchable cid u d st"
  shows "fetchable cid u d (snd (run_replica r rq w st))"
proof -
  obtain ps where ps: "parity st = Some ps" "parity_fetch cid u ps = Inr d"
    using assms(2) by (auto simp: fetchable_def split: option.splits)
  note keep = parity.put_foreign_get [OF assms(1) [symmetric] ps(2)] parity.del_foreign_get [OF assms(1) [symmetric] ps(2)]
  show ?thesis
  proof (cases r)
    case RepStore
    then show ?thesis
      using keep ps by (auto simp: op_replica_store_def fetchable_def Let_def split: option.split prod.split)
        (metis snd_conv)+
  next
    case RepFetch
    then show ?thesis using ps by (simp add: op_replica_fetch_def fetchable_def)
  next
    case RepDelete
    then show ?thesis
      using keep ps by (auto simp: op_replica_delete_def fetchable_def Let_def split: prod.split)
        (metis snd_conv)+
  qed
qed

lemma parity_put_outcomes:
  "fst (parity_put cid u d ps) \<in> {Inr (), Inl ValueError, Inl PermissionError, Inl QuotaExceededError}"
  by (simp add: parity_put_def)

lemma store_accepted:
  assumes "op_replica_store rq u st = (Inr (200, r), st')"
    and "b64decode (get_str (rq_data rq)) = Some d"
  shows "fetchable (get_str (rq_chunk rq)) u d st'"
proof -
  obtain ps where ps: "parity st = Some ps"
    using assms by (cases "parity st") (auto simp: op_replica_store_def)
  obtain x ps' where put: "parity_put (get_str (rq_chunk rq)) u d ps = (x, ps')"
    by (cases "parity_put (get_str (rq_chunk rq)) u d ps")
  have "x = Inr () \<and> parity st' = Some ps'"
    using assms ps put parity_put_outcomes [of "get_str (rq_chunk rq)" u d ps]
    by (cases "MAX_WRITE_SIZE < int (length d)")
      (elim insertE emptyE; simp add: op_replica_store_def; auto)+
  then show ?thesis using parity.put_get put by (simp add: fetchable_def)
qed

lemma run_replica_user: "local_user (snd (run_replica r rq w st)) = local_user st"
  by (cases r) (auto simp: op_replica_store_def op_replica_fetch_def op_replica_delete_def Let_def
      split: option.split prod.split)

lemma snd_caught [simp]: "snd (caught x) = snd x"
  by (auto simp: caught_def split: prod.split sum.split)

text \<open>The user on whose behalf an event acts on chunks.\<close>

fun acts_for :: "p2p_env \<Rightarrow> string option \<Rightarrow> p2p_event \<Rightarrow> string option option" where
  "acts_for e me (HttpFile f body) = None"
| "acts_for e me (HttpReplica r body) =
     (case parse_and_verify_any_user e body of Inl x \<Rightarrow> None | Inr (rq, u) \<Rightarrow> Some (Some u))"
| "acts_for e me (Relayed name rq) = (if map_of replica_map name = None then None else Some me)"
| "acts_for e me (NewQuota mx) = None"

lemma p2p_step_user: "local_user (p2p_step e ev st) = local_user st"
  by (cases ev) (auto simp: handle_def handle_replica_def dispatch_def run_op_frame run_replica_user
      split: sum.split option.split)

lemma p2p_step_foreign:
  assumes "acts_for e (local_user st) ev \<noteq> Some u" and "fetchable cid u d st"
  shows "fetchable cid u d (p2p_step e ev st)"
proof (cases ev)
  case (HttpFile f body)
  then show ?thesis
    using assms(2) by (simp add: handle_def fetchable_def run_op_frame split: sum.split)
next
  case (HttpReplica r body)
  then show ?thesis
    using assms run_replica_foreign by (auto simp: handle_replica_def split: sum.split)
next
  case (Relayed name rq)
  show ?thesis
  proof (cases "map_of replica_map name")
    case None
    have "fetchable cid u d (snd (run_op e f rq st))" for f
      using assms(2) by (simp add: fetchable_def run_op_frame)
    then show ?thesis using assms(2) None Relayed by (simp add: dispatch_def split: option.split)
  next
    case (Some r)
    then show ?thesis using assms Relayed run_replica_foreign by (simp add: dispatch_def)
  qed
next
  case (NewQuota mx)
  then show ?thesis using assms(2) by (auto simp: fetchable_def split: option.splits)
qed

lemma p2p_run_foreign:
  assumes "list_all (\<lambda>ev. acts_for e (local_user st) ev \<noteq> Some u) evs" and "fetchable cid u d st"
  shows "fetchable cid u d (fold (p2p_step e) evs st)"
  using assms
proof (induction evs arbitrary: st)
  case (Cons ev evs)
  then have "fetchable cid u d (p2p_step e ev st)" using p2p_step_foreign by simp
  then show ?case using Cons by (simp add: p2p_step_user)
qed simp

section \<open>Properties\<close>

text \<open>C9: Whatever path a request names, an operation that is let through touches a file below
  the root of its source: following the path from the root, as the operating system does,
  only descends from the root and never climbs.\<close>

theorem p2p_paths_confined:
  assumes "validate_path_err base p = None"
  shows "walk cwd (path_join base p) = walk cwd base @ names (below_root base p) \<and>
    ''..'' \<notin> set (names (below_root base p))"
  using inside_root_walk [OF valid_path_no_dots [OF assms] valid_path_inside [OF assms]] names_no_dots
  by blast

theorem p2p_paths_confined_witness:
  "walk [''home''] (path_join ''/srv/./disk'' ''a/./b'') =
     walk [''home''] ''/srv/./disk'' @ names (below_root ''/srv/./disk'' ''a/./b'')"
proof -
  have "validate_path_err ''/srv/./disk'' ''a/./b'' = None" by code_simp
  then show ?thesis using p2p_paths_confined by blast
qed

text \<open>Who a request comes from: the user of this device, or the holder of a share token for the path.\<close>

definition own_user :: "p2p_env \<Rightarrow> request option \<Rightarrow> p2p \<Rightarrow> bool" where
  "own_user e body st \<longleftrightarrow> (case body of None \<Rightarrow> False
     | Some rq \<Rightarrow> truthy (rq_auth rq) \<and>
         (case verify_answer e (the (rq_auth rq)) of
           Answer code d \<Rightarrow> code = 200 \<and> ti_valid d \<and> ti_user d = local_user st
         | Unreachable \<Rightarrow> False))"

definition shared_with :: "p2p_env \<Rightarrow> request option \<Rightarrow> bool" where
  "shared_with e body \<longleftrightarrow> (case body of None \<Rightarrow> False
     | Some rq \<Rightarrow> truthy (rq_share rq) \<and>
         (case share_answer e (the (rq_share rq)) (get_str (rq_path rq)) of
           Answer code d \<Rightarrow> code = 200 \<and> si_valid d
         | Unreachable \<Rightarrow> False))"

lemma parse_refuses:
  assumes "\<not> own_user e body st" and "\<not> (share \<and> shared_with e body)"
  shows "\<exists>code msg. parse_and_verify e share body (local_user st) = Inl (code, RError msg) \<and>
    code \<in> {400, 401, 403, 503}"
proof (cases body)
  case (Some rq)
  show ?thesis
  proof (cases "share \<and> truthy (rq_share rq)")
    case True
    then show ?thesis
      using assms Some
      by (cases "share_answer e (the (rq_share rq)) (get_str (rq_path rq))")
        (auto simp: parse_and_verify_def verify_share_token_def shared_with_def)
  next
    case False
    then show ?thesis
      using assms Some
      by (cases "verify_answer e (the (rq_auth rq))")
        (auto simp: parse_and_verify_def verify_token_def own_user_def)
  qed
qed (simp add: parse_and_verify_def)

text \<open>C8: A request without a token that the server confirms for the user of this device
  is refused and changes nothing, unless it reads a path with a share token that the server
  confirms for exactly this path; then no stored content and no metadata changes.\<close>

theorem foreign_requests_only_read_shared:
  assumes "\<not> own_user e body st" and "handle e f body st = (r, st')"
  shows "(\<exists>code msg. r = Inr (code, RError msg) \<and> code \<in> {400, 401, 403, 503} \<and> st' = st) \<or>
    (f = OpRead \<and> shared_with e body \<and> same_content st st')"
proof (cases "f = OpRead \<and> shared_with e body")
  case True
  then show ?thesis
    using assms(2) op_read_keeps [of st e]
    by (auto simp: handle_def same_content_def split: sum.splits)
      (metis snd_conv)+
next
  case False
  then obtain code msg where "parse_and_verify e (f = OpRead) body (local_user st) = Inl (code, RError msg)"
    "code \<in> {400, 401, 403, 503}"
    using parse_refuses [OF assms(1)] by blast
  then show ?thesis using assms(2) by (auto simp: handle_def)
qed

text \<open>An example host, with tokens that carry the name of their user and share tokens that
  carry their path.\<close>

definition sample_p2p_env :: p2p_env where
  "sample_p2p_env = \<lparr>p_os = calm_env, source_path = \<lambda>i. ''/srv'',
     verify_answer = \<lambda>t. Answer 200 \<lparr>ti_valid = True, ti_user = Some t\<rparr>,
     share_answer = \<lambda>t p. Answer 200 \<lparr>si_valid = (p = t), si_device = Some ''d''\<rparr>\<rparr>"

definition sample_p2p :: p2p where
  "sample_p2p = \<lparr>jb = jbod_init [\<lparr>src_id = ''s'', src_kind = Directory, src_active = True,
       src_files = [(''f'', [1, 2])], src_dirs = [], src_used = 0\<rparr>] empty_store None (Some ''d''),
     parity = Some (parity_init [] IdxAbsent None), local_user = Some ''ann''\<rparr>"

definition sample_request :: request where
  "sample_request = \<lparr>rq_source = None, rq_path = Some ''f'', rq_data = Some (b64encode [7]),
     rq_chunk = Some ''c'', rq_auth = Some ''bob'', rq_share = Some ''f''\<rparr>"

theorem foreign_requests_only_read_shared_witness:
  "let r = handle sample_p2p_env OpRead (Some sample_request) sample_p2p in
   fst r = Inr (200, RData (b64encode [1, 2])) \<and> same_content sample_p2p (snd r)"
proof -
  let ?h = "handle sample_p2p_env OpRead (Some sample_request) sample_p2p"
  have o: "\<not> own_user sample_p2p_env (Some sample_request) sample_p2p" by code_simp
  have h: "fst ?h = Inr (200, RData (b64encode [1, 2]))" by code_simp
  have "\<not> (\<exists>code msg. fst ?h = Inr (code, RError msg))" unfolding h by simp
  with h show ?thesis
    using foreign_requests_only_read_shared [OF o surjective_pairing] unfolding Let_def by blast
qed

text \<open>Once a host has accepted a chunk from a user, that user gets it back byte for byte,
  whatever requests for files and chunks the host serves in between for other users and
  through the relay, and whatever quota it gets.\<close>

lemma hosted_chunk_isolated:
  assumes "handle_replica e RepStore (Some rq) st = (Inr (200, r), st')"
    and "parse_and_verify_any_user e (Some rq) = Inr (rq, u)"
    and "b64decode (get_str (rq_data rq)) = Some d"
    and "list_all (\<lambda>ev. acts_for e (local_user st') ev \<noteq> Some (Some u)) evs"
  shows "fst (handle_replica e RepFetch (Some rq) (fold (p2p_step e) evs st')) =
    Inr (200, RData (b64encode d))"
proof -
  have "op_replica_store rq (Some u) st = (Inr (200, r), st')"
    using assms(1,2) by (simp add: handle_replica_def)
  from store_accepted [OF this assms(3)] have "fetchable (get_str (rq_chunk rq)) (Some u) d st'" .
  from p2p_run_foreign [OF assms(4) this] show ?thesis
    using assms(2)
    by (auto simp: handle_replica_def op_replica_fetch_def fetchable_def split: option.splits)
qed

section \<open>Divergences\<close>

text \<open>A share token is verified for the path only, not for the source: a valid token reads
  the same path on every source of the device.\<close>

lemma share_token_any_source:
  "let st = sample_p2p\<lparr>jb := add_source \<lparr>src_id = ''t'', src_kind = Directory, src_active = True,
        src_files = [(''f'', [9])], src_dirs = [], src_used = 0\<rparr> (jb sample_p2p)\<rparr>
   in fst (handle sample_p2p_env OpRead (Some (sample_request\<lparr>rq_source := Some ''t''\<rparr>)) st) =
        Inr (200, RData (b64encode [9]))"
  by code_simp

text \<open>The root itself passes the check, so removing a directory can empty a whole source.\<close>

lemma rmdir_root_empties_source:
  "let r = handle sample_p2p_env OpRmdir
      (Some (sample_request\<lparr>rq_path := Some ''/srv'', rq_auth := Some ''ann''\<rparr>)) sample_p2p
   in fst r = Inr (200, RStatus ''removed'') \<and> map src_files (sources (jb (snd r))) = [[]]"
  by code_simp

text \<open>A write that names an unknown source goes to the first one; a read refuses.\<close>

lemma write_to_unknown_source:
  "let rq = sample_request\<lparr>rq_source := Some ''gone'', rq_auth := Some ''ann'', rq_share := None\<rparr>
   in fst (handle sample_p2p_env OpWrite (Some rq) sample_p2p) = Inr (200, RWritten 1) \<and>
      fst (handle sample_p2p_env OpRead (Some rq) sample_p2p) = Inr (404, RError ''Source not found'')"
  by code_simp

end
