(* ===== verification/Remote_Source.thy ===== *)
theory Remote_Source
  imports P2P_Server
begin

text \<open>
  \<^verbatim>\<open>stardustlib/remote_source.py\<close>, \<^verbatim>\<open>relay_client.py\<close> and \<^verbatim>\<open>relay_worker.py\<close>: a source whose
  files lie on another device. A request goes to the peer's HTTP server; when that cannot
  be reached it goes through the relay of the central server, where the owner's worker
  picks it up. What is reached (the authentication client, the peer, the relay) is a record
  of operations over a state \<open>'s\<close>, so that the same code can be run against the model of
  the owner's own server.
\<close>

section \<open>What a remote source reaches\<close>

record route =
  rt_connection_address :: "string option"
  rt_address :: "string option"
  rt_online :: "bool option"

record 's peer =
  pe_token :: "'s \<Rightarrow> string result \<times> 's"
  pe_renew :: "'s \<Rightarrow> unit result \<times> 's"
  get_route :: "string \<Rightarrow> 's \<Rightarrow> route direct \<times> 's"
  direct_post :: "string option \<Rightarrow> file_op \<Rightarrow> request \<Rightarrow> 's \<Rightarrow> reply direct \<times> 's"
  relay_post :: "string \<Rightarrow> string \<Rightarrow> request \<Rightarrow> 's \<Rightarrow> string option direct \<times> 's"
  relay_wait :: "string \<Rightarrow> 's \<Rightarrow> response direct \<times> 's"

record remote_source =
  rs_device :: string
  rs_active :: bool
  rs_peer_address :: "string option"
  rs_last_refresh :: time
  rs_refresh_min_interval :: time
  rs_relay_enabled :: bool

definition remote_init :: "string \<Rightarrow> remote_source" where
  "remote_init device = \<lparr>rs_device = device, rs_active = False, rs_peer_address = None,
     rs_last_refresh = 0, rs_refresh_min_interval = 30, rs_relay_enabled = True\<rparr>"

section \<open>Finding the device\<close>

text \<open>\<open>_async_initialize\<close> deactivates on every failure; an exception other than a failed
  authentication (\<open>Inl\<close>) leaves the source as it is.\<close>

definition async_initialize ::
  "'s peer \<Rightarrow> remote_source \<Rightarrow> 's \<Rightarrow> unit result \<times> remote_source \<times> 's" where
  "async_initialize pe rs s =
     (case pe_token pe s of
       (Inl x, s1) \<Rightarrow>
         if x = AuthenticationError then (Inr (), rs\<lparr>rs_active := False\<rparr>, s1) else (Inl x, rs, s1)
     | (Inr tok, s1) \<Rightarrow>
         (case get_route pe (rs_device rs) s1 of
           (Unreachable, s2) \<Rightarrow> (Inr (), rs\<lparr>rs_active := False\<rparr>, s2)
         | (Answer code rt, s2) \<Rightarrow>
             if 400 \<le> code then (Inr (), rs\<lparr>rs_active := False\<rparr>, s2)
             else (let address = (if truthy (rt_connection_address rt) then rt_connection_address rt
                                  else rt_address rt) in
               if \<not> truthy address then (Inr (), rs\<lparr>rs_active := False\<rparr>, s2)
               else if rt_online rt = Some False
                 then (Inr (), rs\<lparr>rs_peer_address := address, rs_active := False\<rparr>, s2)
               else (Inr (), rs\<lparr>rs_peer_address := address, rs_active := True\<rparr>, s2))))"

definition initialize :: "'s peer \<Rightarrow> remote_source \<Rightarrow> 's \<Rightarrow> unit result \<times> remote_source \<times> 's" where
  "initialize pe rs s =
     (case async_initialize pe rs s of
       (Inl x, rs1, s1) \<Rightarrow>
         if is_os_error x then (Inl x, rs1, s1) else (Inr (), rs1\<lparr>rs_active := False\<rparr>, s1)
     | (Inr u, rs1, s1) \<Rightarrow> (Inr u, rs1, s1))"

definition refresh :: "'s peer \<Rightarrow> time \<Rightarrow> bool \<Rightarrow> remote_source \<Rightarrow> 's \<Rightarrow> bool \<times> remote_source \<times> 's" where
  "refresh pe t force rs s =
     (if \<not> force \<and> t - rs_last_refresh rs < rs_refresh_min_interval rs then (rs_active rs, rs, s)
      else (let (_, rs1, s1) = async_initialize pe (rs\<lparr>rs_last_refresh := t\<rparr>) s in
        (rs_active rs1, rs1, s1)))"

section \<open>The relay client\<close>

definition relay_request ::
  "'s peer \<Rightarrow> string \<Rightarrow> string \<Rightarrow> request \<Rightarrow> 's \<Rightarrow> reply result \<times> 's" where
  "relay_request pe device opname payload s =
     (case pe_token pe s of
       (Inl x, s1) \<Rightarrow> (Inl (if x = AuthenticationError then OSError False else x), s1)
     | (Inr tok, s1) \<Rightarrow>
         (case relay_post pe device opname payload s1 of
           (Unreachable, s2) \<Rightarrow> (Inl (OSError False), s2)
         | (Answer code rid, s2) \<Rightarrow>
             if 400 \<le> code then (Inl (OSError False), s2)
             else if \<not> truthy rid then (Inl (OSError False), s2)
             else (case relay_wait pe (the rid) s2 of
               (Unreachable, s3) \<Rightarrow> (Inl (OSError False), s3)
             | (Answer code' (status, result), s3) \<Rightarrow>
                 if 400 \<le> code' then (Inl (OSError False), s3)
                 else if status \<noteq> 200 then (Inl (OSError False), s3)
                 else (Inr result, s3))))"

section \<open>Requests\<close>

text \<open>The names of the operations in \<open>_ENDPOINT_OP\<close>.\<close>

fun op_name :: "file_op \<Rightarrow> string" where
  "op_name OpRead = ''read''"
| "op_name OpWrite = ''write''"
| "op_name OpDelete = ''delete''"
| "op_name OpList = ''list''"
| "op_name OpExists = ''exists''"
| "op_name OpMkdir = ''mkdir''"
| "op_name OpRmdir = ''rmdir''"
| "op_name OpSpace = ''space''"

definition relay_fallback ::
  "'s peer \<Rightarrow> file_op \<Rightarrow> request \<Rightarrow> remote_source \<Rightarrow> 's \<Rightarrow> reply result \<times> 's" where
  "relay_fallback pe f payload rs s =
     (if \<not> rs_relay_enabled rs then (Inl (OSError False), s)
      else (case relay_request pe (rs_device rs) (op_name f) payload s of
        (Inl x, s1) \<Rightarrow> (Inl (if is_os_error x then OSError False else x), s1)
      | (Inr r, s1) \<Rightarrow> (Inr r, s1)))"

text \<open>One attempt; \<open>again\<close> is what a status 401 leads to, if a retry is left.\<close>

definition p2p_attempt ::
  "'s peer \<Rightarrow> file_op \<Rightarrow> request \<Rightarrow> remote_source \<Rightarrow> ('s \<Rightarrow> reply result \<times> 's) option \<Rightarrow>
     's \<Rightarrow> reply result \<times> 's" where
  "p2p_attempt pe f payload rs again s =
     (case pe_token pe s of
       (Inl x, s1) \<Rightarrow> (Inl (if x = AuthenticationError then OSError False else x), s1)
     | (Inr tok, s1) \<Rightarrow>
         (case direct_post pe (rs_peer_address rs) f (payload\<lparr>rq_auth := Some tok\<rparr>) s1 of
           (Unreachable, s2) \<Rightarrow> relay_fallback pe f payload rs s2
         | (Answer code r, s2) \<Rightarrow>
             if code = 401 \<and> again \<noteq> None then the again s2
             else if 400 \<le> code then (Inl (OSError False), s2)
             else (Inr r, s2)))"

definition p2p_request ::
  "'s peer \<Rightarrow> file_op \<Rightarrow> request \<Rightarrow> remote_source \<Rightarrow> 's \<Rightarrow> reply result \<times> 's" where
  "p2p_request pe f payload rs s =
     p2p_attempt pe f payload rs
       (Some (\<lambda>s1. case pe_renew pe s1 of
          (Inl x, s2) \<Rightarrow> (Inl (if x = AuthenticationError then OSError False else x), s2)
        | (Inr _, s2) \<Rightarrow> p2p_attempt pe f payload rs None s2)) s"

section \<open>The operations of the source\<close>

definition payload_of :: "string option \<Rightarrow> string option \<Rightarrow> string option \<Rightarrow> request" where
  "payload_of p sid data = \<lparr>rq_source = sid, rq_path = p, rq_data = data, rq_chunk = None,
     rq_auth = None, rq_share = None\<rparr>"

text \<open>The active check and the request; \<open>k\<close> reads the reply.\<close>

definition remote_op ::
  "'s peer \<Rightarrow> file_op \<Rightarrow> request \<Rightarrow> (reply \<Rightarrow> 'a result) \<Rightarrow> remote_source \<Rightarrow> 's \<Rightarrow> 'a result \<times> 's" where
  "remote_op pe f payload k rs s =
     (if \<not> rs_active rs then (Inl (OSError False), s)
      else (case p2p_request pe f payload rs s of
        (Inl x, s1) \<Rightarrow> (Inl x, s1) | (Inr r, s1) \<Rightarrow> (k r, s1)))"

definition read_from_source ::
  "'s peer \<Rightarrow> string \<Rightarrow> string option \<Rightarrow> remote_source \<Rightarrow> 's \<Rightarrow> bytes result \<times> 's" where
  "read_from_source pe p sid = remote_op pe OpRead (payload_of (Some p) sid None)
     (\<lambda>r. case r of
        RData t \<Rightarrow> (case b64decode t of None \<Rightarrow> Inl ValueError | Some d \<Rightarrow> Inr d)
      | _ \<Rightarrow> Inl KeyError)"

definition rs_write :: "'s peer \<Rightarrow> string \<Rightarrow> bytes \<Rightarrow> remote_source \<Rightarrow> 's \<Rightarrow> unit result \<times> 's" where
  "rs_write pe p d = remote_op pe OpWrite (payload_of (Some p) None (Some (b64encode d))) (\<lambda>r. Inr ())"

definition rs_delete :: "'s peer \<Rightarrow> string \<Rightarrow> remote_source \<Rightarrow> 's \<Rightarrow> unit result \<times> 's" where
  "rs_delete pe p = remote_op pe OpDelete (payload_of (Some p) None None) (\<lambda>r. Inr ())"

definition exists_on_source ::
  "'s peer \<Rightarrow> string \<Rightarrow> string option \<Rightarrow> remote_source \<Rightarrow> 's \<Rightarrow> bool result \<times> 's" where
  "exists_on_source pe p sid = remote_op pe OpExists (payload_of (Some p) sid None)
     (\<lambda>r. Inr (case r of RExists b \<Rightarrow> b | _ \<Rightarrow> False))"

definition rs_mkdir :: "'s peer \<Rightarrow> string \<Rightarrow> remote_source \<Rightarrow> 's \<Rightarrow> unit result \<times> 's" where
  "rs_mkdir pe p = remote_op pe OpMkdir (payload_of (Some p) None None) (\<lambda>r. Inr ())"

definition rs_rmdir :: "'s peer \<Rightarrow> string \<Rightarrow> remote_source \<Rightarrow> 's \<Rightarrow> unit result \<times> 's" where
  "rs_rmdir pe p = remote_op pe OpRmdir (payload_of (Some p) None None) (\<lambda>r. Inr ())"

definition list_dir_on_source ::
  "'s peer \<Rightarrow> string \<Rightarrow> string option \<Rightarrow> remote_source \<Rightarrow> 's \<Rightarrow> string list result \<times> 's" where
  "list_dir_on_source pe p sid = remote_op pe OpList (payload_of (Some p) sid None)
     (\<lambda>r. Inr (case r of REntries es \<Rightarrow> es | _ \<Rightarrow> []))"

definition rs_available_space :: "'s peer \<Rightarrow> remote_source \<Rightarrow> 's \<Rightarrow> int result \<times> 's" where
  "rs_available_space pe = remote_op pe OpSpace (payload_of None None None)
     (\<lambda>r. case r of RSpace a t \<Rightarrow> Inr a | _ \<Rightarrow> Inl KeyError)"

definition rs_total_space :: "'s peer \<Rightarrow> remote_source \<Rightarrow> 's \<Rightarrow> int result \<times> 's" where
  "rs_total_space pe = remote_op pe OpSpace (payload_of None None None)
     (\<lambda>r. case r of RSpace a t \<Rightarrow> Inr t | _ \<Rightarrow> Inl KeyError)"

section \<open>The relay worker\<close>

text \<open>One poll: the answer of the server's queue (an id, an operation and its payload), and
  what is uploaded for which id.\<close>

record relay_item =
  ri_id :: "string option"
  ri_op :: string
  ri_payload :: request

definition poll_once ::
  "p2p_env \<Rightarrow> relay_item direct \<Rightarrow> p2p \<Rightarrow> (string \<times> response) option \<times> p2p" where
  "poll_once e answer st =
     (case answer of
       Unreachable \<Rightarrow> (None, st)
     | Answer code item \<Rightarrow>
         if code = 204 then (None, st)
         else if 400 \<le> code then (None, st)
         else if \<not> truthy (ri_id item) then (None, st)
         else (let (resp, st') = dispatch e (ri_op item) (ri_payload item) st in
           (Some (the (ri_id item), resp), st')))"

section \<open>Against the owner's own server\<close>

text \<open>
  The peer that a correct server gives: the device \<open>e\<close>, \<open>st\<close> itself, reached by HTTP if
  \<open>up\<close>, and by a relay that hands every request to the owner's worker and its answer back.
  The state is the owner's and the request the relay holds.
\<close>

definition owner_peer :: "p2p_env \<Rightarrow> bool \<Rightarrow> string \<Rightarrow> (p2p \<times> relay_item option) peer" where
  "owner_peer e up tok = \<lparr>pe_token = \<lambda>s. (Inr tok, s), pe_renew = \<lambda>s. (Inr (), s),
     get_route = \<lambda>d s. (Answer 200 \<lparr>rt_connection_address = Some ''addr'', rt_address = None, rt_online = Some True\<rparr>, s),
     direct_post = \<lambda>a f rq (st, q).
       if \<not> up then (Unreachable, (st, q))
       else (case handle e f (Some rq) st of
         (Inr (code, r), st') \<Rightarrow> (Answer code r, (st', q))
       | (Inl x, st') \<Rightarrow> (Answer 500 (RError []), (st', q))),
     relay_post = \<lambda>d name rq (st, q).
       (Answer 200 (Some ''1''), (st, Some \<lparr>ri_id = Some ''1'', ri_op = name, ri_payload = rq\<rparr>)),
     relay_wait = \<lambda>rid (st, q).
       (case q of
         None \<Rightarrow> (Answer 504 (504, RError []), (st, None))
       | Some item \<Rightarrow>
           (case poll_once e (Answer 200 item) st of
             (None, st') \<Rightarrow> (Answer 504 (504, RError []), (st', None))
           | (Some (i, resp), st') \<Rightarrow> (Answer 200 resp, (st', None))))\<rparr>"

lemma op_names: "map_of op_map (op_name f) = Some f" "map_of replica_map (op_name f) = None"
  by (cases f; simp add: op_map_def replica_map_def)+

lemma checked_auth [simp]: "checked e (rq\<lparr>rq_auth := a\<rparr>) sel st k = checked e rq sel st k"
  by (cases sel) (simp_all add: checked_def Let_def)

lemma selected_auth [simp]:
  "select_source_or_error (rq\<lparr>rq_auth := a\<rparr>) st = select_source_or_error rq st"
  "source_or_first (rq\<lparr>rq_auth := a\<rparr>) st = source_or_first rq st"
  by (simp_all add: select_source_or_error_def source_or_first_def)

lemma run_op_auth [simp]: "run_op e f (rq\<lparr>rq_auth := a\<rparr>) st = run_op e f rq st"
  by (cases f) (simp_all add: op_read_def op_write_def op_delete_def op_list_def op_exists_def
      op_mkdir_def op_rmdir_def op_space_def)

text \<open>A served operation answers 200 or an error status other than 401.\<close>

definition plain_code :: "response result \<Rightarrow> bool" where
  "plain_code r \<longleftrightarrow> (case r of Inl x \<Rightarrow> True | Inr (code, _) \<Rightarrow> code \<in> {200, 400, 404, 413})"

lemma plain_code_simps [simp]:
  "plain_code (Inl x)" "plain_code (Inr (code, b)) \<longleftrightarrow> code \<in> {200, 400, 404, 413}"
  by (simp_all add: plain_code_def)

lemma checked_plain:
  assumes "\<And>i s p. plain_code (fst (k i s p))" and "case sel of Inl r \<Rightarrow> plain_code (Inr r) | Inr i \<Rightarrow> True"
  shows "plain_code (fst (checked e rq sel st k))"
proof (cases sel)
  case (Inl r)
  then show ?thesis using assms(2) by (simp add: checked_def)
next
  case (Inr i)
  let ?s = "sources (jb st) ! i" and ?p = "get_str (rq_path rq)"
  show ?thesis
  proof (cases "validate_path_err (source_data_root e ?s) ?p")
    case None
    then show ?thesis using assms(1) by (simp add: checked_def Inr Let_def)
  next
    case (Some r)
    then have "plain_code (Inr r)" by (auto simp: validate_path_err_def split: if_splits)
    then show ?thesis using Some by (simp add: checked_def Inr Let_def)
  qed
qed

lemma selected_plain:
  "case select_source_or_error rq st of Inl r \<Rightarrow> plain_code (Inr r) | Inr i \<Rightarrow> True"
  "case source_or_first rq st of Inl r \<Rightarrow> plain_code (Inr r) | Inr i \<Rightarrow> True"
  by (auto simp: select_source_or_error_def source_or_first_def split: option.split sum.split)

lemma run_op_plain: "plain_code (fst (run_op e f rq st))"
proof (cases f)
  case OpRead
  then show ?thesis
    by (auto simp: op_read_def selected_plain split: prod.split sum.split intro!: checked_plain)
next
  case OpWrite
  then show ?thesis
    by (auto simp: op_write_def selected_plain split: prod.split sum.split option.split intro!: checked_plain)
next
  case OpDelete
  then show ?thesis
    by (auto simp: op_delete_def selected_plain split: prod.split sum.split bool.split intro!: checked_plain)
next
  case OpList
  then show ?thesis
    by (auto simp: op_list_def selected_plain split: prod.split sum.split intro!: checked_plain)
next
  case OpExists
  then show ?thesis
    by (auto simp: op_exists_def selected_plain split: sum.split intro!: checked_plain)
next
  case OpMkdir
  then show ?thesis
    by (auto simp: op_mkdir_def selected_plain split: prod.split sum.split intro!: checked_plain)
next
  case OpRmdir
  then show ?thesis
    by (auto simp: op_rmdir_def selected_plain split: prod.split sum.split intro!: checked_plain)
next
  case OpSpace
  then show ?thesis by (auto simp: op_space_def split: list.split prod.split sum.split)
qed

text \<open>So a request reaches the owner's operation, whichever way it takes.\<close>

definition answered :: "response result \<Rightarrow> reply result" where
  "answered r = (case r of Inr (code, b) \<Rightarrow> if code = 200 then Inr b else Inl (OSError False)
     | Inl x \<Rightarrow> Inl (OSError False))"

definition trusts :: "p2p_env \<Rightarrow> string \<Rightarrow> p2p \<Rightarrow> bool" where
  "trusts e tok st \<longleftrightarrow> tok \<noteq> [] \<and>
     verify_answer e tok = Answer 200 \<lparr>ti_valid = True, ti_user = local_user st\<rparr>"

lemma direct_answer:
  assumes "trusts e tok st" and "rq_share rq = None"
  shows "p2p_request (owner_peer e True tok) f rq rs (st, None) =
    (answered (fst (run_op e f rq st)), (snd (run_op e f rq st), None))"
proof -
  obtain r st' where run: "run_op e f rq st = (r, st')" by (cases "run_op e f rq st")
  then have code: "plain_code r" using run_op_plain [of e f rq st] by simp
  have "handle e f (Some (rq\<lparr>rq_auth := Some tok\<rparr>)) st = (r, st')"
    using assms run
    by (simp add: handle_def parse_and_verify_def trusts_def truthy_def verify_token_def)
  then show ?thesis
    using run code
    by (cases r) (auto simp: p2p_request_def p2p_attempt_def owner_peer_def answered_def split: if_splits)
qed

lemma relayed_answer:
  assumes "rs_relay_enabled rs"
  shows "p2p_request (owner_peer e False tok) f rq rs (st, None) =
    (answered (fst (run_op e f rq st)), (snd (run_op e f rq st), None))"
proof -
  obtain r st' where run: "run_op e f rq st = (r, st')" by (cases "run_op e f rq st")
  have d: "dispatch e (op_name f) rq st = caught (r, st')"
    by (simp add: dispatch_def op_names run)
  then have "dispatch e (op_name f) rq st =
      (case r of Inr x \<Rightarrow> x | Inl x \<Rightarrow> (500, RError ''Internal error''), st')"
    by (cases r) (simp_all add: caught_def)
  then show ?thesis
    using assms run
    by (cases r) (auto simp: p2p_request_def p2p_attempt_def owner_peer_def relay_fallback_def
        relay_request_def truthy_def poll_once_def answered_def is_os_error_def)
qed

lemma owner_answer:
  assumes "trusts e tok st" and "rs_relay_enabled rs" and "rq_share rq = None"
  shows "p2p_request (owner_peer e up tok) f rq rs (st, None) =
    (answered (fst (run_op e f rq st)), (snd (run_op e f rq st), None))"
  using assms direct_answer relayed_answer by (cases up) auto

lemma remote_op_owner:
  assumes "trusts e tok st" and "rs_relay_enabled rs" and "rs_active rs" and "rq_share rq = None"
  shows "remote_op (owner_peer e up tok) f rq k rs (st, None) =
    (case answered (fst (run_op e f rq st)) of Inl x \<Rightarrow> Inl x | Inr r \<Rightarrow> k r,
     (snd (run_op e f rq st), None))"
  using assms(3) owner_answer [OF assms(1,2,4), of up f] by (simp add: remote_op_def split: sum.split)

section \<open>Properties\<close>

text \<open>An error of the owner's source arrives as an operating system error.\<close>

definition os_result :: "'a result \<Rightarrow> 'a result" where
  "os_result r = map_sum (\<lambda>x. OSError False) id r"

definition on_first :: "(source \<Rightarrow> 'a result \<times> source) \<Rightarrow> p2p \<Rightarrow> 'a result \<times> p2p \<times> relay_item option" where
  "on_first f st = (let (r, s') = f (hd (sources (jb st))) in (os_result r, put_source 0 s' st, None))"

lemma first_source:
  assumes "sources (jb st) = s # ss" and "\<not> is_remote s"
    and "validate_path_err (source_data_root e s) p = None"
  shows "checked e (payload_of (Some p) None d) (select_source_or_error (payload_of (Some p) None d) st) st k =
      k 0 s (below_root (source_data_root e s) p)"
    and "checked e (payload_of (Some p) None d) (source_or_first (payload_of (Some p) None d) st) st k =
      k 0 s (below_root (source_data_root e s) p)"
  using assms
  by (simp_all add: checked_def select_source_or_error_def source_or_first_def payload_of_def truthy_def
      get_str_def source_file_def Let_def)

lemma payload_fields [simp]:
  "rq_share (payload_of p sid d) = None" "rq_data (payload_of p sid d) = d"
  by (simp_all add: payload_of_def)

lemma remote_matches_owner:
  assumes "trusts e tok st" and "rs_active rs" and "rs_relay_enabled rs"
    and "sources (jb st) = s # ss" and "\<not> is_remote s"
    and "validate_path_err (source_data_root e s) p = None"
    and "q = below_root (source_data_root e s) p" and "int (length d) \<le> MAX_WRITE_SIZE"
  shows "read_from_source (owner_peer e up tok) p None rs (st, None) = on_first (src_read (p_os e) q) st \<and>
    rs_write (owner_peer e up tok) p d rs (st, None) = on_first (src_write (p_os e) q d) st \<and>
    exists_on_source (owner_peer e up tok) p None rs (st, None) =
      (os_result (src_exists (p_os e) q s), st, None)"
proof (intro conjI)
  note owner = remote_op_owner [OF assms(1,3,2)]
  note first = first_source [OF assms(4-6)]
  show "read_from_source (owner_peer e up tok) p None rs (st, None) = on_first (src_read (p_os e) q) st"
  proof (cases "src_read (p_os e) q s")
    case (Pair r s')
    then show ?thesis
      using assms(4,7)
      by (cases r) (simp_all add: read_from_source_def owner op_read_def first on_first_def
          answered_def os_result_def)
  qed
  show "rs_write (owner_peer e up tok) p d rs (st, None) = on_first (src_write (p_os e) q d) st"
  proof (cases "src_write (p_os e) q d s")
    case (Pair r s')
    then show ?thesis
      using assms(4,7,8)
      by (cases r) (simp_all add: rs_write_def owner op_write_def first on_first_def
          answered_def os_result_def get_str_def)
  qed
  show "exists_on_source (owner_peer e up tok) p None rs (st, None) =
      (os_result (src_exists (p_os e) q s), st, None)"
    using assms(7)
    by (cases "src_exists (p_os e) q s") (simp_all add: exists_on_source_def owner op_exists_def first
        answered_def os_result_def)
qed


definition sample_remote :: remote_source where
  "sample_remote = (remote_init ''d'')\<lparr>rs_active := True, rs_peer_address := Some ''addr''\<rparr>"


text \<open>What is written through a remote source is what it reads afterwards.\<close>

lemma remote_reads_back:
  assumes "trusts e tok st" and "rs_active rs" and "rs_relay_enabled rs"
    and "sources (jb st) = s # ss" and "is_local s"
    and "validate_path_err (source_data_root e s) p = None" and "int (length d) \<le> MAX_WRITE_SIZE"
    and "rs_write (owner_peer e up tok) p d rs (st, None) = (Inr (), st', None)"
    and "read_from_source (owner_peer e up' tok) p None rs (st', None) = (Inr d', w)"
  shows "d' = d"
proof -
  let ?q = "below_root (source_data_root e s) p"
  obtain r s' where w: "src_write (p_os e) ?q d s = (r, s')" by (cases "src_write (p_os e) ?q d s")
  have nr: "\<not> is_remote s" using assms(5) by (auto simp: is_local_def is_remote_def split: source_kind.splits)
  have r: "r = Inr ()" and st': "st' = put_source 0 s' st"
    using remote_matches_owner [OF assms(1-4) nr assms(6) refl assms(7), of up] assms(4,8) w
    by (cases r; simp add: on_first_def os_result_def)+
  have k: "src_kind s' = src_kind s" "src_id s' = src_id s"
    using src_kind_write [of "p_os e" ?q d s] src_id_write [of "p_os e" ?q d s] w by simp_all
  have s1: "sources (jb st') = s' # ss" using assms(4) st' by (simp add: put_source_def)
  have root: "source_data_root e s' = source_data_root e s" using k by (simp add: source_data_root_def split: source_kind.split)
  have nr': "\<not> is_remote s'" using nr k(1) by (simp add: is_remote_def)
  have v': "validate_path_err (source_data_root e s') p = None" using assms(6) root by simp
  have t': "trusts e tok st'" using assms(1) st' by (simp add: trusts_def)
  obtain r2 s2 where rd: "src_read (p_os e) ?q s' = (r2, s2)" by (cases "src_read (p_os e) ?q s'")
  have "r2 = Inr d'"
    using remote_matches_owner [OF t' assms(2,3) s1 nr' v' refl assms(7), of up'] assms(9) s1 rd root
    by (cases r2) (simp_all add: on_first_def os_result_def)
  then show ?thesis using src.reads_back [OF assms(5)] w r rd by blast
qed

end
