(* ===== verification/Auth_Client.thy ===== *)
theory Auth_Client
  imports Models Base64
begin

text \<open>
  \<^verbatim>\<open>stardustlib/auth_client.py\<close> and \<^verbatim>\<open>credential_store.py\<close>: the tokens of the user, in
  memory and in a file that the daemon and the command line share. Reading the claims out
  of the decoded payload (\<open>json.loads\<close>) is the parameter \<open>claims\<close>; the answers of the server,
  the clock and the outcome of waiting for the lock come from an environment. Writing the
  file succeeds; the fields that nothing reads (version, server address) are left out.
\<close>

section \<open>The credential store\<close>

record credentials =
  cr_access :: "string option"
  cr_refresh :: "string option"
  cr_expires :: time
  cr_user :: "string option"
  cr_email :: "string option"
  cr_key_password :: "string option"

text \<open>The file is absent, not readable as a JSON object, an empty object, or has data.\<close>

datatype cred_file = CredAbsent | CredBroken | CredEmpty | CredData credentials

definition cred_load :: "cred_file \<Rightarrow> credentials option result" where
  "cred_load f = (case f of
     CredAbsent \<Rightarrow> Inr None
   | CredBroken \<Rightarrow> Inl CredentialStoreError
   | CredEmpty \<Rightarrow> Inr None
   | CredData c \<Rightarrow> Inr (Some c))"

definition cred_save :: "credentials \<Rightarrow> cred_file \<Rightarrow> cred_file" where
  "cred_save c f = CredData c"

text \<open>\<open>clear\<close> removes the file and the lock file beside it.\<close>

definition cred_clear :: "cred_file \<times> bool \<Rightarrow> cred_file \<times> bool" where
  "cred_clear s = (CredAbsent, False)"

section \<open>Tokens\<close>

definition pad_base64 :: "string \<Rightarrow> string" where
  "pad_base64 s = (let padding = 4 - length s mod 4 in
     if padding \<noteq> 4 then s @ replicate padding CHR ''='' else s)"

definition urlsafe_b64decode :: "string \<Rightarrow> bytes option" where
  "urlsafe_b64decode s = b64decode (replace_char CHR ''_'' CHR ''/'' (replace_char CHR ''-'' CHR ''+'' s))"

definition jwt_payload :: "string \<Rightarrow> bytes result" where
  "jwt_payload token =
     (let parts = split_on CHR ''.'' token in
      if length parts \<noteq> 3 then Inl ValueError
      else (case urlsafe_b64decode (pad_base64 (parts ! 1)) of
        None \<Rightarrow> Inl ValueError | Some b \<Rightarrow> Inr b))"

section \<open>The client\<close>

record auth_client =
  ac_access :: "string option"
  ac_refresh :: "string option"
  ac_expires :: time
  ac_offline :: bool
  ac_user :: "string option"
  ac_email :: "string option"
  ac_key_password :: "string option"
  ac_has_store :: bool

definition auth_init :: "bool \<Rightarrow> auth_client" where
  "auth_init has_store = \<lparr>ac_access = None, ac_refresh = None, ac_expires = 0, ac_offline = False,
     ac_user = None, ac_email = None, ac_key_password = None, ac_has_store = has_store\<rparr>"

text \<open>The claims \<open>exp\<close> (0 when missing) and \<open>sub\<close> of a payload, \<open>None\<close> when it is not JSON.\<close>

record auth_env =
  claims :: "bytes \<Rightarrow> (time \<times> string option) option"
  login_answer :: "string \<Rightarrow> string \<Rightarrow> (string \<times> string) direct"
  refresh_answer :: "string \<Rightarrow> (string \<times> string) direct"
  clock :: time
  clock_locked :: time
  lock_free :: bool

type_synonym 'a auth_op = "auth_client \<Rightarrow> cred_file \<Rightarrow> 'a result \<times> auth_client \<times> cred_file"

definition persisted :: "auth_client \<Rightarrow> credentials" where
  "persisted a = \<lparr>cr_access = ac_access a, cr_refresh = ac_refresh a, cr_expires = ac_expires a,
     cr_user = ac_user a, cr_email = ac_email a, cr_key_password = ac_key_password a\<rparr>"

definition persist :: "auth_client \<Rightarrow> cred_file \<Rightarrow> cred_file" where
  "persist a f = (if ac_has_store a then cred_save (persisted a) f else f)"

definition store_tokens ::
  "auth_env \<Rightarrow> string \<Rightarrow> string \<Rightarrow> auth_client \<Rightarrow> cred_file \<Rightarrow> auth_client \<times> cred_file" where
  "store_tokens e access refr a f =
     (let a1 = a\<lparr>ac_access := Some access, ac_refresh := Some refr\<rparr>;
          a2 = (case jwt_payload access of
             Inl x \<Rightarrow> a1\<lparr>ac_expires := 0\<rparr>
           | Inr b \<Rightarrow> (case claims e b of
               None \<Rightarrow> a1\<lparr>ac_expires := 0\<rparr>
             | Some (ex, sub) \<Rightarrow> a1\<lparr>ac_expires := ex, ac_user := sub\<rparr>))
      in (a2, persist a2 f))"

definition clear_tokens :: "auth_client \<Rightarrow> auth_client" where
  "clear_tokens a = a\<lparr>ac_access := None, ac_refresh := None, ac_expires := 0, ac_user := None\<rparr>"

definition success :: "int \<Rightarrow> bool" where
  "success code \<longleftrightarrow> 200 \<le> code \<and> code < 300"

definition login :: "auth_env \<Rightarrow> string \<Rightarrow> string \<Rightarrow> unit auth_op" where
  "login e mail password a f =
     (case login_answer e mail password of
       Unreachable \<Rightarrow> (Inl AuthenticationError, a\<lparr>ac_offline := True\<rparr>, f)
     | Answer code (access, refr) \<Rightarrow>
         if code = 401 then (Inl AuthenticationError, a, f)
         else if 500 \<le> code then (Inl AuthenticationError, a\<lparr>ac_offline := True\<rparr>, f)
         else if \<not> success code then (Inl HTTPStatusError, a, f)
         else (let (a1, f1) = store_tokens e access refr (a\<lparr>ac_email := Some mail\<rparr>) f in
           (Inr (), a1\<lparr>ac_offline := False\<rparr>, f1)))"

definition refresh_token :: "auth_env \<Rightarrow> unit auth_op" where
  "refresh_token e a f =
     (case ac_refresh a of
       None \<Rightarrow> (Inl AuthenticationError, a, f)
     | Some tok \<Rightarrow>
         (case refresh_answer e tok of
           Unreachable \<Rightarrow> (Inr (), a\<lparr>ac_offline := True\<rparr>, f)
         | Answer code (access, refr) \<Rightarrow>
             if code = 401 then
               (let a1 = clear_tokens a in (Inl AuthenticationError, a1, persist a1 f))
             else if 500 \<le> code then (Inr (), a, f)
             else if \<not> success code then (Inl HTTPStatusError, a, f)
             else (let (a1, f1) = store_tokens e access refr a f in
               (Inr (), a1\<lparr>ac_offline := False\<rparr>, f1))))"

definition reload_tokens_from_store :: "auth_client \<Rightarrow> cred_file \<Rightarrow> auth_client" where
  "reload_tokens_from_store a f =
     (if \<not> ac_has_store a then a
      else (case cred_load f of
        Inl x \<Rightarrow> a
      | Inr None \<Rightarrow> a
      | Inr (Some c) \<Rightarrow> a\<lparr>ac_access := cr_access c, ac_refresh := cr_refresh c,
            ac_expires := cr_expires c, ac_user := cr_user c\<rparr>))"

text \<open>A token that has expired, or does so within a minute.\<close>

definition expiring :: "time \<Rightarrow> auth_client \<Rightarrow> bool" where
  "expiring t a \<longleftrightarrow> ac_expires a - 60 \<le> t"

text \<open>What happens while the lock is held.\<close>

definition refresh_locked :: "auth_env \<Rightarrow> unit auth_op" where
  "refresh_locked e a f =
     (let a1 = reload_tokens_from_store a f in
      if ac_access a1 \<noteq> None \<and> \<not> expiring (clock_locked e) a1 then (Inr (), a1, f)
      else refresh_token e a1 f)"

definition refresh_with_lock :: "auth_env \<Rightarrow> unit auth_op" where
  "refresh_with_lock e a f =
     (if \<not> ac_has_store a then refresh_token e a f
      else if \<not> lock_free e then (Inr (), a, f)
      else refresh_locked e a f)"

definition get_valid_token :: "auth_env \<Rightarrow> string auth_op" where
  "get_valid_token e a f =
     (if ac_access a = None then (Inl AuthenticationError, a, f)
      else (case (if expiring (clock e) a then refresh_with_lock e a f else (Inr (), a, f)) of
        (Inl x, a1, f1) \<Rightarrow> (Inl x, a1, f1)
      | (Inr _, a1, f1) \<Rightarrow>
          (case ac_access a1 of
            None \<Rightarrow> (Inl AuthenticationError, a1, f1)
          | Some tok \<Rightarrow> (Inr tok, a1, f1))))"

definition load_from_store :: "auth_client \<Rightarrow> cred_file \<Rightarrow> bool \<times> auth_client" where
  "load_from_store a f =
     (if \<not> ac_has_store a then (False, a)
      else (case cred_load f of
        Inl x \<Rightarrow> (False, a)
      | Inr None \<Rightarrow> (False, a)
      | Inr (Some c) \<Rightarrow>
          (cr_access c \<noteq> None,
           a\<lparr>ac_access := cr_access c, ac_refresh := cr_refresh c, ac_expires := cr_expires c,
             ac_user := cr_user c, ac_email := cr_email c, ac_key_password := cr_key_password c\<rparr>)))"

definition set_key_password :: "string option \<Rightarrow> auth_client \<Rightarrow> cred_file \<Rightarrow> auth_client \<times> cred_file" where
  "set_key_password pw a f = (let a1 = a\<lparr>ac_key_password := pw\<rparr> in (a1, persist a1 f))"

text \<open>The request \<open>logout\<close> sends (the access token, if there is one, and the refresh token);
  its outcome changes nothing.\<close>

definition logout_request :: "auth_client \<Rightarrow> (string option \<times> string) option" where
  "logout_request a = (case ac_refresh a of None \<Rightarrow> None | Some r \<Rightarrow> Some (ac_access a, r))"

section \<open>Single operations\<close>

lemma reload_after_persist:
  assumes "ac_has_store a" and "ac_has_store b"
  shows "ac_access (reload_tokens_from_store b (persist a f)) = ac_access a \<and>
    ac_refresh (reload_tokens_from_store b (persist a f)) = ac_refresh a"
  using assms by (simp add: reload_tokens_from_store_def persist_def cred_save_def cred_load_def persisted_def)

lemma store_tokens_parts:
  assumes "store_tokens e access refr a f = (a1, f1)"
  shows "ac_access a1 = Some access" "ac_refresh a1 = Some refr" "ac_has_store a1 = ac_has_store a"
    "f1 = persist a1 f"
  using assms by (auto simp: store_tokens_def Let_def split: sum.splits option.splits)

section \<open>Several processes\<close>

text \<open>
  The daemon and any number of command line processes share the file and its lock. A
  process is idle or holds the lock; the lock file exists or not. The server is assumed to
  rotate its refresh tokens: it accepts the one it gave out last, answers it with a new
  pair, and rejects every other one.
\<close>

datatype phase = Idle | Locked

record world =
  procs :: "nat \<Rightarrow> auth_client"
  phases :: "nat \<Rightarrow> phase"
  store_file :: cred_file
  lock_file :: bool
  server_refresh :: string

definition rotating :: "auth_env \<Rightarrow> string \<Rightarrow> string \<times> string \<Rightarrow> bool" where
  "rotating e current new \<longleftrightarrow>
     (\<forall>tok. refresh_answer e tok = (if tok = current then Answer 200 new else Answer 401 ([], [])))"

text \<open>The refresh token that is presented under the lock, if the server is asked at all.\<close>

definition presented_token :: "auth_env \<Rightarrow> auth_client \<Rightarrow> cred_file \<Rightarrow> string option" where
  "presented_token e a f =
     (let a1 = reload_tokens_from_store a f in
      if ac_access a1 \<noteq> None \<and> \<not> expiring (clock_locked e) a1 then None else ac_refresh a1)"

inductive auth_step :: "world \<Rightarrow> world \<Rightarrow> bool" where
  acquire: "\<not> lock_file w \<Longrightarrow> phases w i = Idle \<Longrightarrow>
    auth_step w (w\<lparr>lock_file := True, phases := (phases w)(i := Locked)\<rparr>)"
| refresh_under_lock: "phases w i = Locked \<Longrightarrow> rotating e (server_refresh w) new \<Longrightarrow>
    refresh_locked e (procs w i) (store_file w) = (r, a, f) \<Longrightarrow>
    s = (if presented_token e (procs w i) (store_file w) = Some (server_refresh w)
         then snd new else server_refresh w) \<Longrightarrow>
    auth_step w (w\<lparr>lock_file := False, phases := (phases w)(i := Idle),
      procs := (procs w)(i := a), store_file := f, server_refresh := s\<rparr>)"
| load: "phases w i = Idle \<Longrightarrow>
    auth_step w (w\<lparr>procs := (procs w)(i := snd (load_from_store (procs w i) (store_file w)))\<rparr>)"

inductive reachable_world :: "world \<Rightarrow> bool" where
  start: "(\<forall>i. ac_has_store (procs w i)) \<Longrightarrow> (\<forall>i. phases w i = Idle) \<Longrightarrow> \<not> lock_file w \<Longrightarrow>
    store_file w = CredData c \<Longrightarrow> cr_refresh c = Some (server_refresh w) \<Longrightarrow> reachable_world w"
| step: "reachable_world w \<Longrightarrow> auth_step w w' \<Longrightarrow> reachable_world w'"

text \<open>The file holds the token the server accepts next, and the lock has one holder.\<close>

definition world_ok :: "world \<Rightarrow> bool" where
  "world_ok w \<longleftrightarrow> (\<forall>i. ac_has_store (procs w i)) \<and>
     (\<exists>c. store_file w = CredData c \<and> cr_refresh c = Some (server_refresh w)) \<and>
     (\<forall>i. phases w i = Locked \<longrightarrow> lock_file w) \<and>
     (\<forall>i j. phases w i = Locked \<longrightarrow> phases w j = Locked \<longrightarrow> i = j)"

lemma reload_store [simp]:
  assumes "ac_has_store a"
  shows "ac_refresh (reload_tokens_from_store a (CredData c)) = cr_refresh c"
    and "ac_has_store (reload_tokens_from_store a (CredData c))"
  using assms by (simp_all add: reload_tokens_from_store_def cred_load_def)

text \<open>Under the lock, with the current token in the file, the server is never asked in vain.\<close>

lemma refresh_locked_current:
  assumes "ac_has_store a" and "cr_refresh c = Some current" and "rotating e current new"
  obtains (kept) "presented_token e a (CredData c) = None"
      "refresh_locked e a (CredData c) = (Inr (), reload_tokens_from_store a (CredData c), CredData c)"
  | (renewed) a1 where "presented_token e a (CredData c) = Some current"
      "refresh_locked e a (CredData c) = (Inr (), a1, CredData (persisted a1))"
      "ac_refresh a1 = Some (snd new)" "ac_has_store a1"
proof -
  let ?a = "reload_tokens_from_store a (CredData c)"
  have r: "ac_refresh ?a = Some current" "ac_has_store ?a" using assms(1,2) by simp_all
  show thesis
  proof (cases "ac_access ?a \<noteq> None \<and> \<not> expiring (clock_locked e) ?a")
    case True
    then show thesis using kept by (simp add: presented_token_def refresh_locked_def Let_def)
  next
    case False
    obtain access refr where new: "new = (access, refr)" by (cases new)
    obtain a1 f1 where st: "store_tokens e access refr ?a (CredData c) = (a1, f1)"
      by (cases "store_tokens e access refr ?a (CredData c)")
    note parts = store_tokens_parts [OF st]
    have "refresh_locked e a (CredData c) = (Inr (), a1\<lparr>ac_offline := False\<rparr>, f1)"
      using False assms(3) r st new
      by (auto simp: refresh_locked_def refresh_token_def rotating_def success_def Let_def)
    moreover have "f1 = CredData (persisted (a1\<lparr>ac_offline := False\<rparr>))"
      using parts r(2) by (simp add: persist_def cred_save_def persisted_def)
    ultimately show thesis
      using renewed [of "a1\<lparr>ac_offline := False\<rparr>"] False parts r new
      by (auto simp: presented_token_def Let_def)
  qed
qed

lemma load_has_store [simp]: "ac_has_store (snd (load_from_store a f)) = ac_has_store a"
  by (simp add: load_from_store_def split: sum.split option.split)

lemma world_ok_step: "auth_step w w' \<Longrightarrow> world_ok w \<Longrightarrow> world_ok w'"
proof (induction rule: auth_step.induct)
  case (refresh_under_lock w i e new r a f s)
  note ok = refresh_under_lock.prems and i = refresh_under_lock.hyps(1) and rot = refresh_under_lock.hyps(2)
    and run = refresh_under_lock.hyps(3) and s = refresh_under_lock.hyps(4)
  obtain c where c: "store_file w = CredData c" "cr_refresh c = Some (server_refresh w)"
    using ok by (auto simp: world_ok_def)
  have st: "ac_has_store (procs w i)" using ok by (simp add: world_ok_def)
  have "ac_has_store a \<and> (\<exists>c. f = CredData c \<and> cr_refresh c = Some s)"
  proof (rule refresh_locked_current [OF st c(2) rot], goal_cases kept renewed)
    case kept
    then show ?case using run [unfolded c(1)] s [unfolded c(1)] c(2) st by auto
  next
    case (renewed a1)
    then show ?case using run [unfolded c(1)] s [unfolded c(1)] by (auto simp: persisted_def)
  qed
  moreover have "\<forall>j. phases w j = Locked \<longrightarrow> j = i" using ok i by (auto simp: world_ok_def)
  ultimately show ?case using ok by (auto simp: world_ok_def)
qed (auto simp: world_ok_def)

lemma reachable_world_ok: "reachable_world w \<Longrightarrow> world_ok w"
proof (induction rule: reachable_world.induct)
  case (start w c)
  then show ?case by (auto simp: world_ok_def)
next
  case (step w w')
  then show ?case by (blast intro: world_ok_step)
qed

section \<open>Properties\<close>


text \<open>A server that rotates, and a world in which process 1 has just taken the lock.\<close>

definition sample_auth_env :: "string \<Rightarrow> string \<times> string \<Rightarrow> auth_env" where
  "sample_auth_env current new = \<lparr>claims = \<lambda>b. Some (1000, Some ''u''), login_answer = \<lambda>m p. Unreachable,
     refresh_answer = \<lambda>tok. if tok = current then Answer 200 new else Answer 401 ([], []),
     clock = 500, clock_locked = 500, lock_free = True\<rparr>"

definition sample_credentials :: credentials where
  "sample_credentials = \<lparr>cr_access = Some ''a1'', cr_refresh = Some ''r1'', cr_expires = 100,
     cr_user = Some ''u'', cr_email = None, cr_key_password = None\<rparr>"

definition sample_world :: world where
  "sample_world = \<lparr>procs = \<lambda>i. auth_init True, phases = \<lambda>i. Idle, store_file = CredData sample_credentials,
     lock_file = False, server_refresh = ''r1''\<rparr>"


section \<open>Divergences\<close>

text \<open>\<open>set_key_password\<close> writes the tokens the process has in memory without taking the lock.
  If another process has refreshed since, the file gets the used up token back, and the
  next refresh is rejected and deletes all tokens.\<close>

lemma key_password_reverts_tokens:
  "let old = snd (load_from_store (auth_init True) (CredData sample_credentials));
       (_, b, f1) = refresh_locked (sample_auth_env ''r1'' (''a2'', ''r2'')) old (CredData sample_credentials);
       (_, f2) = set_key_password (Some ''pw'') old f1;
       (r, a, f3) = refresh_locked (sample_auth_env ''r2'' (''a3'', ''r3'')) old f2
   in ac_refresh b = Some ''r2'' \<and> r = Inl AuthenticationError \<and> ac_access a = None \<and>
      cred_load f3 = Inr (Some (persisted a))"
  by code_simp

text \<open>\<open>clear\<close> removes the lock file whoever holds it.\<close>

lemma clear_drops_lock: "snd (cred_clear (f, True)) = False"
  by (simp add: cred_clear_def)

end
