(* ===== verification/Device_Manager.thy ===== *)
theory Device_Manager
  imports Models
begin

unbundle bit_operations_syntax

text \<open>
  \<^verbatim>\<open>stardustlib/device_manager.py\<close>: registering the device, the heartbeat, and the address
  other devices are told. The answers of the server and of the router come from an
  environment. Addresses are classified as \<open>ipaddress\<close> of Python's standard library does
  it for IPv4; for IPv6 the classification is a parameter.
\<close>

section \<open>Addresses\<close>

definition is_digit :: "char \<Rightarrow> bool" where
  "is_digit c \<longleftrightarrow> (48 :: nat) \<le> of_char c \<and> (of_char c :: nat) \<le> 57"

text \<open>An octet: one to three digits, no superfluous zero in front, at most 255.\<close>

definition parse_octet :: "string \<Rightarrow> nat option" where
  "parse_octet s =
     (if s \<noteq> [] \<and> list_all is_digit s \<and> length s \<le> 3 \<and> \<not> (1 < length s \<and> hd s = CHR ''0'')
          \<and> read_nat s \<le> 255
      then Some (read_nat s) else None)"

definition parse_ipv4 :: "string \<Rightarrow> 32 word option" where
  "parse_ipv4 s =
     (case map parse_octet (split_on CHR ''.'' s) of
       [Some a, Some b, Some c, Some d] \<Rightarrow>
         Some (push_bit 24 (word_of_nat a) OR push_bit 16 (word_of_nat b) OR
               push_bit 8 (word_of_nat c) OR word_of_nat d)
     | _ \<Rightarrow> None)"

definition ip :: "nat \<Rightarrow> nat \<Rightarrow> nat \<Rightarrow> nat \<Rightarrow> 32 word" where
  "ip a b c d = push_bit 24 (word_of_nat a) OR push_bit 16 (word_of_nat b) OR
     push_bit 8 (word_of_nat c) OR word_of_nat d"

definition in_net :: "32 word \<Rightarrow> 32 word \<times> nat \<Rightarrow> bool" where
  "in_net x n \<longleftrightarrow> drop_bit (32 - snd n) (x XOR fst n) = 0"

definition private_nets :: "(32 word \<times> nat) list" where
  "private_nets = [(ip 0 0 0 0, 8), (ip 10 0 0 0, 8), (ip 127 0 0 0, 8), (ip 169 254 0 0, 16),
     (ip 172 16 0 0, 12), (ip 192 0 0 0, 24), (ip 192 0 0 170, 31), (ip 192 0 2 0, 24),
     (ip 192 168 0 0, 16), (ip 198 18 0 0, 15), (ip 198 51 100 0, 24), (ip 203 0 113 0, 24),
     (ip 240 0 0 0, 4), (ip 255 255 255 255, 32)]"

definition private_exceptions :: "(32 word \<times> nat) list" where
  "private_exceptions = [(ip 192 0 0 9, 32), (ip 192 0 0 10, 32)]"

definition ipv4_is_global :: "32 word \<Rightarrow> bool" where
  "ipv4_is_global x \<longleftrightarrow> \<not> in_net x (ip 100 64 0 0, 10) \<and>
     \<not> (list_ex (in_net x) private_nets \<and> \<not> list_ex (in_net x) private_exceptions)"

text \<open>\<open>ipv6\<close> says whether a string that is no IPv4 address is an IPv6 address, and global.\<close>

definition is_private_or_cgnat_ip :: "(string \<Rightarrow> bool option) \<Rightarrow> string \<Rightarrow> bool" where
  "is_private_or_cgnat_ip ipv6 s =
     (case parse_ipv4 s of
       Some x \<Rightarrow> \<not> ipv4_is_global x
     | None \<Rightarrow> (case ipv6 s of None \<Rightarrow> True | Some g \<Rightarrow> \<not> g))"

section \<open>State\<close>

definition REGISTER_MAX_RETRIES :: nat where "REGISTER_MAX_RETRIES = 5"
definition HEARTBEAT_NORMAL_INTERVAL :: int where "HEARTBEAT_NORMAL_INTERVAL = 60"
definition HEARTBEAT_DEGRADED_INTERVAL :: int where "HEARTBEAT_DEGRADED_INTERVAL = 120"
definition HEARTBEAT_FAILURE_THRESHOLD :: nat where "HEARTBEAT_FAILURE_THRESHOLD = 3"

record device_manager =
  dm_device_id :: "string option"
  dm_port :: nat
  dm_interval :: int
  dm_failures :: nat
  dm_address :: string
  dm_offline :: bool
  dm_upnp_mapped :: bool
  dm_upnp_port :: "nat option"

definition address :: "string \<Rightarrow> nat \<Rightarrow> string" where
  "address host port = host @ '':'' @ show_nat port"

definition device_init :: "string \<Rightarrow> nat \<Rightarrow> device_manager" where
  "device_init local_ip port = \<lparr>dm_device_id = None, dm_port = port,
     dm_interval = HEARTBEAT_NORMAL_INTERVAL, dm_failures = 0, dm_address = address local_ip port,
     dm_offline = False, dm_upnp_mapped = False, dm_upnp_port = None\<rparr>"

section \<open>Registration\<close>

text \<open>What the server answers to a registration: the fields \<open>device_id\<close> and \<open>id\<close>.\<close>

record register_reply =
  rg_device_id :: "string option"
  rg_id :: "string option"

definition reply_id :: "register_reply \<Rightarrow> string option" where
  "reply_id r = (if truthy (rg_device_id r) then rg_device_id r else rg_id r)"

text \<open>Attempt \<open>k\<close> with \<open>n\<close> attempts left; the number of requests sent is counted.\<close>

fun register_loop ::
  "(nat \<Rightarrow> register_reply direct) \<Rightarrow> nat \<Rightarrow> nat \<Rightarrow> device_manager \<Rightarrow>
     string option result \<times> nat \<times> device_manager" where
  "register_loop answer k 0 m = (Inl DeviceRegistrationError, 0, m\<lparr>dm_offline := True\<rparr>)"
| "register_loop answer k (Suc n) m =
     (case answer k of
       Answer code r \<Rightarrow>
         if code < 400 then
           (Inr (reply_id r), 1, m\<lparr>dm_device_id := reply_id r, dm_offline := False\<rparr>)
         else (let (x, c, m') = register_loop answer (Suc k) n m in (x, Suc c, m'))
     | Unreachable \<Rightarrow> (let (x, c, m') = register_loop answer (Suc k) n m in (x, Suc c, m')))"

definition register ::
  "unit result \<Rightarrow> (nat \<Rightarrow> register_reply direct) \<Rightarrow> device_manager \<Rightarrow>
     string option result \<times> nat \<times> device_manager" where
  "register token answer m =
     (if dm_device_id m \<noteq> None then (Inr (dm_device_id m), 0, m)
      else (case token of
        Inl x \<Rightarrow> (Inl x, 0, m)
      | Inr _ \<Rightarrow> register_loop answer 1 REGISTER_MAX_RETRIES m))"

definition list_devices :: "'a list option direct result \<Rightarrow> 'a list" where
  "list_devices answer =
     (case answer of
       Inr (Answer code (Some ds)) \<Rightarrow> if code < 400 then ds else []
     | _ \<Rightarrow> [])"

section \<open>Heartbeat\<close>

definition on_heartbeat_success :: "device_manager \<Rightarrow> device_manager" where
  "on_heartbeat_success m = m\<lparr>dm_failures := 0, dm_interval := HEARTBEAT_NORMAL_INTERVAL\<rparr>"

definition on_heartbeat_failure :: "device_manager \<Rightarrow> device_manager" where
  "on_heartbeat_failure m =
     (let m1 = m\<lparr>dm_failures := dm_failures m + 1\<rparr> in
      if HEARTBEAT_FAILURE_THRESHOLD \<le> dm_failures m1
      then (if dm_interval m1 \<noteq> HEARTBEAT_DEGRADED_INTERVAL
            then m1\<lparr>dm_interval := HEARTBEAT_DEGRADED_INTERVAL\<rparr> else m1)
      else m1)"

text \<open>The outcome of the request: an exception of any kind, or a status.\<close>

definition send_heartbeat :: "unit direct result \<Rightarrow> device_manager \<Rightarrow> device_manager" where
  "send_heartbeat answer m =
     (case answer of
       Inr (Answer code _) \<Rightarrow> if code < 400 then on_heartbeat_success m else on_heartbeat_failure m
     | _ \<Rightarrow> on_heartbeat_failure m)"

section \<open>The address of the device\<close>

definition query_reflexive_ip :: "string direct result \<Rightarrow> string option" where
  "query_reflexive_ip answer =
     (case answer of
       Inr (Answer code s) \<Rightarrow> if code < 400 \<and> s \<noteq> [] then Some s else None
     | _ \<Rightarrow> None)"

text \<open>\<open>setup_upnp\<close>: \<open>mapped\<close> is the external address the router reports after it has mapped the
  port, \<open>None\<close> when there is no library, no router, or anything failed before; \<open>beat\<close> is the
  outcome of the heartbeat that announces a corrected address.\<close>

definition setup_upnp ::
  "(string \<Rightarrow> bool option) \<Rightarrow> string option \<Rightarrow> string direct result \<Rightarrow> unit direct result \<Rightarrow>
     device_manager \<Rightarrow> device_manager" where
  "setup_upnp ipv6 mapped reflexive beat m =
     (case mapped of
       None \<Rightarrow> m
     | Some ext \<Rightarrow>
         (let m1 = m\<lparr>dm_upnp_mapped := True, dm_upnp_port := Some (dm_port m)\<rparr> in
          if is_private_or_cgnat_ip ipv6 ext then
            (case query_reflexive_ip reflexive of
              Some r \<Rightarrow>
                if \<not> is_private_or_cgnat_ip ipv6 r
                then send_heartbeat beat (m1\<lparr>dm_address := address r (dm_port m)\<rparr>)
                else m1\<lparr>dm_address := address ext (dm_port m)\<rparr>
            | None \<Rightarrow> m1\<lparr>dm_address := address ext (dm_port m)\<rparr>)
          else m1\<lparr>dm_address := address ext (dm_port m)\<rparr>))"

definition teardown_upnp :: "bool \<Rightarrow> bool \<Rightarrow> device_manager \<Rightarrow> device_manager" where
  "teardown_upnp has_upnp deleted_ok m =
     (if \<not> dm_upnp_mapped m then m
      else if \<not> has_upnp then m
      else if deleted_ok then m\<lparr>dm_upnp_mapped := False\<rparr> else m)"

definition set_connection_address :: "string \<Rightarrow> device_manager \<Rightarrow> device_manager" where
  "set_connection_address a m = m\<lparr>dm_address := a\<rparr>"

section \<open>Properties of the steps\<close>

lemma register_loop_bounds:
  "register_loop answer k n m = (x, c, m') \<Longrightarrow> c \<le> n \<and> (x = Inl DeviceRegistrationError \<longrightarrow> c = n \<and> dm_offline m') \<and>
    (\<forall>d. x = Inr d \<longrightarrow> dm_device_id m' = d \<and> \<not> dm_offline m')"
proof (induction n arbitrary: k x c m')
  case (Suc n)
  obtain x1 c1 m1 where r: "register_loop answer (Suc k) n m = (x1, c1, m1)"
    by (cases "register_loop answer (Suc k) n m")
  from Suc.prems Suc.IH [OF r] r show ?case
    by (cases "answer k") (auto split: if_splits)
qed auto

lemma register_loop_first:
  assumes "answer (k + i) = Answer code r" and "code < 400" and "i < n"
    and "\<forall>j < i. case answer (k + j) of Answer c _ \<Rightarrow> 400 \<le> c | Unreachable \<Rightarrow> True"
  shows "fst (register_loop answer k n m) = Inr (reply_id r) \<and> fst (snd (register_loop answer k n m)) = Suc i"
  using assms
proof (induction i arbitrary: k n)
  case 0
  then show ?case by (cases n) auto
next
  case (Suc i)
  obtain n' where n: "n = Suc n'" using Suc.prems(3) by (cases n) auto
  have "\<forall>j < i. case answer (Suc k + j) of Answer c _ \<Rightarrow> 400 \<le> c | Unreachable \<Rightarrow> True"
    using Suc.prems(4) by (metis Suc_less_eq add_Suc add_Suc_right)
  moreover have "case answer k of Answer c _ \<Rightarrow> 400 \<le> c | Unreachable \<Rightarrow> True"
    using Suc.prems(4) by (metis add.right_neutral zero_less_Suc)
  ultimately show ?case
    using Suc.IH [of "Suc k" n'] Suc.prems(1-3) n
    by (cases "answer k") (auto split: prod.splits)
qed

text \<open>The failures since the last success, counted from the outcomes.\<close>

definition delivered :: "unit direct result \<Rightarrow> bool" where
  "delivered a \<longleftrightarrow> (case a of Inr (Answer code _) \<Rightarrow> code < 400 | _ \<Rightarrow> False)"

definition trailing_failures :: "unit direct result list \<Rightarrow> nat" where
  "trailing_failures as = length (takeWhile (\<lambda>a. \<not> delivered a) (rev as))"

definition in_step :: "nat \<Rightarrow> device_manager \<Rightarrow> bool" where
  "in_step n m \<longleftrightarrow> dm_failures m = n \<and>
     dm_interval m = (if HEARTBEAT_FAILURE_THRESHOLD \<le> n then HEARTBEAT_DEGRADED_INTERVAL
                      else HEARTBEAT_NORMAL_INTERVAL)"

lemma in_step_send:
  "in_step n m \<Longrightarrow> in_step (if delivered a then 0 else Suc n) (send_heartbeat a m)"
  by (auto simp: in_step_def send_heartbeat_def delivered_def on_heartbeat_success_def
      on_heartbeat_failure_def HEARTBEAT_FAILURE_THRESHOLD_def Let_def split: sum.split direct.split)

section \<open>Properties\<close>

text \<open>Registration sends at most five requests, stops at the first one that is answered,
  with the id of that answer, and otherwise switches to offline mode.\<close>

lemma register_outcome:
  assumes "dm_device_id m = None"
  shows "let (x, requests, m') = register (Inr ()) answer m in
    requests \<le> 5 \<and>
    (x = Inl DeviceRegistrationError \<longrightarrow> requests = 5 \<and> dm_offline m') \<and>
    (\<forall>d. x = Inr d \<longrightarrow> dm_device_id m' = d \<and> \<not> dm_offline m') \<and>
    (\<forall>i < 5. \<forall>code r. answer (1 + i) = Answer code r \<longrightarrow> code < 400 \<longrightarrow>
       (\<forall>j < i. case answer (1 + j) of Answer c _ \<Rightarrow> 400 \<le> c | Unreachable \<Rightarrow> True) \<longrightarrow>
       x = Inr (reply_id r) \<and> requests = Suc i)"
proof -
  obtain x c m' where r: "register_loop answer 1 5 m = (x, c, m')"
    by (cases "register_loop answer 1 5 m")
  then have "register (Inr ()) answer m = (x, c, m')"
    using assms by (simp add: register_def REGISTER_MAX_RETRIES_def)
  then show ?thesis
    using register_loop_bounds [OF r] register_loop_first [of answer 1 _ _ _ 5 m] r by auto
qed

text \<open>After any sequence of heartbeats the failure counter is the number of failures since
  the last delivered one, and the interval is two minutes exactly when that number is at
  least three, one minute otherwise.\<close>

lemma heartbeat_interval_tracks_failures:
  "let m = fold send_heartbeat answers (device_init local_ip port) in
   dm_failures m = trailing_failures answers \<and>
   dm_interval m = (if 3 \<le> trailing_failures answers then 120 else 60)"
proof -
  have "in_step (trailing_failures answers) (fold send_heartbeat answers (device_init local_ip port))"
  proof (induction answers rule: rev_induct)
    case Nil
    then show ?case by (simp add: in_step_def trailing_failures_def device_init_def HEARTBEAT_FAILURE_THRESHOLD_def)
  next
    case (snoc a as)
    then show ?case using in_step_send [OF snoc, of a]
      by (cases "delivered a") (simp_all add: trailing_failures_def)
  qed
  then show ?thesis
    by (simp add: in_step_def HEARTBEAT_FAILURE_THRESHOLD_def HEARTBEAT_DEGRADED_INTERVAL_def
        HEARTBEAT_NORMAL_INTERVAL_def Let_def)
qed

text \<open>The private and shared ranges are recognised, an ordinary address is not.\<close>

lemma address_examples:
  "map (is_private_or_cgnat_ip (\<lambda>s. None)) [''10.1.2.3'', ''100.64.0.1'', ''172.31.255.255'', ''192.168.0.1'',
     ''127.0.0.1'', ''1.2.3'', ''01.2.3.4''] = [True, True, True, True, True, True, True]"
  "map (is_private_or_cgnat_ip (\<lambda>s. None)) [''8.8.8.8'', ''172.32.0.1'', ''100.128.0.1'', ''192.0.0.9''] =
     [False, False, False, False]"
  by code_simp+

text \<open>The address that is announced is never a private one if the router or the server knows a
  public one.\<close>

lemma announced_address_public:
  assumes "mapped = Some ext"
    and "\<not> is_private_or_cgnat_ip ipv6 ext \<or>
      (\<exists>r. query_reflexive_ip seen = Some r \<and> \<not> is_private_or_cgnat_ip ipv6 r)"
  shows "\<exists>h. \<not> is_private_or_cgnat_ip ipv6 h \<and> dm_address (setup_upnp ipv6 mapped seen beat m) = address h (dm_port m)"
  using assms
  by (auto simp: setup_upnp_def Let_def send_heartbeat_def on_heartbeat_success_def on_heartbeat_failure_def
      split: sum.split direct.split option.split)

end
