(* ===== verification/Online_Recovery.thy ===== *)
theory Online_Recovery
  imports Models
begin

text \<open>
  \<^verbatim>\<open>stardustlib/online_recovery.py\<close>: bringing a device that started offline back online, and
  \<^verbatim>\<open>stardustlib/replication_hosting.py\<close>: the two calls that report hosted capacity and fetch
  the replication policy. The managers the recovery drives are a function from its steps to
  their effect on a state \<open>'s\<close>.
\<close>

section \<open>One attempt\<close>

datatype recovery_step = Load | Token | Register | Upload | Initial_Sync | Serve | Heartbeat | Periodic

text \<open>\<open>load_from_store\<close> returning false is a failing step, too. A failing step ends the attempt
  with false; registration lets every exception but its own through.\<close>

type_synonym 's recovery_api = "recovery_step \<Rightarrow> 's \<Rightarrow> unit result \<times> 's"

fun mandatory_steps ::
  "'s recovery_api \<Rightarrow> recovery_step list \<Rightarrow> 's \<Rightarrow> bool result \<times> recovery_step list \<times> 's" where
  "mandatory_steps api [] s = (Inr True, [], s)"
| "mandatory_steps api (x # xs) s =
     (case api x s of
       (Inl e, s1) \<Rightarrow>
         (if x = Register \<and> e \<noteq> DeviceRegistrationError then Inl e else Inr False, [x], s1)
     | (Inr _, s1) \<Rightarrow> (let (r, tr, s2) = mandatory_steps api xs s1 in (r, x # tr, s2)))"

text \<open>The steps whose failure is only logged.\<close>

definition services :: "bool \<Rightarrow> recovery_step list" where
  "services has_p2p = (if has_p2p then [Serve] else []) @ [Heartbeat, Periodic]"

definition attempt_recovery ::
  "'s recovery_api \<Rightarrow> bool \<Rightarrow> 's \<Rightarrow> bool result \<times> recovery_step list \<times> 's" where
  "attempt_recovery api has_p2p s =
     (case mandatory_steps api [Load, Token, Register, Upload, Initial_Sync] s of
       (Inr True, tr, s1) \<Rightarrow>
         (Inr True, tr @ services has_p2p, fold (\<lambda>x t. snd (api x t)) (services has_p2p) s1)
     | (r, tr, s1) \<Rightarrow> (r, tr, s1))"

section \<open>The loop\<close>

text \<open>\<open>_recovery_loop\<close> over \<open>n\<close> wake-ups before it is stopped: whether it recovered, the steps of
  each attempt, and the state.\<close>

fun recovery_loop ::
  "'s recovery_api \<Rightarrow> bool \<Rightarrow> nat \<Rightarrow> 's \<Rightarrow> bool \<times> recovery_step list list \<times> 's" where
  "recovery_loop api has_p2p 0 s = (False, [], s)"
| "recovery_loop api has_p2p (Suc n) s =
     (case attempt_recovery api has_p2p s of
       (Inr True, tr, s1) \<Rightarrow> (True, [tr], s1)
     | (r, tr, s1) \<Rightarrow> (let (b, trs, s2) = recovery_loop api has_p2p n s1 in (b, tr # trs, s2)))"

section \<open>Hosting\<close>

definition report_hosting :: "unit result \<Rightarrow> unit direct \<Rightarrow> bool result" where
  "report_hosting token answer =
     (case token of
       Inl x \<Rightarrow> if x = AuthenticationError then Inr False else Inl x
     | Inr _ \<Rightarrow> (case answer of Unreachable \<Rightarrow> Inr False | Answer code _ \<Rightarrow> Inr (code = 200)))"

record policy =
  pol_fraction :: real
  pol_min_replicas :: int

text \<open>The body is \<open>None\<close> when it does not have the two numbers.\<close>

definition fetch_policy :: "unit result \<Rightarrow> policy option direct \<Rightarrow> policy option result" where
  "fetch_policy token answer =
     (case token of
       Inl x \<Rightarrow> if x = AuthenticationError then Inr None else Inl x
     | Inr _ \<Rightarrow>
         (case answer of
           Unreachable \<Rightarrow> Inr None
         | Answer code body \<Rightarrow> if code \<noteq> 200 then Inr None else Inr body))"

section \<open>Attempts\<close>

abbreviation "required \<equiv> [Load, Token, Register, Upload, Initial_Sync]"

lemma mandatory_steps_trace:
  "mandatory_steps api xs s = (r, tr, s') \<Longrightarrow>
    (if r = Inr True then tr = xs else prefix tr xs)"
proof (induction xs arbitrary: r tr s s')
  case (Cons x xs)
  obtain a s1 where a: "api x s = (a, s1)" by (cases "api x s")
  obtain r2 tr2 s2 where m: "mandatory_steps api xs s1 = (r2, tr2, s2)"
    by (cases "mandatory_steps api xs s1")
  show ?case using Cons.prems a m Cons.IH [OF m] by (cases a) (auto split: if_splits)
qed simp

lemma attempt_trace:
  assumes "attempt_recovery api p s = (r, tr, s')"
  shows "if r = Inr True then tr = required @ services p else prefix tr required"
proof -
  obtain r1 tr1 s1 where m: "mandatory_steps api required s = (r1, tr1, s1)"
    by (cases "mandatory_steps api required s")
  have "(r1 = Inr True \<and> r = Inr True \<and> tr = tr1 @ services p) \<or> (r1 \<noteq> Inr True \<and> r = r1 \<and> tr = tr1)"
    using assms m by (auto simp: attempt_recovery_def split: sum.splits bool.splits)
  then show ?thesis using mandatory_steps_trace [OF m] by (elim disjE) auto
qed

text \<open>The state after \<open>k\<close> failed attempts.\<close>

primrec after_attempts :: "'s recovery_api \<Rightarrow> bool \<Rightarrow> nat \<Rightarrow> 's \<Rightarrow> 's" where
  "after_attempts api p 0 s = s"
| "after_attempts api p (Suc k) s = after_attempts api p k (snd (snd (attempt_recovery api p s)))"

abbreviation "succeeds api p s \<equiv> fst (attempt_recovery api p s) = Inr True"

lemma recovery_loop_step:
  "recovery_loop api p (Suc n) s =
    (let (r, tr, s1) = attempt_recovery api p s in
     if r = Inr True then (True, [tr], s1)
     else (let (b, trs, s2) = recovery_loop api p n s1 in (b, tr # trs, s2)))"
  by (auto split: prod.split sum.split bool.split)

section \<open>Properties\<close>

text \<open>The recovery loop comes back online at the first wake-up at which every required step
  succeeds, and stops there; up to then no service was started: a failed attempt has run
  only a first part of the required steps, the successful one all of them in order and
  then the services.\<close>

lemma recovery_at_first_success:
  assumes "k < n" and "succeeds api p (after_attempts api p k s)"
    and "\<forall>j < k. \<not> succeeds api p (after_attempts api p j s)"
  shows "\<exists>trs. recovery_loop api p n s =
      (True, trs @ [required @ services p], after_attempts api p (Suc k) s) \<and>
    length trs = k \<and> (\<forall>tr \<in> set trs. prefix tr required)"
  using assms
proof (induction n arbitrary: k s)
  case (Suc n)
  obtain r tr s1 where a: "attempt_recovery api p s = (r, tr, s1)" by (cases "attempt_recovery api p s")
  note tr = attempt_trace [OF a]
  show ?case
  proof (cases k)
    case 0
    then show ?thesis using Suc.prems(2) a tr by (simp add: recovery_loop_step del: recovery_loop.simps)
  next
    case (Suc k')
    have no: "r \<noteq> Inr True" using Suc.prems(3) Suc a by force
    have s1: "after_attempts api p j s1 = after_attempts api p (Suc j) s" for j using a by simp
    have "\<exists>trs. recovery_loop api p n s1 = (True, trs @ [required @ services p], after_attempts api p (Suc k') s1) \<and>
        length trs = k' \<and> (\<forall>tr \<in> set trs. prefix tr required)"
    proof (rule Suc.IH)
      show "k' < n" using Suc.prems(1) Suc by simp
      show "succeeds api p (after_attempts api p k' s1)" using Suc.prems(2) Suc s1 by simp
      show "\<forall>j < k'. \<not> succeeds api p (after_attempts api p j s1)"
        using Suc.prems(3) Suc s1 by (metis Suc_less_eq)
    qed
    then obtain trs where "recovery_loop api p n s1 =
        (True, trs @ [required @ services p], after_attempts api p (Suc k') s1)"
      "length trs = k'" "\<forall>tr \<in> set trs. prefix tr required" by blast
    then show ?thesis
      using a no tr Suc s1 [of "Suc k'"]
      by (intro exI [of _ "tr # trs"]) (simp add: recovery_loop_step del: recovery_loop.simps after_attempts.simps)
  qed
qed simp

text \<open>An example: the server can be reached from the second attempt on.\<close>

definition flaky_api :: "nat recovery_api" where
  "flaky_api x s = (if x = Upload \<and> s < 4 then (Inl (OSError False), Suc s) else (Inr (), Suc s))"

end
