(* ===== verification/Config_Loader.thy ===== *)
theory Config_Loader
  imports Models
begin

text \<open>
  \<^verbatim>\<open>stardustlib/config_loader.py\<close>: the configuration is the JSON value of the file, the checks
  return the list of what is wrong with it, and a version 1 file is rewritten as version 2
  after a copy of it has been made. The file system is what the checks ask of it.
\<close>

section \<open>JSON values\<close>

text \<open>What \<open>json.loads\<close> returns; \<open>JFloat None\<close> is \<open>NaN\<close> or an infinity. An object is a dict.\<close>

datatype json =
    JNull
  | JBool bool
  | JInt int
  | JFloat "real option"
  | JStr string
  | JArr "json list"
  | JObj "(string \<times> json) list"

definition get_or :: "json \<Rightarrow> string \<Rightarrow> json dict \<Rightarrow> json" where
  "get_or v k d = (case map_of d k of None \<Rightarrow> v | Some x \<Rightarrow> x)"

abbreviation get :: "string \<Rightarrow> json dict \<Rightarrow> json" where
  "get \<equiv> get_or JNull"

text \<open>\<open>isinstance(v, int)\<close> holds for the two truth values, which count as 1 and 0.\<close>

fun as_int :: "json \<Rightarrow> int option" where
  "as_int (JInt i) = Some i"
| "as_int (JBool b) = Some (if b then 1 else 0)"
| "as_int _ = None"

fun as_obj :: "json \<Rightarrow> json dict option" where
  "as_obj (JObj d) = Some d"
| "as_obj _ = None"

definition is_str :: "json \<Rightarrow> bool" where
  "is_str v \<longleftrightarrow> (case v of JStr _ \<Rightarrow> True | _ \<Rightarrow> False)"

fun json_truthy :: "json \<Rightarrow> bool" where
  "json_truthy JNull = False"
| "json_truthy (JBool b) = b"
| "json_truthy (JInt i) = (i \<noteq> 0)"
| "json_truthy (JFloat r) = (r \<noteq> Some 0)"
| "json_truthy (JStr s) = (s \<noteq> [])"
| "json_truthy (JArr xs) = (xs \<noteq> [])"
| "json_truthy (JObj d) = (d \<noteq> [])"

section \<open>Constants\<close>

definition CFG_MIN_LOOPBACK_SIZE :: int where "CFG_MIN_LOOPBACK_SIZE = 10485760"
definition CFG_MAX_LOOPBACK_SIZE :: int where "CFG_MAX_LOOPBACK_SIZE = 2199023255552"
definition MIN_P2P_PORT :: int where "MIN_P2P_PORT = 1024"
definition MAX_P2P_PORT :: int where "MAX_P2P_PORT = 65535"
definition MIN_SYNC_INTERVAL :: int where "MIN_SYNC_INTERVAL = 10"
definition MAX_SYNC_INTERVAL :: int where "MAX_SYNC_INTERVAL = 3600"
definition MIN_DEVICE_NAME_LEN :: nat where "MIN_DEVICE_NAME_LEN = 1"
definition MAX_DEVICE_NAME_LEN :: nat where "MAX_DEVICE_NAME_LEN = 64"

text \<open>
  The UUID pattern: groups of 8, 4, 4, 4 and 12 hexadecimal digits; the final \<open>$\<close> of the
  pattern also matches before a line feed that ends the text.
\<close>

definition hex_digit :: "char \<Rightarrow> bool" where
  "hex_digit c \<longleftrightarrow> c \<in> set ''0123456789abcdefABCDEF''"

definition is_uuid :: "string \<Rightarrow> bool" where
  "is_uuid s \<longleftrightarrow> map length (split_on CHR ''-'' s) = [8, 4, 4, 4, 12] \<and>
     (\<forall>g \<in> set (split_on CHR ''-'' s). \<forall>c \<in> set g. hex_digit c)"

definition UUID_match :: "string \<Rightarrow> bool" where
  "UUID_match s \<longleftrightarrow> is_uuid s \<or> s \<noteq> [] \<and> last s = CHR 0x0A \<and> is_uuid (butlast s)"

section \<open>Validation\<close>

record file_system =
  exists_path :: "string \<Rightarrow> bool"
  has_dir :: "string \<Rightarrow> bool"

text \<open>A message names the field and the rule it breaks.\<close>

datatype rule =
    NotInteger | Unsupported | NoSources | FileMissing | MissingSection | NotString | NotHttps | NoHost
  | NotBoolean | OutOfRange | NotCopy | NotAbsolute | NotDirectory | UnknownType | NotUuid

type_synonym message = "string \<times> rule"

definition check :: "bool \<Rightarrow> message \<Rightarrow> message list" where
  "check ok msg = (if ok then [] else [msg])"

definition validate_server :: "json dict \<Rightarrow> message list" where
  "validate_server server =
     (case get ''url'' server of
       JNull \<Rightarrow> []
     | JStr url \<Rightarrow>
         if \<not> prefix ''https://'' url then [(''server.url'', NotHttps)]
         else if length url \<le> length ''https://'' then [(''server.url'', NoHost)]
         else []
     | _ \<Rightarrow> [(''server.url'', NotString)]) @
     (case get ''device_name'' server of
       JStr n \<Rightarrow> check (MIN_DEVICE_NAME_LEN \<le> length n \<and> length n \<le> MAX_DEVICE_NAME_LEN)
         (''server.device_name'', OutOfRange)
     | _ \<Rightarrow> [(''server.device_name'', NotString)])"

definition validate_sync :: "json dict \<Rightarrow> message list" where
  "validate_sync sync =
     (case as_int (get ''interval_seconds'' sync) of
       None \<Rightarrow> [(''sync.interval_seconds'', NotInteger)]
     | Some i \<Rightarrow> check (MIN_SYNC_INTERVAL \<le> i \<and> i \<le> MAX_SYNC_INTERVAL) (''sync.interval_seconds'', OutOfRange)) @
     check (get ''conflict_strategy'' sync = JStr ''copy'') (''sync.conflict_strategy'', NotCopy)"

definition validate_p2p :: "json dict \<Rightarrow> message list" where
  "validate_p2p p2p =
     (case as_int (get ''port'' p2p) of
       None \<Rightarrow> [(''p2p.port'', NotInteger)]
     | Some i \<Rightarrow> check (MIN_P2P_PORT \<le> i \<and> i \<le> MAX_P2P_PORT) (''p2p.port'', OutOfRange)) @
     check (get ''enabled'' p2p \<in> {JBool True, JBool False}) (''p2p.enabled'', NotBoolean)"

definition source_field :: "nat \<Rightarrow> string \<Rightarrow> string" where
  "source_field i f = ''sources['' @ show_nat i @ '']'' @ f"

definition validate_remote_source :: "nat \<Rightarrow> json dict \<Rightarrow> message list" where
  "validate_remote_source i source =
     (case get ''device_id'' source of
       JStr u \<Rightarrow> check (UUID_match u) (source_field i ''.device_id'', NotUuid)
     | _ \<Rightarrow> [(source_field i ''.device_id'', NotString)])"

text \<open>\<open>os.path.isabs\<close> raises on anything but a string.\<close>

fun isabs :: "json \<Rightarrow> bool result" where
  "isabs (JStr p) = Inr (prefix ''/'' p)"
| "isabs _ = Inl TypeError"

definition is_dir_path :: "file_system \<Rightarrow> json \<Rightarrow> bool" where
  "is_dir_path fs v = (case v of JStr p \<Rightarrow> has_dir fs p | _ \<Rightarrow> False)"

definition validate_source :: "file_system \<Rightarrow> nat \<Rightarrow> json dict \<Rightarrow> message list result" where
  "validate_source fs i source =
     (if get ''type'' source = JStr ''directory'' then
        (case isabs (get_or (JStr []) ''path'' source) of
          Inl e \<Rightarrow> Inl e
        | Inr False \<Rightarrow> Inr [(source_field i ''.path'', NotAbsolute)]
        | Inr True \<Rightarrow> Inr (check (is_dir_path fs (get_or (JStr []) ''path'' source))
            (source_field i ''.path'', NotDirectory)))
      else if get ''type'' source = JStr ''loopback'' then
        (case isabs (get_or (JStr []) ''path'' source) of
          Inl e \<Rightarrow> Inl e
        | Inr a \<Rightarrow> Inr (check a (source_field i ''.path'', NotAbsolute) @
            (case as_int (get ''size'' source) of
              None \<Rightarrow> [(source_field i ''.size'', NotInteger)]
            | Some n \<Rightarrow> check (CFG_MIN_LOOPBACK_SIZE \<le> n \<and> n \<le> CFG_MAX_LOOPBACK_SIZE)
                (source_field i ''.size'', OutOfRange))))
      else Inr [(source_field i ''.type'', UnknownType)])"

definition validate_source_v2 :: "file_system \<Rightarrow> nat \<Rightarrow> json dict \<Rightarrow> message list result" where
  "validate_source_v2 fs i source =
     (if get ''type'' source = JStr ''remote'' then Inr (validate_remote_source i source)
      else if get ''type'' source \<in> {JStr ''directory'', JStr ''loopback''} then validate_source fs i source
      else Inr [(source_field i ''.type'', UnknownType)])"

text \<open>The loop over the sources: \<open>source.get\<close> raises on an entry that is not an object.\<close>

fun validate_each :: "(nat \<Rightarrow> json dict \<Rightarrow> message list result) \<Rightarrow> nat \<Rightarrow> json list \<Rightarrow> message list result" where
  "validate_each f i [] = Inr []"
| "validate_each f i (x # xs) =
     (case as_obj x of
       None \<Rightarrow> Inl AttributeError
     | Some d \<Rightarrow>
         (case f i d of
           Inl e \<Rightarrow> Inl e
         | Inr es \<Rightarrow>
             (case validate_each f (Suc i) xs of Inl e \<Rightarrow> Inl e | Inr es' \<Rightarrow> Inr (es @ es'))))"

definition validate_sources ::
  "(nat \<Rightarrow> json dict \<Rightarrow> message list result) \<Rightarrow> json dict \<Rightarrow> message list result" where
  "validate_sources f cfg =
     (case get ''sources'' cfg of
       JArr xs \<Rightarrow> if xs = [] then Inr [(''sources'', NoSources)] else validate_each f 0 xs
     | _ \<Rightarrow> Inr [(''sources'', NoSources)])"

definition validate_v1 :: "file_system \<Rightarrow> json dict \<Rightarrow> message list result" where
  "validate_v1 fs cfg =
     (case validate_sources (validate_source fs) cfg of
       Inl e \<Rightarrow> Inl e
     | Inr es \<Rightarrow> Inr (es @
         (case get ''key_file'' cfg of
           JStr k \<Rightarrow> check (exists_path fs k) (''key_file'', FileMissing)
         | _ \<Rightarrow> [])))"

definition section_errors :: "string \<Rightarrow> (json dict \<Rightarrow> message list) \<Rightarrow> json dict \<Rightarrow> message list" where
  "section_errors s f cfg = (case as_obj (get s cfg) of None \<Rightarrow> [] | Some d \<Rightarrow> f d)"

definition validate_v2 :: "file_system \<Rightarrow> json dict \<Rightarrow> message list result" where
  "validate_v2 fs cfg =
     (let missing = map (\<lambda>s. (s, MissingSection))
            (filter (\<lambda>s. as_obj (get s cfg) = None) [''server'', ''sync'', ''p2p'']);
          sections = section_errors ''server'' validate_server cfg @ section_errors ''sync'' validate_sync cfg @
            section_errors ''p2p'' validate_p2p cfg;
          server_url = (case as_obj (get ''server'' cfg) of None \<Rightarrow> JNull | Some d \<Rightarrow> get ''url'' d)
      in case validate_sources (validate_source_v2 fs) cfg of
          Inl e \<Rightarrow> Inl e
        | Inr es \<Rightarrow> Inr (missing @ sections @ es @
            (case get ''key_file'' cfg of
              JStr k \<Rightarrow> check (json_truthy server_url \<or> exists_path fs k) (''key_file'', FileMissing)
            | _ \<Rightarrow> [])))"

text \<open>\<open>validate\<close>: \<open>config.get\<close> raises if the file does not hold an object.\<close>

definition validate :: "file_system \<Rightarrow> json \<Rightarrow> message list result" where
  "validate fs config =
     (case as_obj config of
       None \<Rightarrow> Inl AttributeError
     | Some cfg \<Rightarrow>
         (case as_int (get ''version'' cfg) of
           None \<Rightarrow> Inr [(''version'', NotInteger)]
         | Some v \<Rightarrow>
             if v = 2 then validate_v2 fs cfg
             else if v = 1 then validate_v1 fs cfg
             else Inr [(''version'', Unsupported)]))"

section \<open>Files\<close>

text \<open>A text file as \<open>json.loads\<close> sees it; it reads back what \<open>json.dumps\<close> wrote.\<close>

datatype file_text = Parses json | Malformed | NotUtf8

type_synonym disk = "string \<rightharpoonup> file_text"

definition load :: "string \<Rightarrow> disk \<Rightarrow> json result" where
  "load config_path d =
     (case d config_path of
       None \<Rightarrow> Inl FileNotFoundError
     | Some (Parses v) \<Rightarrow> Inr v
     | Some Malformed \<Rightarrow> Inl JSONDecodeError
     | Some NotUtf8 \<Rightarrow> Inl ValueError)"

text \<open>Writing a file works, or fails and leaves something (or nothing) at the path.\<close>

datatype outcome = Works | Fails "file_text option"

definition put_text :: "outcome \<Rightarrow> string \<Rightarrow> file_text \<Rightarrow> disk \<Rightarrow> bool \<times> disk" where
  "put_text w p t d = (case w of Works \<Rightarrow> (True, d(p \<mapsto> t)) | Fails left \<Rightarrow> (False, d(p := left)))"

definition base_backup :: "string \<Rightarrow> string" where
  "base_backup config_path = config_path @ ''.v1.bak''"

definition numbered_backup :: "string \<Rightarrow> nat \<Rightarrow> string" where
  "numbered_backup config_path n = base_backup config_path @ ''.'' @ show_nat n"

definition resolve_backup_path :: "string \<Rightarrow> disk \<Rightarrow> string option" where
  "resolve_backup_path config_path d =
     (if d (base_backup config_path) = None then Some (base_backup config_path)
      else map_option (numbered_backup config_path) (free_seq (\<lambda>n. d (numbered_backup config_path n) \<noteq> None) 1))"

definition v2_data :: "json dict \<Rightarrow> json dict" where
  "v2_data config =
     AList.update ''p2p'' (JObj [(''port'', JInt 9090), (''enabled'', JBool False)])
      (AList.update ''sync'' (JObj [(''interval_seconds'', JInt 30), (''conflict_strategy'', JStr ''copy'')])
       (AList.update ''server'' (JObj [(''url'', JNull)])
        (AList.update ''version'' (JInt 2) (AList.delete ''webdav'' config))))"

text \<open>
  \<open>migrate_v1_to_v2\<close>: \<open>copy_fault\<close> and \<open>write_fault\<close> are the fate of the two file operations;
  the result is \<open>None\<close> if the search for a backup name does not end.
\<close>

definition migrate_v1_to_v2 ::
  "string \<Rightarrow> outcome \<Rightarrow> outcome \<Rightarrow> json dict \<Rightarrow> disk \<Rightarrow> (json dict result \<times> disk) option" where
  "migrate_v1_to_v2 config_path copy_fault write_fault config d =
     (case resolve_backup_path config_path d of
       None \<Rightarrow> None
     | Some backup_path \<Rightarrow>
         Some (case d config_path of
           None \<Rightarrow> (Inl ConfigMigrationError, d)
         | Some t \<Rightarrow>
             (case put_text copy_fault backup_path t d of
               (False, d1) \<Rightarrow> (Inl ConfigMigrationError, d1)
             | (True, d1) \<Rightarrow>
                 (case put_text write_fault config_path (Parses (JObj (v2_data config))) d1 of
                   (False, d2) \<Rightarrow> (Inl ConfigMigrationError, d2)
                 | (True, d2) \<Rightarrow> (Inr (v2_data config), d2)))))"

section \<open>The encryption key\<close>

text \<open>An environment variable holds text, or bytes that cannot be encoded as UTF-8 again.\<close>

datatype env_value = Utf8 bytes | Undecodable

definition REQUIRED_KEY_LENGTH :: nat where "REQUIRED_KEY_LENGTH = 32"

definition load_encryption_key ::
  "(string \<Rightarrow> bytes option) \<Rightarrow> (string \<Rightarrow> env_value option) \<Rightarrow> string option \<Rightarrow> string \<Rightarrow> bytes result" where
  "load_encryption_key read_bytes env key_file env_var =
     (let key = (case key_file of
            Some f \<Rightarrow> (case read_bytes f of Some k \<Rightarrow> Inr k | None \<Rightarrow> Inl KeyNotFoundError)
          | None \<Rightarrow> (case env env_var of
                Some (Utf8 k) \<Rightarrow> Inr k
              | Some Undecodable \<Rightarrow> Inl ValueError
              | None \<Rightarrow> Inl KeyNotFoundError))
      in case key of
          Inl e \<Rightarrow> Inl e
        | Inr k \<Rightarrow> if length k \<noteq> REQUIRED_KEY_LENGTH then Inl InvalidKeyError else Inr k)"

section \<open>The type of a configuration\<close>

text \<open>The rules of a valid configuration, as the data model has them.\<close>

definition local_source_ok :: "file_system \<Rightarrow> json dict \<Rightarrow> bool" where
  "local_source_ok fs s \<longleftrightarrow> (\<exists>p. get_or (JStr []) ''path'' s = JStr p \<and> prefix ''/'' p \<and>
     (get ''type'' s = JStr ''directory'' \<and> has_dir fs p \<or>
      get ''type'' s = JStr ''loopback'' \<and>
        (\<exists>n. get ''size'' s = JInt n \<and> 10485760 \<le> n \<and> n \<le> 2199023255552)))"

definition remote_source_ok :: "json dict \<Rightarrow> bool" where
  "remote_source_ok s \<longleftrightarrow> get ''type'' s = JStr ''remote'' \<and>
     (\<exists>u. get ''device_id'' s = JStr u \<and> UUID_match u)"

definition sources_ok :: "(json dict \<Rightarrow> bool) \<Rightarrow> json dict \<Rightarrow> bool" where
  "sources_ok ok cfg \<longleftrightarrow> (\<exists>xs. get ''sources'' cfg = JArr xs \<and> xs \<noteq> [] \<and> (\<forall>x \<in> set xs. \<exists>s. x = JObj s \<and> ok s))"

definition url_ok :: "json \<Rightarrow> bool" where
  "url_ok u \<longleftrightarrow> u = JNull \<or> (\<exists>host. host \<noteq> [] \<and> u = JStr (''https://'' @ host))"

definition server_ok :: "json dict \<Rightarrow> bool" where
  "server_ok server \<longleftrightarrow> url_ok (get ''url'' server) \<and>
     (\<exists>n. get ''device_name'' server = JStr n \<and> 1 \<le> length n \<and> length n \<le> 64)"

definition sync_ok :: "json dict \<Rightarrow> bool" where
  "sync_ok sync \<longleftrightarrow> (\<exists>i. get ''interval_seconds'' sync = JInt i \<and> 10 \<le> i \<and> i \<le> 3600) \<and>
     get ''conflict_strategy'' sync = JStr ''copy''"

definition p2p_ok :: "json dict \<Rightarrow> bool" where
  "p2p_ok p2p \<longleftrightarrow> (\<exists>i. get ''port'' p2p = JInt i \<and> 1024 \<le> i \<and> i \<le> 65535) \<and>
     (\<exists>b. get ''enabled'' p2p = JBool b)"

definition v1_ok :: "file_system \<Rightarrow> json dict \<Rightarrow> bool" where
  "v1_ok fs cfg \<longleftrightarrow> get ''version'' cfg \<in> {JInt 1, JBool True} \<and> sources_ok (local_source_ok fs) cfg \<and>
     (\<forall>k. get ''key_file'' cfg = JStr k \<longrightarrow> exists_path fs k)"

definition v2_ok :: "file_system \<Rightarrow> json dict \<Rightarrow> bool" where
  "v2_ok fs cfg \<longleftrightarrow> get ''version'' cfg = JInt 2 \<and>
     (\<exists>server sync p2p. get ''server'' cfg = JObj server \<and> server_ok server \<and>
        get ''sync'' cfg = JObj sync \<and> sync_ok sync \<and> get ''p2p'' cfg = JObj p2p \<and> p2p_ok p2p \<and>
        sources_ok (\<lambda>s. remote_source_ok s \<or> local_source_ok fs s) cfg \<and>
        (\<forall>k. get ''key_file'' cfg = JStr k \<longrightarrow> get ''url'' server \<noteq> JNull \<or> exists_path fs k))"

subsection \<open>The checks decide the rules\<close>

lemma check_Nil [simp]: "check ok msg = [] \<longleftrightarrow> ok"
  by (simp add: check_def)

lemma as_obj_Some [simp]: "as_obj v = Some d \<longleftrightarrow> v = JObj d"
  by (cases v) auto

lemma as_obj_None: "as_obj v = None \<longleftrightarrow> (\<nexists>d. v = JObj d)"
  by (cases v) auto

lemma as_int_in: "2 \<le> lo \<Longrightarrow>
    (case as_int v of None \<Rightarrow> [m] | Some i \<Rightarrow> check (lo \<le> i \<and> i \<le> hi) m') = [] \<longleftrightarrow>
    (\<exists>i. v = JInt i \<and> lo \<le> i \<and> i \<le> hi)"
  by (cases v rule: as_int.cases) auto

lemma server_checked: "validate_server server = [] \<longleftrightarrow> server_ok server"
proof -
  have "(case v of JNull \<Rightarrow> [] | JStr url \<Rightarrow>
         if \<not> prefix ''https://'' url then [(''server.url'', NotHttps)]
         else if length url \<le> length ''https://'' then [(''server.url'', NoHost)]
         else [] | _ \<Rightarrow> [(''server.url'', NotString)]) = [] \<longleftrightarrow> url_ok v" for v
    by (cases v) (auto simp: url_ok_def prefix_def)
  moreover have "(case v of JStr n \<Rightarrow> check (MIN_DEVICE_NAME_LEN \<le> length n \<and> length n \<le> MAX_DEVICE_NAME_LEN) m
     | _ \<Rightarrow> [m']) = [] \<longleftrightarrow> (\<exists>n. v = JStr n \<and> 1 \<le> length n \<and> length n \<le> 64)" for v m m'
    by (cases v) (auto simp: MIN_DEVICE_NAME_LEN_def MAX_DEVICE_NAME_LEN_def)
  ultimately show ?thesis by (simp add: validate_server_def server_ok_def)
qed

lemma sync_checked: "validate_sync sync = [] \<longleftrightarrow> sync_ok sync"
  by (simp add: validate_sync_def sync_ok_def as_int_in MIN_SYNC_INTERVAL_def MAX_SYNC_INTERVAL_def)

lemma p2p_checked: "validate_p2p p2p = [] \<longleftrightarrow> p2p_ok p2p"
proof -
  have "v \<in> {JBool True, JBool False} \<longleftrightarrow> (\<exists>b. v = JBool b)" for v by (cases v) auto
  then show ?thesis
    by (simp add: validate_p2p_def p2p_ok_def as_int_in MIN_P2P_PORT_def MAX_P2P_PORT_def del: insert_iff)
qed

lemma source_checked: "validate_source fs i s = Inr [] \<longleftrightarrow> local_source_ok fs s"
proof -
  have size: "(case as_int (get ''size'' s) of None \<Rightarrow> [m]
      | Some n \<Rightarrow> check (CFG_MIN_LOOPBACK_SIZE \<le> n \<and> n \<le> CFG_MAX_LOOPBACK_SIZE) m') = [] \<longleftrightarrow>
      (\<exists>n. get ''size'' s = JInt n \<and> 10485760 \<le> n \<and> n \<le> 2199023255552)" for m m'
    by (simp add: as_int_in CFG_MIN_LOOPBACK_SIZE_def CFG_MAX_LOOPBACK_SIZE_def)
  show ?thesis
    by (cases "get_or (JStr []) ''path'' s")
      (auto simp: validate_source_def local_source_ok_def is_dir_path_def size split: bool.splits)
qed

lemma remote_checked: "get ''type'' s = JStr ''remote'' \<Longrightarrow> validate_remote_source i s = [] \<longleftrightarrow> remote_source_ok s"
  by (cases "get ''device_id'' s") (auto simp: validate_remote_source_def remote_source_ok_def)

lemma source_v2_checked: "validate_source_v2 fs i s = Inr [] \<longleftrightarrow> remote_source_ok s \<or> local_source_ok fs s"
  by (auto simp: validate_source_v2_def remote_checked source_checked local_source_ok_def remote_source_ok_def)

lemma each_checked:
  assumes "\<And>i s. f i s = Inr [] \<longleftrightarrow> ok s"
  shows "validate_each f i xs = Inr [] \<longleftrightarrow> (\<forall>x \<in> set xs. \<exists>s. x = JObj s \<and> ok s)"
proof (induction xs arbitrary: i)
  case (Cons x xs)
  show ?case
  proof (cases "as_obj x")
    case None
    then have "\<nexists>s. x = JObj s" by (cases x) auto
    with None show ?thesis by simp
  next
    case (Some s)
    then show ?thesis using Cons [of "Suc i"] assms [of i s]
      by (auto split: sum.splits)
  qed
qed simp

lemma sources_checked:
  assumes "\<And>i s. f i s = Inr [] \<longleftrightarrow> ok s"
  shows "validate_sources f cfg = Inr [] \<longleftrightarrow> sources_ok ok cfg"
  by (cases "get ''sources'' cfg") (auto simp: validate_sources_def sources_ok_def each_checked [of f ok, OF assms])

lemma key_checked: "(case v of JStr k \<Rightarrow> check (ok k) m | _ \<Rightarrow> []) = [] \<longleftrightarrow> (\<forall>k. v = JStr k \<longrightarrow> ok k)"
  by (cases v) auto

lemma v1_checked: "validate_v1 fs cfg = Inr [] \<longleftrightarrow> sources_ok (local_source_ok fs) cfg \<and>
     (\<forall>k. get ''key_file'' cfg = JStr k \<longrightarrow> exists_path fs k)"
  using sources_checked [of "validate_source fs" "local_source_ok fs" cfg, OF source_checked]
  by (auto simp: validate_v1_def key_checked split: sum.splits)

lemma section_checked:
  "as_obj (get k cfg) \<noteq> None \<and> section_errors k f cfg = [] \<longleftrightarrow> (\<exists>d. get k cfg = JObj d \<and> f d = [])"
  by (cases "get k cfg") (auto simp: section_errors_def)

lemma v2_checked: "validate_v2 fs cfg = Inr [] \<longleftrightarrow>
     (\<exists>server sync p2p. get ''server'' cfg = JObj server \<and> server_ok server \<and>
        get ''sync'' cfg = JObj sync \<and> sync_ok sync \<and> get ''p2p'' cfg = JObj p2p \<and> p2p_ok p2p \<and>
        sources_ok (\<lambda>s. remote_source_ok s \<or> local_source_ok fs s) cfg \<and>
        (\<forall>k. get ''key_file'' cfg = JStr k \<longrightarrow> get ''url'' server \<noteq> JNull \<or> exists_path fs k))"
  (is "?checks \<longleftrightarrow> ?rules")
proof -
  let ?S = "sources_ok (\<lambda>s. remote_source_ok s \<or> local_source_ok fs s) cfg"
  have truth: "json_truthy u \<longleftrightarrow> u \<noteq> JNull" if "url_ok u" for u
    using that by (auto simp: url_ok_def)
  have src: "validate_sources (validate_source_v2 fs) cfg = Inr [] \<longleftrightarrow> ?S"
    by (rule sources_checked) (rule source_v2_checked)
  have "?checks \<longleftrightarrow> (as_obj (get ''server'' cfg) \<noteq> None \<and> section_errors ''server'' validate_server cfg = []) \<and>
      (as_obj (get ''sync'' cfg) \<noteq> None \<and> section_errors ''sync'' validate_sync cfg = []) \<and>
      (as_obj (get ''p2p'' cfg) \<noteq> None \<and> section_errors ''p2p'' validate_p2p cfg = []) \<and> ?S \<and>
      (\<forall>k. get ''key_file'' cfg = JStr k \<longrightarrow>
         json_truthy (case as_obj (get ''server'' cfg) of None \<Rightarrow> JNull | Some d \<Rightarrow> get ''url'' d) \<or> exists_path fs k)"
    unfolding src [symmetric]
    by (cases "as_obj (get ''server'' cfg)"; cases "as_obj (get ''sync'' cfg)"; cases "as_obj (get ''p2p'' cfg)";
        cases "validate_sources (validate_source_v2 fs) cfg")
      (simp_all add: validate_v2_def Let_def key_checked del: as_obj_Some)
  also have "\<dots> \<longleftrightarrow> ?rules"
    unfolding section_checked server_checked sync_checked p2p_checked
    by (auto simp: truth server_ok_def)
  finally show ?thesis .
qed


section \<open>Migration\<close>

lemma numbered_inj: "numbered_backup p a = numbered_backup p b \<Longrightarrow> a = b"
  by (simp add: numbered_backup_def show_nat_inj)

lemma backup_path_free:
  assumes "finite (dom d)"
  shows "\<exists>b. resolve_backup_path p d = Some b \<and> d b = None"
proof (cases "d (base_backup p) = None")
  case True
  then show ?thesis by (simp add: resolve_backup_path_def)
next
  case False
  have "finite {n. d (numbered_backup p n) \<noteq> None}"
  proof (rule inj_on_finite)
    show "inj_on (numbered_backup p) {n. d (numbered_backup p n) \<noteq> None}"
      using numbered_inj by (auto intro: inj_onI)
    show "numbered_backup p ` {n. d (numbered_backup p n) \<noteq> None} \<subseteq> dom d" by auto
  qed (rule assms)
  from free_seq_returns [OF this, of 1] False show ?thesis
    by (auto simp: resolve_backup_path_def)
qed

lemma v2_data_other:
  "k \<notin> {''webdav'', ''version'', ''server'', ''sync'', ''p2p''} \<Longrightarrow> map_of (v2_data config) k = map_of config k"
  by (simp add: v2_data_def)

text \<open>The migration ends, and whatever fails the text of the old configuration is still
  there, at its path or in a backup that was not there before; no other file is touched. It
  reports success exactly if both file operations work; then the file holds the result, which
  keeps every other field.\<close>

lemma migration_keeps_original:
  assumes "finite (dom d)" and "d p = Some t"
  shows "\<exists>b r d'. migrate_v1_to_v2 p copy_fault write_fault config d = Some (r, d') \<and> d b = None \<and>
    (d' p = Some t \<or> d' b = Some t) \<and> (\<forall>q. q = p \<or> q = b \<or> d' q = d q) \<and>
    (if copy_fault = Works \<and> write_fault = Works
     then r = Inr (v2_data config) \<and> d' p = Some (Parses (JObj (v2_data config))) \<and> d' b = Some t \<and>
       (\<forall>k. k \<in> {''webdav'', ''version'', ''server'', ''sync'', ''p2p''} \<or> map_of (v2_data config) k = map_of config k)
     else r = Inl ConfigMigrationError)"
proof -
  obtain b where b: "resolve_backup_path p d = Some b" "d b = None"
    using backup_path_free [OF assms(1)] by blast
  then have "b \<noteq> p" using assms(2) by auto
  show ?thesis
  proof (cases copy_fault)
    case (Fails left)
    with b assms \<open>b \<noteq> p\<close> show ?thesis
      by (intro exI [of _ b]) (simp add: migrate_v1_to_v2_def put_text_def)
  next
    case Works
    with b assms \<open>b \<noteq> p\<close> show ?thesis
      by (intro exI [of _ b], cases write_fault)
        (auto simp: migrate_v1_to_v2_def put_text_def intro: v2_data_other [unfolded insert_iff empty_iff])
  qed
qed

definition old_config :: "json dict" where
  "old_config = [(''version'', JInt 1), (''webdav'', JObj []), (''metadata_db'', JStr ''/m''),
     (''sources'', JArr [JObj [(''id'', JStr ''s''), (''type'', JStr ''directory''), (''path'', JStr ''/d'')]])]"

definition old_disk :: disk where
  "old_disk = [''/c'' \<mapsto> Parses (JObj old_config), ''/c.v1.bak'' \<mapsto> Malformed]"

text \<open>The result has no \<open>server.device_name\<close>, so the checks of the next start refuse it.\<close>

lemma migrated_config_rejected: "validate fs (JObj (v2_data config)) \<noteq> Inr []"
proof -
  have server: "get ''server'' (v2_data config) = JObj [(''url'', JNull)]"
    and version: "get ''version'' (v2_data config) = JInt 2"
    by (simp_all add: v2_data_def get_or_def)
  have "get ''device_name'' [(''url'', JNull)] = JNull" by (simp add: get_or_def)
  then have "\<not> server_ok [(''url'', JNull)]" by (simp add: server_ok_def)
  then show ?thesis
    using server version by (simp add: validate_def v2_checked)
qed

text \<open>A UUID may end in a line feed.\<close>

lemma uuid_with_line_feed:
  "UUID_match (''01234567-89ab-cdef-0123-456789ABCDEF'' @ [CHR 0x0A])"
  by code_simp

text \<open>A key is always 32 bytes long.\<close>

lemma loaded_key_length: "load_encryption_key rd env f v = Inr k \<Longrightarrow> length k = 32"
  by (auto simp: load_encryption_key_def Let_def REQUIRED_KEY_LENGTH_def split: sum.splits if_splits)

end
