(* ===== verification/Daemon.thy ===== *)
theory Daemon
  imports Config_Loader
begin

text \<open>
  \<^verbatim>\<open>stardustlib/daemon.py\<close> and the commands of \<^verbatim>\<open>stardustfs.py\<close> that use it: a resident process
  announces itself in a control file with a heartbeat, other processes read the file and ask
  for a stop with a sentinel file. The clock and the two files are the state that the
  processes share; a daemon is a step relation on it.
\<close>

section \<open>The control file\<close>

definition TICK_SECONDS :: time where "TICK_SECONDS = 1"
definition HEARTBEAT_EVERY_TICKS :: nat where "HEARTBEAT_EVERY_TICKS = 5"
definition STALE_SECONDS :: time where "STALE_SECONDS = 15"
definition STOP_WAIT_SECONDS :: time where "STOP_WAIT_SECONDS = 10"
definition POLL_SECONDS :: time where "POLL_SECONDS = 3 / 10"

text \<open>\<open>Unreadable\<close> is a file that cannot be opened or parsed.\<close>

datatype control_file = Unreadable | Control int time time

record world =
  clock :: time
  control :: "control_file option"
  sentinel :: bool

definition write_control :: "int \<Rightarrow> time \<Rightarrow> time \<Rightarrow> world \<Rightarrow> world" where
  "write_control pid started_at heartbeat_at w = w\<lparr>control := Some (Control pid started_at heartbeat_at)\<rparr>"

record daemon_status =
  running :: bool
  stale :: bool
  status_pid :: "int option"
  heartbeat_age :: "time option"

definition read_status :: "world \<Rightarrow> daemon_status" where
  "read_status w =
     (case control w of
       None \<Rightarrow> \<lparr>running = False, stale = False, status_pid = None, heartbeat_age = None\<rparr>
     | Some Unreadable \<Rightarrow> \<lparr>running = False, stale = True, status_pid = None, heartbeat_age = None\<rparr>
     | Some (Control pid started heartbeat) \<Rightarrow>
         (let age = clock w - heartbeat; alive = age < STALE_SECONDS
          in \<lparr>running = alive, stale = \<not> alive, status_pid = Some pid, heartbeat_age = Some age\<rparr>))"

definition signal_stop :: "world \<Rightarrow> bool \<times> world" where
  "signal_stop w = (if control w = None then (False, w) else (True, w\<lparr>sentinel := True\<rparr>))"

section \<open>Waiting for the end\<close>

text \<open>
  The loop of \<open>request_stop\<close>: \<open>gone t\<close> tells whether the control file is gone at time \<open>t\<close>.
\<close>

function wait_gone :: "(time \<Rightarrow> bool) \<Rightarrow> time \<Rightarrow> time \<Rightarrow> bool" where
  "wait_gone gone deadline t =
     (if t < deadline then (if gone t then True else wait_gone gone deadline (t + POLL_SECONDS)) else False)"
  by pat_completeness auto

termination
proof (relation "measure (\<lambda>(gone, deadline, t). nat \<lceil>(deadline - t) / POLL_SECONDS\<rceil>)")
  fix gone :: "time \<Rightarrow> bool" and deadline t :: time
  assume "t < deadline"
  moreover have "(deadline - (t + POLL_SECONDS)) / POLL_SECONDS = (deadline - t) / POLL_SECONDS - 1"
    by (simp add: POLL_SECONDS_def field_simps)
  moreover have "0 < (deadline - t) / POLL_SECONDS" using \<open>t < deadline\<close> by (simp add: POLL_SECONDS_def)
  ultimately show "((gone, deadline, t + POLL_SECONDS), (gone, deadline, t)) \<in>
      measure (\<lambda>(gone, deadline, t). nat \<lceil>(deadline - t) / POLL_SECONDS\<rceil>)"
    by (auto simp: ceiling_diff_one)
qed simp

declare wait_gone.simps [simp del]

datatype stop_result = Stopped | NotRunning | Timeout

definition request_stop :: "(time \<Rightarrow> bool) \<Rightarrow> world \<Rightarrow> stop_result \<times> world" where
  "request_stop gone w =
     (case signal_stop w of
       (False, w1) \<Rightarrow> (NotRunning, w1)
     | (True, w1) \<Rightarrow> (if wait_gone gone (clock w + STOP_WAIT_SECONDS) (clock w) then Stopped else Timeout, w1))"

section \<open>Signal handlers\<close>

text \<open>
  \<open>serve\<close> puts its handler in the place of the one of each signal it can (only the main thread may, and
  a platform need not have \<open>SIGTERM\<close>), remembers the earlier ones, and puts them back at the end.
\<close>

datatype handler = Sets_Flag | Earlier nat

type_synonym signal_table = "string \<Rightarrow> handler"

fun install_handlers :: "(string \<Rightarrow> bool) \<Rightarrow> string option list \<Rightarrow> signal_table \<Rightarrow> (string \<times> handler) list \<times> signal_table" where
  "install_handlers allowed [] h = ([], h)"
| "install_handlers allowed (None # sigs) h = install_handlers allowed sigs h"
| "install_handlers allowed (Some s # sigs) h =
     (if allowed s then apfst ((#) (s, h s)) (install_handlers allowed sigs (h(s := Sets_Flag)))
      else install_handlers allowed sigs h)"

fun restore_handlers :: "(string \<Rightarrow> bool) \<Rightarrow> (string \<times> handler) list \<Rightarrow> signal_table \<Rightarrow> signal_table" where
  "restore_handlers allowed [] h = h"
| "restore_handlers allowed ((s, prev) # saved) h =
     restore_handlers allowed saved (if allowed s then h(s := prev) else h)"

lemma install_handlers_saved:
  assumes "install_handlers allowed sigs h = (saved, h')" and "distinct sigs"
  shows "map_of saved = (\<lambda>s. if Some s \<in> set sigs \<and> allowed s then Some (h s) else None) \<and>
    (\<forall>s. Some s \<notin> set sigs \<or> \<not> allowed s \<longrightarrow> h' s = h s) \<and> distinct (map fst saved)"
  using assms
proof (induction allowed sigs h arbitrary: saved h' rule: install_handlers.induct)
  case (2 allowed sigs h)
  then show ?case by simp
next
  case (3 allowed s sigs h)
  show ?case
  proof (cases "allowed s")
    case True
    obtain sv k where r: "install_handlers allowed sigs (h(s := Sets_Flag)) = (sv, k)"
      by (cases "install_handlers allowed sigs (h(s := Sets_Flag))")
    have IH: "map_of sv = (\<lambda>x. if Some x \<in> set sigs \<and> allowed x then Some ((h(s := Sets_Flag)) x) else None)"
      "\<forall>x. Some x \<notin> set sigs \<or> \<not> allowed x \<longrightarrow> k x = (h(s := Sets_Flag)) x" "distinct (map fst sv)"
      using 3(1) [OF True r] 3(4) by auto
    have "s \<notin> set (map fst sv)"
      using IH(1) 3(4) by (simp flip: map_of_eq_None_iff)
    then show ?thesis using IH 3(3,4) True r by (auto simp: fun_eq_iff)
  next
    case False
    then have "install_handlers allowed sigs h = (saved, h')" using 3(3) by simp
    with 3(2) [OF False] have "map_of saved = (\<lambda>x. if Some x \<in> set sigs \<and> allowed x then Some (h x) else None)"
      "\<forall>x. Some x \<notin> set sigs \<or> \<not> allowed x \<longrightarrow> h' x = h x" "distinct (map fst saved)"
      using 3(4) by auto
    with False show ?thesis by (auto simp: fun_eq_iff)
  qed
qed auto

lemma restore_handlers_map:
  "distinct (map fst saved) \<Longrightarrow> (\<forall>s \<in> fst ` set saved. allowed s) \<Longrightarrow>
    restore_handlers allowed saved h = (\<lambda>s. case map_of saved s of None \<Rightarrow> h s | Some x \<Rightarrow> x)"
proof (induction saved arbitrary: h)
  case (Cons x saved)
  obtain s prev where x: "x = (s, prev)" by (cases x)
  have IH: "restore_handlers allowed saved (h(s := prev)) =
      (\<lambda>y. case map_of saved y of None \<Rightarrow> (h(s := prev)) y | Some z \<Rightarrow> z)"
    by (rule Cons.IH) (use Cons.prems x in auto)
  have "map_of saved s = None" and ok: "allowed s" using Cons.prems x by (auto simp: map_of_eq_None_iff)
  then show ?case unfolding x restore_handlers.simps if_P [OF ok] IH by (auto intro!: ext split: option.split)
qed simp

text \<open>When the daemon has ended, every signal has the handler it had before.\<close>

lemma handlers_restored:
  assumes "install_handlers allowed sigs h = (saved, h')" and "distinct sigs"
  shows "restore_handlers allowed saved h' = h"
proof -
  note i = install_handlers_saved [OF assms]
  have "\<forall>s \<in> fst ` set saved. allowed s"
  proof
    fix s assume "s \<in> fst ` set saved"
    then have "map_of saved s \<noteq> None" by (simp add: map_of_eq_None_iff)
    then show "allowed s" using i by (auto split: if_splits)
  qed
  then show ?thesis using i restore_handlers_map [of saved allowed h'] by (auto simp: fun_eq_iff)
qed

section \<open>The daemon\<close>

text \<open>
  \<open>serve\<close> loops with a count of ticks and the flag that the signal handlers set, then runs the
  cleanup and removes the files.
\<close>

datatype phase = Looping nat bool | Cleaning | Ended

record daemon =
  pid :: int
  started :: time
  phase :: phase

definition serve_start :: "int \<Rightarrow> world \<Rightarrow> daemon \<times> world" where
  "serve_start p w = (\<lparr>pid = p, started = clock w, phase = Looping 0 False\<rparr>,
     write_control p (clock w) (clock w) (w\<lparr>sentinel := False\<rparr>))"

definition leave_loop :: "daemon \<Rightarrow> world \<Rightarrow> bool" where
  "leave_loop d w \<longleftrightarrow> (case phase d of Looping n requested \<Rightarrow> requested \<or> sentinel w | _ \<Rightarrow> False)"

text \<open>One turn of the loop, \<open>dt\<close> being the time that \<open>sleep(1)\<close> and the scheduler take.\<close>

definition serve_tick :: "time \<Rightarrow> daemon \<times> world \<Rightarrow> daemon \<times> world" where
  "serve_tick dt s = (case s of (d, w) \<Rightarrow>
     (case phase d of
       Looping n requested \<Rightarrow>
         (let w1 = w\<lparr>clock := clock w + dt\<rparr>; tick = Suc n
          in (d\<lparr>phase := Looping tick requested\<rparr>,
              if tick mod HEARTBEAT_EVERY_TICKS = 0 then write_control (pid d) (started d) (clock w1) w1 else w1))
     | _ \<Rightarrow> (d, w)))"

definition serve_finish :: "time \<Rightarrow> daemon \<times> world \<Rightarrow> daemon \<times> world" where
  "serve_finish dt s = (case s of (d, w) \<Rightarrow>
     (d\<lparr>phase := Ended\<rparr>, w\<lparr>clock := clock w + dt, control := None, sentinel := False\<rparr>))"

text \<open>
  What can happen to a daemon and the shared files: its own turns, each of which takes at
  most \<open>slow\<close> seconds, the cleanup, a signal, a stop request of another process, time.
\<close>

inductive daemon_step :: "time \<Rightarrow> daemon \<times> world \<Rightarrow> daemon \<times> world \<Rightarrow> bool" for slow where
  tick: "phase d = Looping n requested \<Longrightarrow> \<not> leave_loop d w \<Longrightarrow> TICK_SECONDS \<le> dt \<Longrightarrow> dt \<le> slow \<Longrightarrow>
    daemon_step slow (d, w) (serve_tick dt (d, w))"
| leave: "leave_loop d w \<Longrightarrow> daemon_step slow (d, w) (d\<lparr>phase := Cleaning\<rparr>, w)"
| finish: "phase d = Cleaning \<Longrightarrow> 0 \<le> dt \<Longrightarrow> daemon_step slow (d, w) (serve_finish dt (d, w))"
| interrupted: "phase d = Looping n requested \<Longrightarrow> daemon_step slow (d, w) (d\<lparr>phase := Looping n True\<rparr>, w)"
| stop_asked: "daemon_step slow (d, w) (d, snd (signal_stop w))"
| idle: "phase d = Ended \<Longrightarrow> 0 \<le> dt \<Longrightarrow> daemon_step slow (d, w) (d, w\<lparr>clock := clock w + dt\<rparr>)"

inductive reachable_daemon :: "time \<Rightarrow> daemon \<times> world \<Rightarrow> bool" for slow where
  begin_serve: "reachable_daemon slow (serve_start p w)"
| continue: "reachable_daemon slow s \<Longrightarrow> daemon_step slow s s' \<Longrightarrow> reachable_daemon slow s'"

inductive_cases daemon_stepE: "daemon_step slow s s'"

text \<open>The heartbeat is at most as old as the turns since it was written.\<close>

definition daemon_inv :: "time \<Rightarrow> daemon \<times> world \<Rightarrow> bool" where
  "daemon_inv slow s = (case s of (d, w) \<Rightarrow>
     (case phase d of
       Looping n requested \<Rightarrow> (\<exists>b. control w = Some (Control (pid d) (started d) b) \<and>
           clock w - b \<le> slow * real (n mod HEARTBEAT_EVERY_TICKS))
     | Cleaning \<Rightarrow> (\<exists>b. control w = Some (Control (pid d) (started d) b))
     | Ended \<Rightarrow> control w = None \<and> \<not> sentinel w))"

lemma tick_inv:
  assumes "daemon_inv slow (d, w)" and "phase d = Looping n requested" and "dt \<le> slow"
  shows "daemon_inv slow (serve_tick dt (d, w))"
proof (cases "Suc n mod HEARTBEAT_EVERY_TICKS = 0")
  case True
  with assms show ?thesis
    by (simp add: daemon_inv_def serve_tick_def write_control_def Let_def)
next
  case False
  then have "Suc n mod HEARTBEAT_EVERY_TICKS = Suc (n mod HEARTBEAT_EVERY_TICKS)"
    by (simp add: mod_Suc split: if_splits)
  with assms False show ?thesis
    by (auto simp: daemon_inv_def serve_tick_def Let_def algebra_simps)
qed

lemma step_inv: "daemon_step slow s s' \<Longrightarrow> daemon_inv slow s \<Longrightarrow> daemon_inv slow s'"
proof (induction rule: daemon_step.induct)
  case (tick d n requested w dt)
  then show ?case by (intro tick_inv)
next
  case (leave d w)
  then show ?case by (auto simp: daemon_inv_def leave_loop_def split: phase.splits)
qed (auto simp: daemon_inv_def serve_finish_def signal_stop_def split: phase.splits)

lemma reachable_inv: "reachable_daemon slow s \<Longrightarrow> daemon_inv slow s"
proof (induction rule: reachable_daemon.induct)
  case (begin_serve p w)
  then show ?case by (simp add: daemon_inv_def serve_start_def write_control_def)
qed (rule step_inv)

text \<open>As long as no turn of the loop takes three seconds, every reader of the control file,
  also in the middle of a turn, finds a looping daemon running under its process number; once
  it has ended, the files are gone and it is reported neither running nor stale.\<close>

lemma daemon_status_truthful:
  assumes "reachable_daemon slow (d, w)" and "slow < 3" and "x \<le> slow"
  shows "case phase d of
      Looping n requested \<Rightarrow> running (read_status (w\<lparr>clock := clock w + x\<rparr>)) \<and>
        status_pid (read_status (w\<lparr>clock := clock w + x\<rparr>)) = Some (pid d)
    | Cleaning \<Rightarrow> status_pid (read_status w) = Some (pid d)
    | Ended \<Rightarrow> \<not> running (read_status w) \<and> \<not> stale (read_status w) \<and> \<not> sentinel w"
proof (cases "phase d")
  case (Looping n requested)
  with reachable_inv [OF assms(1)] obtain b where b: "control w = Some (Control (pid d) (started d) b)"
      "clock w - b \<le> slow * real (n mod HEARTBEAT_EVERY_TICKS)"
    by (auto simp: daemon_inv_def)
  have "n mod HEARTBEAT_EVERY_TICKS \<le> 4"
    by (simp add: HEARTBEAT_EVERY_TICKS_def flip: less_Suc_eq_le)
  have "slow * real (n mod HEARTBEAT_EVERY_TICKS) \<le> 12"
  proof (cases "0 \<le> slow")
    case True
    then have "slow * real (n mod HEARTBEAT_EVERY_TICKS) \<le> 3 * 4"
      using assms(2) \<open>n mod HEARTBEAT_EVERY_TICKS \<le> 4\<close> by (intro mult_mono) simp_all
    then show ?thesis by simp
  next
    case False
    then show ?thesis by (smt (verit) mult_nonneg_nonpos2 mult.commute of_nat_0_le_iff)
  qed
  with b assms Looping show ?thesis
    by (simp add: read_status_def STALE_SECONDS_def Let_def)
qed (use reachable_inv [OF assms(1)] in \<open>auto simp: daemon_inv_def read_status_def Let_def\<close>)

definition quiet_world :: world where
  "quiet_world = \<lparr>clock = 100, control = Some (Control 7 10 20), sentinel = True\<rparr>"

lemma looping_example:
  "reachable_daemon 2 (\<lparr>pid = 9, started = 100, phase = Looping 1 False\<rparr>,
     \<lparr>clock = 102, control = Some (Control 9 100 100), sentinel = False\<rparr>)"
proof -
  let ?s = "serve_start 9 quiet_world"
  have "daemon_step 2 (fst ?s, snd ?s) (serve_tick 2 (fst ?s, snd ?s))"
    by (rule daemon_step.tick [where n = 0 and requested = False])
      (simp_all add: serve_start_def leave_loop_def quiet_world_def write_control_def TICK_SECONDS_def)
  then have "reachable_daemon 2 (serve_tick 2 ?s)"
    using reachable_daemon.continue [OF reachable_daemon.begin_serve] by simp
  then show ?thesis
    by (simp add: serve_tick_def serve_start_def quiet_world_def write_control_def Let_def HEARTBEAT_EVERY_TICKS_def)
qed

section \<open>Stopping\<close>

lemma ex_nat_Suc_iff: "(\<exists>i. P i) \<longleftrightarrow> P 0 \<or> (\<exists>i. P (Suc i))"
  by (metis not0_implies_Suc)

lemma wait_gone_iff:
  "wait_gone gone deadline t \<longleftrightarrow> (\<exists>i. t + real i * POLL_SECONDS < deadline \<and> gone (t + real i * POLL_SECONDS))"
proof (induction gone deadline t rule: wait_gone.induct)
  case (1 gone deadline t)
  have shift: "t + POLL_SECONDS + real i * POLL_SECONDS = t + real (Suc i) * POLL_SECONDS" for i
    by (simp add: algebra_simps)
  show ?case
  proof (cases "t < deadline")
    case True
    have "(\<exists>i. t + real i * POLL_SECONDS < deadline \<and> gone (t + real i * POLL_SECONDS)) \<longleftrightarrow>
        gone t \<or> (\<exists>i. t + real (Suc i) * POLL_SECONDS < deadline \<and> gone (t + real (Suc i) * POLL_SECONDS))"
      (is "(\<exists>i. ?P i) \<longleftrightarrow> _")
      using True by (subst ex_nat_Suc_iff [of ?P]) simp
    with 1 True show ?thesis by (subst wait_gone.simps) (simp add: shift)
  next
    case False
    have "0 \<le> real i * POLL_SECONDS" for i by (simp add: POLL_SECONDS_def)
    with False show ?thesis by (subst wait_gone.simps) (auto simp: not_less intro: add_increasing2 dest: order_trans)
  qed
qed

text \<open>C31: Whoever asks a looping daemon to stop is heard: no further turn of its loop begins,
  its next two steps of its own end it with both files removed, and the one who asked is told
  so exactly if one of the polls within ten seconds finds the control file gone.\<close>

theorem stop_request_ends_daemon:
  assumes "reachable_daemon slow (d, w)" and "phase d = Looping n requested"
  shows "\<exists>w1 s1 s2. signal_stop w = (True, w1) \<and>
    daemon_step slow (d, w1) s1 \<and> daemon_step slow s1 s2 \<and>
    phase (fst s2) = Ended \<and> control (snd s2) = None \<and> \<not> sentinel (snd s2) \<and>
    (\<forall>s. \<not> daemon_step slow (d, w1) s \<or> phase (fst s) \<in> {Cleaning, Looping n requested, Looping n True}) \<and>
    request_stop gone w =
      (if \<exists>i. real i * POLL_SECONDS < STOP_WAIT_SECONDS \<and> gone (clock w + real i * POLL_SECONDS) then Stopped else Timeout, w1)"
proof -
  let ?w = "w\<lparr>sentinel := True\<rparr>" and ?d = "d\<lparr>phase := Cleaning\<rparr>"
  obtain b where "control w = Some (Control (pid d) (started d) b)"
    using reachable_inv [OF assms(1)] assms(2) by (auto simp: daemon_inv_def)
  then have heard: "signal_stop w = (True, ?w)" by (simp add: signal_stop_def)
  have out: "leave_loop d ?w" using assms(2) by (simp add: leave_loop_def)
  have s1: "daemon_step slow (d, ?w) (?d, ?w)" using out by (rule daemon_step.leave)
  have s2: "daemon_step slow (?d, ?w) (serve_finish 0 (?d, ?w))" by (rule daemon_step.finish) simp_all
  have quiet: "phase (fst s) \<in> {Cleaning, Looping n requested, Looping n True}" if "daemon_step slow (d, ?w) s" for s
    using that out assms(2) by (elim daemon_stepE) (auto simp: signal_stop_def)
  have result: "request_stop gone w =
      (if \<exists>i. real i * POLL_SECONDS < STOP_WAIT_SECONDS \<and> gone (clock w + real i * POLL_SECONDS) then Stopped else Timeout, ?w)"
    by (simp add: request_stop_def heard wait_gone_iff add.commute)
  show ?thesis
    by (intro exI [of _ ?w] exI [of _ "(?d, ?w)"] exI [of _ "serve_finish 0 (?d, ?w)"] conjI heard s1 s2 result)
      (use quiet in \<open>auto simp: serve_finish_def\<close>)
qed

theorem stop_request_ends_daemon_witness:
  "fst (request_stop (\<lambda>t. 103 \<le> t) \<lparr>clock = 102, control = Some (Control 9 100 100), sentinel = False\<rparr>) = Stopped"
proof -
  have phase: "phase \<lparr>pid = 9, started = 100, phase = Looping 1 False\<rparr> = Looping 1 False" by simp
  have "\<exists>i. real i * POLL_SECONDS < STOP_WAIT_SECONDS \<and> (103 :: real) \<le> 102 + real i * POLL_SECONDS"
    by (rule exI [of _ 4]) (simp add: POLL_SECONDS_def STOP_WAIT_SECONDS_def)
  then show ?thesis
    using stop_request_ends_daemon [OF looping_example phase, where gone = "\<lambda>t. 103 \<le> t"]
    by (elim exE conjE) auto
qed

section \<open>The commands\<close>

datatype start = Exit int | Startup

text \<open>\<open>v != 2\<close>; a float compares equal to an integer.\<close>

definition is_two :: "json \<Rightarrow> bool" where
  "is_two v \<longleftrightarrow> v = JInt 2 \<or> v = JFloat (Some 2)"

definition run_daemon :: "json result \<Rightarrow> world \<Rightarrow> start result" where
  "run_daemon loaded w =
     (case loaded of
       Inl e \<Rightarrow> Inr (Exit 1)
     | Inr v \<Rightarrow>
         (case as_obj v of
           None \<Rightarrow> Inl AttributeError
         | Some config \<Rightarrow>
             if json_truthy (get ''metadata_db'' config) \<and> \<not> is_str (get ''metadata_db'' config)
             then Inl TypeError
             else if json_truthy (get ''metadata_db'' config) \<and> running (read_status w) then Inr (Exit 1)
             else if \<not> is_two (get ''version'' config) then Inr (Exit 1)
             else Inr Startup))"

definition daemon_status_exit :: "world \<Rightarrow> int" where
  "daemon_status_exit w = (if running (read_status w) then 0 else 1)"

definition daemon_stop_exit :: "stop_result \<Rightarrow> int" where
  "daemon_stop_exit r = (if r = Stopped then 0 else 1)"

text \<open>
  Nothing is written during the cleanup. If that takes more than fifteen seconds, the daemon
  is reported stale, a second one starts, and the first removes the control file of the second
  when it ends: the second one runs on, is reported as not running, and cannot be stopped.
\<close>

lemma slow_cleanup_hides_second_daemon:
  fixes config :: "json dict" and d :: daemon and w :: world and dt :: time
  defines "config \<equiv> [(''version'', JInt 2), (''metadata_db'', JStr ''/m'')]"
  assumes cleaning: "phase d = Cleaning" "control w = Some (Control p s b)" "clock w - b \<ge> 15" and "0 \<le> dt"
  shows "run_daemon (Inr (JObj config)) w = Inr Startup"
    and "phase (fst (serve_start q w)) = Looping 0 False"
    and "\<exists>w'. daemon_step slow (d, snd (serve_start q w)) (d\<lparr>phase := Ended\<rparr>, w') \<and>
      \<not> running (read_status w') \<and> fst (signal_stop w') = False"
proof -
  show "run_daemon (Inr (JObj config)) w = Inr Startup"
    using cleaning by (simp add: run_daemon_def config_def get_or_def read_status_def is_two_def is_str_def STALE_SECONDS_def Let_def)
  show "phase (fst (serve_start q w)) = Looping 0 False" by (simp add: serve_start_def)
  show "\<exists>w'. daemon_step slow (d, snd (serve_start q w)) (d\<lparr>phase := Ended\<rparr>, w') \<and>
      \<not> running (read_status w') \<and> fst (signal_stop w') = False"
    using daemon_step.finish [OF cleaning(1) \<open>0 \<le> dt\<close>, of slow "snd (serve_start q w)"]
    by (auto simp: serve_finish_def read_status_def signal_stop_def intro!: exI)
qed

end
