(* ===== verification/Startup.thy ===== *)
theory Startup
  imports JBOD_Manager Posix_Path Config_Loader
begin

text \<open>
  The assembly of the components in \<^verbatim>\<open>stardustfs.py\<close>: the local volume (\<open>_build_core\<close>), the
  store for hosted chunks (\<open>_build_parity_store\<close>), the remote sources
  (\<open>_mount_remote_sources\<close>) and the start of the daemon (\<open>startup_v2\<close>), from a configuration
  that is a JSON object.
\<close>

section \<open>The local volume\<close>

text \<open>
  What the assembly asks of the outside: the file system, the key, the key derivation of the
  cryptography library, opening the database, and the content of the source directories.
\<close>

record core_env =
  ce_isdir :: "string \<Rightarrow> bool"
  ce_access_rw :: "string \<Rightarrow> bool"
  ce_isfile :: "string \<Rightarrow> bool"
  ce_writable :: "string \<Rightarrow> bool"
  ce_key :: "string option \<Rightarrow> bytes result"
  ce_hkdf :: "bytes \<Rightarrow> bytes"
  ce_open :: "string \<Rightarrow> bytes \<Rightarrow> mstore result"
  ce_content :: "string \<Rightarrow> bytes dict \<times> string list"
  ce_create :: "string \<Rightarrow> bool"
  ce_crypto :: crypto

datatype core_error = KeyProblem | SourceMissing nat | SourceNoAccess nat | SourceUncreatable nat | StoreFailed

text \<open>A string argument; \<open>os.path\<close> raises on \<open>null\<close> and other values.\<close>

fun str_arg :: "json \<Rightarrow> string result" where
  "str_arg (JStr s) = Inr s"
| "str_arg _ = Inl TypeError"

definition item :: "string \<Rightarrow> json dict \<Rightarrow> json result" where
  "item k d = (case map_of d k of None \<Rightarrow> Inl KeyError | Some v \<Rightarrow> Inr v)"

definition str_item :: "string \<Rightarrow> json dict \<Rightarrow> string result" where
  "str_item k d = (case item k d of Inl e \<Rightarrow> Inl e | Inr v \<Rightarrow> str_arg v)"

definition source_cfgs :: "json dict \<Rightarrow> json list result" where
  "source_cfgs config = (case get_or (JArr []) ''sources'' config of JArr xs \<Rightarrow> Inr xs | _ \<Rightarrow> Inl TypeError)"

definition source_problem :: "core_env \<Rightarrow> nat \<Rightarrow> json dict \<Rightarrow> core_error list result" where
  "source_problem ce i cfg =
     (if get ''type'' cfg = JStr ''directory'' then
        (case str_arg (get_or (JStr []) ''path'' cfg) of
          Inl e \<Rightarrow> Inl e
        | Inr p \<Rightarrow> Inr (if \<not> ce_isdir ce p then [SourceMissing i]
            else if \<not> ce_access_rw ce p then [SourceNoAccess i] else []))
      else if get ''type'' cfg = JStr ''loopback'' then
        (case str_arg (get_or (JStr []) ''path'' cfg) of
          Inl e \<Rightarrow> Inl e
        | Inr p \<Rightarrow> Inr (if \<not> ce_isfile ce p \<and> dirname p \<noteq> [] \<and> \<not> ce_writable ce (dirname p)
            then [SourceUncreatable i] else []))
      else Inr [])"

fun source_problems :: "core_env \<Rightarrow> nat \<Rightarrow> json list \<Rightarrow> core_error list result" where
  "source_problems ce i [] = Inr []"
| "source_problems ce i (c # cs) =
     (case as_obj c of
       None \<Rightarrow> Inl AttributeError
     | Some d \<Rightarrow>
         (case source_problem ce i d of
           Inl e \<Rightarrow> Inl e
         | Inr es \<Rightarrow> (case source_problems ce (Suc i) cs of Inl e \<Rightarrow> Inl e | Inr es' \<Rightarrow> Inr (es @ es'))))"

text \<open>Creating one local source; \<open>None\<close> is an entry that is passed over.\<close>

definition make_source :: "core_env \<Rightarrow> json dict \<Rightarrow> source option result" where
  "make_source ce cfg =
     (case item ''type'' cfg of
       Inl e \<Rightarrow> Inl e
     | Inr t \<Rightarrow>
         if t \<notin> {JStr ''directory'', JStr ''loopback''} then Inr None
         else (case (str_item ''id'' cfg, str_item ''path'' cfg) of
             (Inl e, _) \<Rightarrow> Inl e
           | (Inr i, Inl e) \<Rightarrow> Inl e
           | (Inr i, Inr p) \<Rightarrow>
               if t = JStr ''directory'' then
                 Inr (Some (dir_initialize (ce_isdir ce p) (ce_access_rw ce p)
                   \<lparr>src_id = i, src_kind = Directory, src_active = False, src_files = fst (ce_content ce p),
                    src_dirs = snd (ce_content ce p), src_used = 0\<rparr>))
               else (case item ''size'' cfg of
                   Inl e \<Rightarrow> Inl e
                 | Inr v \<Rightarrow>
                     (case as_int v of
                       None \<Rightarrow> Inl TypeError
                     | Some n \<Rightarrow>
                         (case lb_new i n of
                           Inl e \<Rightarrow> Inl e
                         | Inr s \<Rightarrow> Inr (Some (lb_initialize (ce_isfile ce p) (ce_create ce p)
                             (s\<lparr>src_files := fst (ce_content ce p), src_dirs := snd (ce_content ce p)\<rparr>))))))))"

fun make_sources :: "core_env \<Rightarrow> json list \<Rightarrow> source list result" where
  "make_sources ce [] = Inr []"
| "make_sources ce (c # cs) =
     (case as_obj c of
       None \<Rightarrow> Inl TypeError
     | Some d \<Rightarrow>
         (case make_source ce d of
           Inl e \<Rightarrow> Inl e
         | Inr s \<Rightarrow>
             (case make_sources ce cs of
               Inl e \<Rightarrow> Inl e
             | Inr ss \<Rightarrow> Inr (case s of None \<Rightarrow> ss | Some x \<Rightarrow> x # ss))))"

definition load_key :: "core_env \<Rightarrow> json dict \<Rightarrow> bytes result" where
  "load_key ce config =
     (case get ''key_file'' config of
       JNull \<Rightarrow> ce_key ce None
     | JStr f \<Rightarrow> ce_key ce (Some f)
     | _ \<Rightarrow> Inl TypeError)"

text \<open>A missing or unusable key is a problem to report, any other exception leaves the function.\<close>

definition key_or_problem :: "core_env \<Rightarrow> json dict \<Rightarrow> bytes option result" where
  "key_or_problem ce config =
     (case load_key ce config of
       Inr k \<Rightarrow> Inr (if length k = 32 then Some k else None)
     | Inl e \<Rightarrow> if e \<in> {KeyNotFoundError, InvalidKeyError} then Inr None else Inl e)"

definition open_store :: "core_env \<Rightarrow> json dict \<Rightarrow> bytes \<Rightarrow> mstore result" where
  "open_store ce config key =
     (case str_item ''metadata_db'' config of Inl e \<Rightarrow> Inl e | Inr p \<Rightarrow> ce_open ce p (ce_hkdf ce key))"

text \<open>The second half of \<open>_build_core\<close>, after all checks have passed.\<close>

definition assemble :: "core_env \<Rightarrow> json list \<Rightarrow> bytes \<Rightarrow> mstore \<Rightarrow> (jbod \<times> bytes) result" where
  "assemble ce cfgs k m =
     (case new_engine (ce_crypto ce) k of
       Inl e \<Rightarrow> Inl e
     | Inr eg \<Rightarrow>
         (case make_sources ce cfgs of
           Inl e \<Rightarrow> Inl e
         | Inr ss \<Rightarrow> Inr (jbod_init ss m (Some eg) None, ce_hkdf ce k)))"

text \<open>\<open>_build_core\<close>: the problems of the key, the sources and the database are collected, and
  if there is one the process exits.\<close>

definition build_core :: "core_env \<Rightarrow> json dict \<Rightarrow> (jbod \<times> bytes) result" where
  "build_core ce config =
     (case key_or_problem ce config of
       Inl e \<Rightarrow> Inl e
     | Inr key \<Rightarrow>
         (case source_cfgs config of
           Inl e \<Rightarrow> Inl e
         | Inr cfgs \<Rightarrow>
             (case source_problems ce 0 cfgs of
               Inl e \<Rightarrow> Inl e
             | Inr problems \<Rightarrow>
                 (case key of
                   None \<Rightarrow> Inl SystemExit
                 | Some k \<Rightarrow>
                     (case open_store ce config k of
                       Inl e \<Rightarrow> Inl SystemExit
                     | Inr m \<Rightarrow> if problems \<noteq> [] then Inl SystemExit else assemble ce cfgs k m)))))"

subsection \<open>The volume that is built\<close>

text \<open>The entry describes the source: a local one with the id of the entry, empty or with the
  content found at the path of the entry.\<close>

definition describes :: "core_env \<Rightarrow> json \<Rightarrow> source \<Rightarrow> bool" where
  "describes ce c s \<longleftrightarrow> (\<exists>d p. c = JObj d \<and> map_of d ''id'' = Some (JStr (src_id s)) \<and>
     map_of d ''path'' = Some (JStr p) \<and> is_local s \<and>
     (get ''type'' d = JStr ''directory'' \<and> src_kind s = Directory \<and> src_files s = fst (ce_content ce p) \<and> src_active s \<or>
      get ''type'' d = JStr ''loopback'' \<and> (\<exists>n. src_kind s = Loopback n \<and> 10485760 \<le> n \<and> n \<le> 2199023255552) \<and>
        (src_active s \<longleftrightarrow> ce_isfile ce p \<or> ce_create ce p)))"

definition is_local_cfg :: "json \<Rightarrow> bool" where
  "is_local_cfg c \<longleftrightarrow> (\<exists>d. c = JObj d \<and> get ''type'' d \<in> {JStr ''directory'', JStr ''loopback''})"

lemma make_source_None: "make_source ce d = Inr None \<Longrightarrow> \<not> is_local_cfg (JObj d)"
  by (auto simp: make_source_def is_local_cfg_def item_def get_or_def
      split: option.splits sum.splits if_splits)

lemma make_source_Some:
  assumes "make_source ce d = Inr (Some s)" and "source_problem ce i d = Inr []"
  shows "is_local_cfg (JObj d) \<and> describes ce (JObj d) s"
  using assms
  by (auto simp: make_source_def source_problem_def describes_def is_local_cfg_def item_def str_item_def get_or_def
      dir_initialize_def lb_new_def lb_initialize_def lb_mount_def lb_cleanup_partial_def deactivate_def
      is_local_def is_remote_def MIN_LOOPBACK_SIZE_def MAX_LOOPBACK_SIZE_def
      elim!: str_arg.elims as_int.elims split: option.splits sum.splits if_splits)

lemma make_sources_ok:
  "make_sources ce cs = Inr ss \<Longrightarrow> source_problems ce i cs = Inr [] \<Longrightarrow>
    list_all2 (describes ce) (filter is_local_cfg cs) ss"
proof (induction cs arbitrary: ss i)
  case (Cons c cs)
  obtain d x ss' where c: "c = JObj d" "make_source ce d = Inr x" "make_sources ce cs = Inr ss'"
      "ss = (case x of None \<Rightarrow> ss' | Some s \<Rightarrow> s # ss')"
    using Cons.prems(1) by (auto split: option.splits sum.splits)
  have p: "source_problem ce i d = Inr []" "source_problems ce (Suc i) cs = Inr []"
    using Cons.prems(2) c(1) by (auto split: sum.splits)
  show ?case
  proof (cases x)
    case None
    with c p Cons.IH [OF c(3) p(2)] make_source_None show ?thesis by auto
  next
    case (Some s)
    with c p Cons.IH [OF c(3) p(2)] make_source_Some [of ce d s i] show ?thesis by auto
  qed
qed simp

lemma built_core:
  assumes "build_core ce config = Inr (j, db_key)"
  obtains k cfgs m where "key_or_problem ce config = Inr (Some k)" and "length k = 32"
    and "source_cfgs config = Inr cfgs" and "open_store ce config k = Inr m"
    and "j = jbod_init (sources j) m (Some \<lparr>eng_key = k, eng_crypto = ce_crypto ce\<rparr>) None"
    and "db_key = ce_hkdf ce k" and "list_all2 (describes ce) (filter is_local_cfg cfgs) (sources j)"
proof -
  from assms obtain k cfgs m where b: "key_or_problem ce config = Inr (Some k)" "source_cfgs config = Inr cfgs"
      "source_problems ce 0 cfgs = Inr []" "open_store ce config k = Inr m" "assemble ce cfgs k m = Inr (j, db_key)"
    by (auto simp: build_core_def split: option.splits sum.splits if_splits)
  have len: "length k = 32" using b(1) by (auto simp: key_or_problem_def split: sum.splits if_splits)
  from b(5) obtain ss where ss: "make_sources ce cfgs = Inr ss" "db_key = ce_hkdf ce k"
      "j = jbod_init ss m (Some \<lparr>eng_key = k, eng_crypto = ce_crypto ce\<rparr>) None"
    by (auto simp: assemble_def new_engine_def validate_key_def len split: sum.splits)
  have "list_all2 (describes ce) (filter is_local_cfg cfgs) (sources j)"
    using make_sources_ok [OF ss(1) b(3)] ss(3) by (simp add: jbod_init_def)
  with b ss len show ?thesis by (intro that) (auto simp: jbod_init_def)
qed

text \<open>The ids the configuration gives to its local sources.\<close>

definition local_ids :: "json dict \<Rightarrow> json list" where
  "local_ids config = (case source_cfgs config of
     Inl e \<Rightarrow> []
   | Inr cfgs \<Rightarrow> map (\<lambda>c. case as_obj c of None \<Rightarrow> JNull | Some d \<Rightarrow> get ''id'' d) (filter is_local_cfg cfgs))"

lemma described_ids:
  "list_all2 (describes ce) cs ss \<Longrightarrow>
    map (\<lambda>c. case as_obj c of None \<Rightarrow> JNull | Some d \<Rightarrow> get ''id'' d) cs = map (JStr \<circ> src_id) ss"
  by (induction rule: list_all2_induct) (auto simp: describes_def get_or_def)

lemma described_local: "list_all2 (describes ce) cs ss \<Longrightarrow> list_all is_local ss"
  by (induction rule: list_all2_induct) (auto simp: describes_def)

lemma built_jbod_ok:
  assumes "build_core ce config = Inr (j, db_key)" and "distinct (local_ids config)"
    and "\<And>p k m. ce_open ce p k = Inr m \<Longrightarrow> paths_distinct m"
  shows "jbod_ok (j\<lparr>dev := d\<rparr>)"
proof -
  obtain k cfgs m where b: "source_cfgs config = Inr cfgs" "open_store ce config k = Inr m"
      "j = jbod_init (sources j) m (Some \<lparr>eng_key = k, eng_crypto = ce_crypto ce\<rparr>) None"
      "list_all2 (describes ce) (filter is_local_cfg cfgs) (sources j)"
    using built_core [OF assms(1)] by metis
  have "md j = m" using b(3) by (metis jbod.select_convs(2) jbod_init_def)
  moreover have "paths_distinct m" using b(2) assms(3) by (auto simp: open_store_def split: sum.splits)
  moreover have "distinct (map (JStr \<circ> src_id) (sources j))"
    using assms(2) b(1) described_ids [OF b(4)] by (simp add: local_ids_def)
  then have "distinct (map src_id (sources j))" by (simp add: distinct_map inj_on_def)
  ultimately show ?thesis using described_local [OF b(4)] by (simp add: jbod_ok_def)
qed


definition plain_core :: core_env where
  "plain_core = \<lparr>ce_isdir = \<lambda>p. True, ce_access_rw = \<lambda>p. True, ce_isfile = \<lambda>p. False, ce_writable = \<lambda>p. True,
     ce_key = \<lambda>f. Inr (replicate 32 1), ce_hkdf = id, ce_open = \<lambda>p k. Inr empty_store,
     ce_content = \<lambda>p. ([], []), ce_create = \<lambda>p. True, ce_crypto = toy_crypto\<rparr>"

definition dir_cfg :: "string \<Rightarrow> string \<Rightarrow> json" where
  "dir_cfg i p = JObj [(''type'', JStr ''directory''), (''id'', JStr i), (''path'', JStr p)]"

definition core_config :: "json list \<Rightarrow> json dict" where
  "core_config srcs = [(''sources'', JArr srcs), (''metadata_db'', JStr ''/m.db'')]"

lemma plain_build:
  "build_core plain_core (core_config [dir_cfg ''s'' ''/d'']) = Inr (sample_volume\<lparr>dev := None\<rparr>, replicate 32 1)"
  by (simp add: build_core_def key_or_problem_def load_key_def source_cfgs_def get_or_def core_config_def
      dir_cfg_def plain_core_def source_problem_def open_store_def str_item_def item_def assemble_def
      new_engine_def validate_key_def make_source_def dir_initialize_def sample_volume_def sample_source_def jbod_init_def)


text \<open>
  Neither the checks of the configuration nor the assembly look at the ids: with two sources
  of the same id a file is written to the first and looked for in the last.
\<close>

definition twin_config :: "json dict" where
  "twin_config = core_config [dir_cfg ''s'' ''/d1'', dir_cfg ''s'' ''/d2'']"

definition twin_volume :: jbod where
  "twin_volume = jbod_init [sample_source, sample_source] empty_store
     (Some \<lparr>eng_key = replicate 32 1, eng_crypto = toy_crypto\<rparr>) (Some ''d'')"

lemma twins_accepted: "build_core plain_core twin_config = Inr (twin_volume\<lparr>dev := None\<rparr>, replicate 32 1)"
  by (simp add: build_core_def key_or_problem_def load_key_def source_cfgs_def get_or_def core_config_def twin_config_def
      dir_cfg_def plain_core_def source_problem_def open_store_def str_item_def item_def assemble_def
      new_engine_def validate_key_def make_source_def dir_initialize_def twin_volume_def sample_source_def jbod_init_def)

lemma twins_misread:
  "fst (write_file sample_env ''/a'' [1, 2] twin_volume) = Inr ()"
  "fst (read_file sample_env ''/a'' (snd (write_file sample_env ''/a'' [1, 2] twin_volume))) = Inl FileNotFoundError"
  by code_simp+

section \<open>The store for hosted chunks\<close>

text \<open>\<open>int(v)\<close>: towards zero for floats, \<open>int_of_str\<close> for texts.\<close>

definition trunc_int :: "real \<Rightarrow> int" where
  "trunc_int x = (if 0 \<le> x then \<lfloor>x\<rfloor> else \<lceil>x\<rceil>)"

fun py_int :: "json \<Rightarrow> int result" where
  "py_int (JInt i) = Inr i"
| "py_int (JBool b) = Inr (if b then 1 else 0)"
| "py_int (JFloat (Some r)) = Inr (trunc_int r)"
| "py_int (JFloat None) = Inl ValueError"
| "py_int (JStr s) = (case int_of_str s of Some i \<Rightarrow> Inr i | None \<Rightarrow> Inl ValueError)"
| "py_int _ = Inl TypeError"

definition section_of :: "string \<Rightarrow> json dict \<Rightarrow> json dict result" where
  "section_of k config =
     (case as_obj (get_or (JObj []) k config) of None \<Rightarrow> Inl AttributeError | Some d \<Rightarrow> Inr d)"

text \<open>The directory and the limit of the store, or \<open>None\<close>: no store. Multiplying with the
  fraction is exact here.\<close>

definition build_parity_store :: "json dict \<Rightarrow> real \<Rightarrow> int option \<Rightarrow> (string \<times> int) option result" where
  "build_parity_store config fraction provided =
     (case section_of ''replication'' config of
       Inl e \<Rightarrow> Inl e
     | Inr repl \<Rightarrow>
         (case section_of ''p2p'' config of
           Inl e \<Rightarrow> Inl e
         | Inr p2p \<Rightarrow>
             if \<not> json_truthy (get_or (JBool True) ''enabled'' repl) then Inr None
             else (case str_item ''metadata_db'' config of
                 Inl e \<Rightarrow> Inl e
               | Inr db \<Rightarrow>
                   (case (case provided of Some n \<Rightarrow> Inr (Some n)
                          | None \<Rightarrow> (case map_of repl ''provided_bytes'' of
                              None \<Rightarrow> Inr None
                            | Some v \<Rightarrow> (case py_int v of Inl e \<Rightarrow> Inl e | Inr n \<Rightarrow> Inr (Some n)))) of
                     Inl e \<Rightarrow> Inl e
                   | Inr (Some n) \<Rightarrow> Inr (Some (db @ ''.parity'', trunc_int (real_of_int n * fraction)))
                   | Inr None \<Rightarrow>
                       (case map_of p2p ''parity_max_bytes'' of
                         None \<Rightarrow> Inr (Some (db @ ''.parity'', 0))
                       | Some v \<Rightarrow> (case as_int v of None \<Rightarrow> Inl TypeError
                           | Some n \<Rightarrow> Inr (Some (db @ ''.parity'', n))))))))"

lemma int_texts: "int_of_str '' -1_000 '' = Some (- 1000)" "int_of_str ''1__0'' = None" "int_of_str ''-'' = None"
  by code_simp+

text \<open>With a fraction of at most one the limit is within what the user provides.\<close>

lemma parity_limit_within_provided:
  assumes "build_parity_store config fraction (Some n) = Inr (Some (dir, limit))"
    and "0 \<le> fraction" and "fraction \<le> 1" and "0 \<le> n"
  shows "0 \<le> limit \<and> limit \<le> n"
proof -
  have "limit = \<lfloor>real_of_int n * fraction\<rfloor>"
    using assms by (auto simp: build_parity_store_def trunc_int_def split: sum.splits if_splits)
  moreover have "real_of_int n * fraction \<le> real_of_int n * 1" using assms(3,4) by (intro mult_left_mono) simp_all
  ultimately show ?thesis using assms(2,4) by (simp add: floor_le_iff)
qed

section \<open>Remote sources\<close>

text \<open>
  \<open>init d\<close> is the outcome of creating and initializing the source for device \<open>d\<close>: an exception,
  or whether it is active. The state is the volume with the devices mounted so far.
\<close>

definition remote_entry :: "string \<Rightarrow> string \<Rightarrow> bool \<Rightarrow> source" where
  "remote_entry sid d active = \<lparr>src_id = sid, src_kind = Remote d, src_active = active, src_files = [],
     src_dirs = [], src_used = 0\<rparr>"

definition mount :: "(string \<Rightarrow> bool result) \<Rightarrow> string \<Rightarrow> string \<Rightarrow> jbod \<times> string list \<Rightarrow> jbod \<times> string list" where
  "mount init sid d s =
     (case init d of
       Inl e \<Rightarrow> s
     | Inr active \<Rightarrow>
         (register_remote_device d active (add_source (remote_entry sid d active) (fst s)), d # snd s))"

fun mount_configured ::
  "(string \<Rightarrow> bool result) \<Rightarrow> json list \<Rightarrow> jbod \<times> string list \<Rightarrow> unit result \<times> jbod \<times> string list" where
  "mount_configured init [] s = (Inr (), s)"
| "mount_configured init (c # cs) s =
     (case as_obj c of
       None \<Rightarrow> (Inl AttributeError, s)
     | Some cfg \<Rightarrow>
         if get ''type'' cfg \<noteq> JStr ''remote'' then mount_configured init cs s
         else (case (str_item ''id'' cfg, str_item ''device_id'' cfg) of
             (Inr sid, Inr d) \<Rightarrow> mount_configured init cs (mount init sid d s)
           | (Inl e, _) \<Rightarrow> (Inl e, s)
           | (Inr sid, Inl e) \<Rightarrow> (Inl e, s)))"

fun mount_discovered ::
  "(string \<Rightarrow> bool result) \<Rightarrow> string option \<Rightarrow> string option list \<Rightarrow> jbod \<times> string list \<Rightarrow> jbod \<times> string list" where
  "mount_discovered init self [] s = s"
| "mount_discovered init self (x # xs) s =
     (if \<not> truthy x \<or> x = self \<or> the x \<in> set (snd s) then mount_discovered init self xs s
      else mount_discovered init self xs (mount init (''remote-'' @ the x) (the x) s))"

definition mount_remote_sources ::
  "(string \<Rightarrow> bool result) \<Rightarrow> json dict \<Rightarrow> string option list \<Rightarrow> string option \<Rightarrow> jbod \<Rightarrow> unit result \<times> jbod" where
  "mount_remote_sources init config my_devices self j =
     (case source_cfgs config of
       Inl e \<Rightarrow> (Inl e, j)
     | Inr cfgs \<Rightarrow>
         (case mount_configured init cfgs (j, []) of
           (Inl e, s) \<Rightarrow> (Inl e, fst s)
         | (Inr _, s) \<Rightarrow>
             (case section_of ''p2p'' config of
               Inl e \<Rightarrow> (Inl e, fst s)
             | Inr p2p \<Rightarrow>
                 if json_truthy (get_or (JBool True) ''auto_mount_devices'' p2p) \<and> my_devices \<noteq> []
                 then (Inr (), fst (mount_discovered init self my_devices s))
                 else (Inr (), fst s))))"

text \<open>The devices that are found and can be mounted.\<close>

definition mountable :: "(string \<Rightarrow> bool result) \<Rightarrow> string option \<Rightarrow> string option list \<Rightarrow> string set" where
  "mountable init self ds = {d. Some d \<in> set ds \<and> d \<noteq> [] \<and> Some d \<noteq> self \<and> (\<exists>a. init d = Inr a)}"

abbreviation own_sources :: "jbod \<Rightarrow> source list" where
  "own_sources j \<equiv> filter (\<lambda>s. \<not> prefix ''remote-'' (src_id s)) (sources j)"

lemma mount_effect:
  "snd (mount init sid d s) = (if \<exists>a. init d = Inr a then d # snd s else snd s)"
  "map_of (remotes (fst (mount init sid d s))) =
    (case init d of Inl e \<Rightarrow> map_of (remotes (fst s)) | Inr a \<Rightarrow> (map_of (remotes (fst s)))(d \<mapsto> a))"
  "prefix ''remote-'' sid \<Longrightarrow> own_sources (fst (mount init sid d s)) = own_sources (fst s)"
  by (cases "init d"; auto simp: mount_def register_remote_device_def add_source_def remote_entry_def
      intro!: filter_cong)+

lemma discovered_effect:
  "set (snd (mount_discovered init self ds s)) = set (snd s) \<union> mountable init self ds \<and>
   own_sources (fst (mount_discovered init self ds s)) = own_sources (fst s) \<and>
   map_of (remotes (fst (mount_discovered init self ds s))) d =
    (if d \<in> mountable init self ds - set (snd s) then (case init d of Inl e \<Rightarrow> None | Inr a \<Rightarrow> Some a)
     else map_of (remotes (fst s)) d)"
proof (induction ds arbitrary: s)
  case Nil
  then show ?case by (simp add: mountable_def)
next
  case (Cons x ds)
  let ?s = "if \<not> truthy x \<or> x = self \<or> the x \<in> set (snd s) then s else mount init (''remote-'' @ the x) (the x) s"
  have r: "mount_discovered init self (x # ds) s = mount_discovered init self ds ?s" by simp
  have "set (snd ?s) \<union> mountable init self ds = set (snd s) \<union> mountable init self (x # ds)"
    by (cases x) (auto simp: mountable_def truthy_def mount_effect)
  moreover have "own_sources (fst ?s) = own_sources (fst s)" by (simp add: mount_effect)
  moreover have "(if d \<in> mountable init self ds - set (snd ?s) then (case init d of Inl e \<Rightarrow> None | Inr a \<Rightarrow> Some a)
     else map_of (remotes (fst ?s)) d) =
    (if d \<in> mountable init self (x # ds) - set (snd s) then (case init d of Inl e \<Rightarrow> None | Inr a \<Rightarrow> Some a)
     else map_of (remotes (fst s)) d)"
    by (cases x; cases "init d") (auto simp: mountable_def truthy_def mount_effect split: sum.splits)
  ultimately show ?case unfolding r using Cons.IH [of ?s] by simp
qed

text \<open>Discovery registers, once and with its state, every other device of the account that can
  be mounted and was not mounted from the configuration, never the device itself, and leaves
  alone the sources that it did not name.\<close>

lemma discovery_mounts_other_devices:
  "map_of (remotes (fst (mount_discovered init self ds (j, seen)))) d =
      (if d \<in> mountable init self ds - set seen then (case init d of Inl e \<Rightarrow> None | Inr a \<Rightarrow> Some a)
       else map_of (remotes j) d) \<and>
   own_sources (fst (mount_discovered init self ds (j, seen))) = own_sources j \<and>
   set (snd (mount_discovered init self ds (j, seen))) = set seen \<union> mountable init self ds"
  by (simp add: discovered_effect)

section \<open>Starting the daemon\<close>

text \<open>
  \<open>startup_v2\<close> as a function of what its steps return: which services it leaves running, and
  which its cleanup stops, in this order. \<open>Session\<close> and \<open>Store\<close> are the client of the server
  and the database, \<open>Recovery\<close> the loop that goes online later.
\<close>

datatype service = Session | Store | Recovery | Sync | Heartbeat | P2P | Relay | Replication

datatype ending = Fails_with exn | Serves "service list" "service list"

record startup_env =
  su_fs :: file_system
  su_core :: "unit result"
  su_core_again :: "unit result"
  su_stored :: bool
  su_token :: "unit result"
  su_key_there :: bool
  su_restore :: "unit result"
  su_restore_again :: "unit result"
  su_backup :: "unit result"
  su_register :: "string option result"
  su_hosting :: "unit result"
  su_mount :: "unit result"
  su_reconcile :: "bool result"
  su_initial :: "unit result"
  su_p2p :: "unit result"

definition config_section :: "string \<Rightarrow> json dict \<Rightarrow> json dict" where
  "config_section k config = (case as_obj (get k config) of None \<Rightarrow> [] | Some d \<Rightarrow> d)"

definition server_url_set :: "json dict \<Rightarrow> bool" where
  "server_url_set config \<longleftrightarrow> json_truthy (get ''url'' (config_section ''server'' config))"

definition p2p_enabled :: "json dict \<Rightarrow> bool" where
  "p2p_enabled config \<longleftrightarrow> json_truthy (get_or (JBool False) ''enabled'' (config_section ''p2p'' config))"

definition relay_enabled :: "json dict \<Rightarrow> bool" where
  "relay_enabled config \<longleftrightarrow> json_truthy (get_or (JBool True) ''relay_enabled'' (config_section ''p2p'' config))"

text \<open>The first synchronization: the exit of the process, or going on with the local data. A wrong
  key is replaced by the one of the server and the volume built again.\<close>

definition sync_at_start :: "startup_env \<Rightarrow> unit result" where
  "sync_at_start env =
     (case (case su_reconcile env of Inl e \<Rightarrow> Inl e | Inr done \<Rightarrow> if done then Inr () else su_initial env) of
       Inr _ \<Rightarrow> Inr ()
     | Inl e \<Rightarrow>
         if e \<noteq> KeyMismatchError then Inr ()
         else (case su_restore_again env of
             Inl _ \<Rightarrow> Inr ()
           | Inr _ \<Rightarrow> if su_core_again env = Inl SystemExit then Inl SystemExit else Inr ()))"

definition services_online :: "json dict \<Rightarrow> bool \<Rightarrow> bool \<Rightarrow> ending" where
  "services_online config replication has_device =
     (let p2p = (if p2p_enabled config then [P2P] else []);
          relay = (if p2p_enabled config \<and> relay_enabled config \<and> has_device then [Relay] else []);
          repl = (if replication then [Replication] else [])
      in Serves ([Session, Store] @ p2p @ relay @ [Heartbeat, Sync] @ repl)
           (repl @ [Sync, Heartbeat] @ relay @ p2p @ [Session, Store]))"

definition startup_online :: "startup_env \<Rightarrow> json dict \<Rightarrow> ending" where
  "startup_online env config =
     (case (if json_truthy (get ''key_file'' config) then su_backup env else Inr ()) of
       Inl e \<Rightarrow> Fails_with e
     | Inr _ \<Rightarrow>
         (case su_register env of
           Inl e \<Rightarrow> if e = DeviceRegistrationError then Serves [Session, Store] [Session, Store] else Fails_with e
         | Inr device \<Rightarrow>
             (case section_of ''replication'' config of
               Inl e \<Rightarrow> Fails_with e
             | Inr repl \<Rightarrow>
                 (case (su_hosting env, su_mount env, sync_at_start env) of
                   (Inl e, _, _) \<Rightarrow> Fails_with e
                 | (Inr _, Inl e, _) \<Rightarrow> Fails_with e
                 | (Inr _, Inr _, Inl e) \<Rightarrow> Fails_with e
                 | (Inr _, Inr _, Inr _) \<Rightarrow>
                     (case (if p2p_enabled config then su_p2p env else Inr ()) of
                       Inl e \<Rightarrow> Fails_with e
                     | Inr _ \<Rightarrow> services_online config (json_truthy (get_or (JBool True) ''enabled'' repl))
                         (truthy device))))))"

definition startup_v2 :: "startup_env \<Rightarrow> json dict \<Rightarrow> ending" where
  "startup_v2 env config =
     (case validate (su_fs env) (JObj config) of
       Inl e \<Rightarrow> Fails_with e
     | Inr errors \<Rightarrow>
         if errors \<noteq> [] then Fails_with SystemExit
         else if \<not> server_url_set config then
           (case su_core env of Inl _ \<Rightarrow> Fails_with SystemExit | Inr _ \<Rightarrow> Serves [Store] [Store])
         else (let offline = (\<not> su_stored env \<or> su_token env \<noteq> Inr ())
           in case (if \<not> offline \<and> json_truthy (get ''key_file'' config) \<and> \<not> su_key_there env
                    then su_restore env else Inr ()) of
               Inl e \<Rightarrow> Fails_with e
             | Inr _ \<Rightarrow>
                 (case su_core env of
                   Inl _ \<Rightarrow> Fails_with SystemExit
                 | Inr _ \<Rightarrow>
                     if offline then Serves [Session, Store, Recovery]
                       ([Recovery, Sync, Heartbeat] @ (if p2p_enabled config then [P2P] else []) @ [Session, Store])
                     else startup_online env config)))"

text \<open>What a running service may have started: the recovery loop brings up the services.\<close>

definition may_run :: "json dict \<Rightarrow> service list \<Rightarrow> service set" where
  "may_run config started = set started \<union>
     (if Recovery \<in> set started then {Sync, Heartbeat} \<union> (if p2p_enabled config then {P2P} else {}) else {})"

text \<open>C39: However a start goes, the cleanup of a daemon that serves stops everything that may
  run, each service once; the database is closed last, and a loop that brings up services is
  stopped before any of them.\<close>

theorem cleanup_stops_everything:
  assumes "startup_v2 env config = Serves started cleanup"
  shows "may_run config started \<subseteq> set cleanup \<and> distinct cleanup \<and> last cleanup = Store \<and>
    (Recovery \<in> set started \<longrightarrow> hd cleanup = Recovery)"
  using assms
  by (auto simp: startup_v2_def startup_online_def services_online_def may_run_def Let_def
      split: sum.splits if_splits)

definition v2_config :: "json dict" where
  "v2_config = [(''version'', JInt 2), (''metadata_db'', JStr ''/m''),
     (''sources'', JArr [dir_cfg ''s'' ''/d'']),
     (''server'', JObj [(''url'', JStr ''https://h''), (''device_name'', JStr ''n'')]),
     (''sync'', JObj [(''interval_seconds'', JInt 30), (''conflict_strategy'', JStr ''copy'')]),
     (''p2p'', JObj [(''port'', JInt 9090), (''enabled'', JBool True)])]"

definition calm_start :: startup_env where
  "calm_start = \<lparr>su_fs = \<lparr>exists_path = \<lambda>p. True, has_dir = \<lambda>p. True\<rparr>, su_core = Inr (), su_core_again = Inr (),
     su_stored = True, su_token = Inr (), su_key_there = True, su_restore = Inr (), su_restore_again = Inr (), su_backup = Inr (),
     su_register = Inr (Some ''d''), su_hosting = Inr (), su_mount = Inr (),
     su_reconcile = Inr False, su_initial = Inr (), su_p2p = Inr ()\<rparr>"

lemma calm_start_serves:
  "startup_v2 calm_start v2_config =
    Serves [Session, Store, P2P, Relay, Heartbeat, Sync, Replication] [Replication, Sync, Heartbeat, Relay, P2P, Session, Store]"
  by code_simp

theorem cleanup_stops_everything_witness:
  "may_run v2_config [Session, Store, P2P, Relay, Heartbeat, Sync, Replication] \<subseteq>
     set [Replication, Sync, Heartbeat, Relay, P2P, Session, Store]"
  using cleanup_stops_everything [OF calm_start_serves] by simp

text \<open>A synchronization that fails, other than by a wrong key, changes nothing in what is started.\<close>

lemma sync_failure_tolerated:
  assumes "e \<noteq> KeyMismatchError"
  shows "startup_v2 (env\<lparr>su_reconcile := Inl e\<rparr>) config = startup_v2 (env\<lparr>su_reconcile := Inr True\<rparr>) config"
proof -
  let ?a = "env\<lparr>su_reconcile := Inl e\<rparr>" and ?b = "env\<lparr>su_reconcile := Inr True\<rparr>"
  have same: "su_fs ?a = su_fs ?b" "su_core ?a = su_core ?b" "su_stored ?a = su_stored ?b" "su_token ?a = su_token ?b" "su_key_there ?a = su_key_there ?b" "su_restore ?a = su_restore ?b" "su_backup ?a = su_backup ?b" "su_register ?a = su_register ?b" "su_hosting ?a = su_hosting ?b" "su_mount ?a = su_mount ?b" "su_p2p ?a = su_p2p ?b"
    by simp_all
  have sync: "sync_at_start ?a = sync_at_start ?b" using assms by (simp add: sync_at_start_def)
  show ?thesis unfolding startup_v2_def startup_online_def same sync by (rule refl)
qed

text \<open>
  With a token that is still valid and a server that cannot be reached, the question for the
  key backup raises and the daemon does not start, although it would have started offline
  without the token.
\<close>

lemma unreachable_server_aborts_start:
  "startup_v2 (calm_start\<lparr>su_backup := Inl NetworkError\<rparr>) (AList.update ''key_file'' (JStr ''/k'') v2_config) =
     Fails_with NetworkError"
  "startup_v2 (calm_start\<lparr>su_backup := Inl NetworkError, su_token := Inl NetworkError\<rparr>)
     (AList.update ''key_file'' (JStr ''/k'') v2_config) =
     Serves [Session, Store, Recovery] [Recovery, Sync, Heartbeat, P2P, Session, Store]"
  by code_simp+

text \<open>
  The database is encrypted under a key derived from the master key. If it cannot be opened with
  the key that the server has, the assembly exits the process, and the start with it.
\<close>

lemma unopened_store_exits:
  assumes "key_or_problem ce config = Inr (Some k)" and "source_cfgs config = Inr cfgs"
    and "source_problems ce 0 cfgs = Inr ps" and "open_store ce config k = Inl e"
  shows "build_core ce config = Inl SystemExit"
  using assms by (simp add: build_core_def)

lemma restored_key_exits:
  "startup_v2 (calm_start\<lparr>su_initial := Inl KeyMismatchError, su_core_again := Inl SystemExit\<rparr>) v2_config =
     Fails_with SystemExit"
  by code_simp

end
