(* ===== verification/Commands.thy ===== *)
theory Commands
  imports Sync_Client
begin

text \<open>
  The one-shot commands of \<^verbatim>\<open>stardustlib/cli/commands.py\<close> on the volume and the sync client:
  paths as typed are brought into canonical form, exceptions become exit codes, and a change
  is uploaded at once if the session is online. Output is left out, the files of the user are
  a map from paths to contents.
\<close>

section \<open>Virtual paths\<close>

text \<open>One pass of \<open>s.replace("//", "/")\<close>.\<close>

fun halve_slashes :: "string \<Rightarrow> string" where
  "halve_slashes (a # b # s) =
     (if a = CHR ''/'' \<and> b = CHR ''/'' then CHR ''/'' # halve_slashes s else a # halve_slashes (b # s))"
| "halve_slashes s = s"

lemma halve_length: "length (halve_slashes s) \<le> length s"
  by (induction s rule: halve_slashes.induct) auto

lemma halve_shorter: "sublist ''//'' s \<Longrightarrow> length (halve_slashes s) < length s"
proof (induction s rule: halve_slashes.induct)
  case (1 a b s)
  show ?case
  proof (cases "a = CHR ''/'' \<and> b = CHR ''/''")
    case True
    then show ?thesis using halve_length [of s] by simp
  next
    case False
    then have "sublist ''//'' (b # s)" using "1.prems" by (auto simp: sublist_Cons_right)
    with False "1.IH"(2) show ?thesis by auto
  qed
qed (auto dest: sublist_length_le)

function collapse_slashes :: "string \<Rightarrow> string" where
  "collapse_slashes s = (if sublist ''//'' s then collapse_slashes (halve_slashes s) else s)"
  by pat_completeness auto

termination
  by (relation "measure length") (auto intro: halve_shorter)

declare collapse_slashes.simps [simp del]

definition vpath :: "string option \<Rightarrow> string" where
  "vpath path =
     (if \<not> truthy path then ''/''
      else (let s = py_strip (replace_char CHR 0x5C CHR ''/'' (the path)) in
        if s \<in> {[], ''.'', ''./''} then ''/''
        else (let s1 = (if prefix ''/'' s then s else CHR ''/'' # s); s2 = collapse_slashes s1
          in if 1 < length s2 then rstrip CHR ''/'' s2 else s2)))"

text \<open>A canonical path is the root, or a slash before each of its non-empty parts.\<close>

definition canonical :: "string \<Rightarrow> bool" where
  "canonical p \<longleftrightarrow> prefix ''/'' p \<and> \<not> sublist ''//'' p \<and> (p = ''/'' \<or> \<not> suffix ''/'' p) \<and> CHR 0x5C \<notin> set p"

lemma halve_keeps: "set (halve_slashes s) \<subseteq> set s" "prefix ''/'' s \<Longrightarrow> prefix ''/'' (halve_slashes s)"
  by (induction s rule: halve_slashes.induct) auto

lemma collapse_props:
  "\<not> sublist ''//'' (collapse_slashes s)" "set (collapse_slashes s) \<subseteq> set s"
  "prefix ''/'' s \<Longrightarrow> prefix ''/'' (collapse_slashes s)"
proof (induction s rule: collapse_slashes.induct)
  case (1 s)
  { case 1 then show ?case using "1.IH"(1) by (subst collapse_slashes.simps) auto }
  { case 2 then show ?case using "1.IH"(2) halve_keeps(1) [of s] by (subst collapse_slashes.simps) auto }
  { case 3 then show ?case using "1.IH"(3) halve_keeps(2) [of s] by (subst collapse_slashes.simps) auto }
qed

definition canonical_tail :: "string \<Rightarrow> string \<Rightarrow> bool" where
  "canonical_tail t s \<longleftrightarrow> prefix ''/'' t \<and> \<not> sublist ''//'' t \<and> \<not> suffix ''/'' t"

lemma rstrip_one:
  assumes "\<not> sublist ''//'' s" and "prefix ''/'' s" and "1 < length s"
  shows "canonical_tail (rstrip CHR ''/'' s) s"
proof (cases s rule: rev_cases)
  case Nil
  with assms(3) show ?thesis by simp
next
  case (snoc t x)
  show ?thesis
  proof (cases "x = CHR ''/''")
    case False
    then have "\<not> suffix ''/'' s" using snoc by (simp add: suffix_def)
    then show ?thesis using assms by (simp add: rstrip_plain canonical_tail_def)
  next
    case True
    have t: "t \<noteq> []" using snoc assms(3) by auto
    have "\<not> suffix ''/'' t"
    proof
      assume "suffix ''/'' t"
      then have "suffix ''//'' s" using snoc True by (auto simp: suffix_def)
      with assms(1) show False using suffix_imp_sublist by blast
    qed
    moreover have "prefix ''/'' t" using assms(2) snoc t by (cases t) auto
    moreover have "\<not> sublist ''//'' t" using assms(1) snoc sublist_append_rightI [of t "[x]"] sublist_order.order.trans by blast
    ultimately show ?thesis using snoc True by (simp add: rstrip_snoc rstrip_plain canonical_tail_def)
  qed
qed

lemma vpath_canonical_form: "canonical (vpath path)"
proof -
  let ?s = "py_strip (replace_char CHR 0x5C CHR ''/'' (the path))"
  let ?s1 = "if prefix ''/'' ?s then ?s else CHR ''/'' # ?s"
  let ?s2 = "collapse_slashes ?s1"
  have root: "canonical ''/''" by (simp add: canonical_def sublist_def)
  have "set (py_strip x) \<subseteq> set x" for x by (auto simp: py_strip_def dest!: set_dropWhileD)
  moreover have "CHR 0x5C \<notin> set (replace_char CHR 0x5C CHR ''/'' x)" for x by (auto simp: replace_char_def)
  ultimately have "CHR 0x5C \<notin> set ?s" by blast
  then have "CHR 0x5C \<notin> set ?s1" by simp
  then have b: "CHR 0x5C \<notin> set ?s2" using collapse_props(2) [of ?s1] by blast
  have p: "prefix ''/'' ?s2" by (rule collapse_props(3)) simp
  have n: "\<not> sublist ''//'' ?s2" by (rule collapse_props(1))
  have "canonical (if 1 < length ?s2 then rstrip CHR ''/'' ?s2 else ?s2)"
  proof (cases "1 < length ?s2")
    case True
    have "set (rstrip CHR ''/'' ?s2) \<subseteq> set ?s2" by (auto simp: rstrip_def dest!: set_dropWhileD)
    with True b rstrip_one [OF n p True] show ?thesis by (auto simp: canonical_def canonical_tail_def)
  next
    case False
    then have "?s2 = ''/''" using p by (auto simp: prefix_def)
    then show ?thesis using root by simp
  qed
  then show ?thesis using root by (simp add: vpath_def Let_def)
qed

text \<open>Whatever path is typed, the command works on a canonical one; and a path that is
  canonical already, without white space around it, is taken as it is.\<close>

lemma vpath_canonical:
  "canonical (vpath path) \<and> (canonical s \<and> py_strip s = s \<longrightarrow> vpath (Some s) = s)"
proof -
  have "vpath (Some s) = s" if "canonical s" "py_strip s = s"
  proof -
    have r: "replace_char CHR 0x5C CHR ''/'' s = s"
      using that(1) by (auto simp: canonical_def replace_char_def intro: map_idI)
    have c: "collapse_slashes s = s" using that(1) by (subst collapse_slashes.simps) (simp add: canonical_def)
    have n: "s \<notin> {[], ''.'', ''./''}" "prefix ''/'' s" using that(1) by (auto simp: canonical_def prefix_def)
    have t: "1 < length s \<Longrightarrow> rstrip CHR ''/'' s = s"
      using that(1) by (auto simp: canonical_def intro: rstrip_plain)
    show ?thesis using that(2) n t by (auto simp: vpath_def truthy_def r c Let_def)
  qed
  then show ?thesis using vpath_canonical_form by blast
qed

lemma vpath_examples:
  "vpath (Some ''a/b/'') = ''/a/b''" "vpath (Some ''//a///b'') = ''/a/b''" "vpath (Some '' . '') = ''/''" "vpath None = ''/''"
  by code_simp+

section \<open>Commands\<close>

text \<open>
  A command returns its exit code, or the exception that it lets through (\<open>Inl\<close>), and the new
  state. \<open>online\<close> says whether the session has a sync client, \<open>disk\<close> holds the files of the
  user, \<open>writable\<close> says which of them can be written.
\<close>

type_synonym user_disk = "string \<rightharpoonup> bytes"

definition upload_if_online :: "sync_env \<Rightarrow> bool \<Rightarrow> sync \<Rightarrow> sync" where
  "upload_if_online e online s = (if online then upload_metadata e s else s)"

text \<open>The handlers of \<open>FileNotFoundError\<close> and then \<open>OSError\<close> that most commands have.\<close>

definition not_found_or_io :: "exn \<Rightarrow> int result" where
  "not_found_or_io x = (if x = FileNotFoundError then Inr 3 else if is_os_error x then Inr 4 else Inl x)"

definition finish_command :: "sync_env \<Rightarrow> bool \<Rightarrow> sync \<Rightarrow> unit result \<times> jbod \<Rightarrow> int result \<times> sync" where
  "finish_command e online s r =
     (case r of
       (Inl x, j) \<Rightarrow> (not_found_or_io x, s\<lparr>vol := j\<rparr>)
     | (Inr _, j) \<Rightarrow> (Inr 0, upload_if_online e online (s\<lparr>vol := j\<rparr>)))"

definition put_target :: "string \<Rightarrow> string option \<Rightarrow> string" where
  "put_target local remote = (if truthy remote then vpath remote else ''/'' @ basename local)"

definition cmd_put ::
  "sync_env \<Rightarrow> bool \<Rightarrow> user_disk \<Rightarrow> string \<Rightarrow> string option \<Rightarrow> sync \<Rightarrow> int result \<times> sync" where
  "cmd_put e online disk local remote s =
     (case disk local of
       None \<Rightarrow> (Inr 3, s)
     | Some data \<Rightarrow>
         (case write_file (je e) (put_target local remote) data (vol s) of
           (Inl x, j) \<Rightarrow>
             (if x = InsufficientStorageError then Inr 5 else if is_os_error x then Inr 4 else Inl x, s\<lparr>vol := j\<rparr>)
         | (Inr _, j) \<Rightarrow> (Inr 0, upload_if_online e online (s\<lparr>vol := j\<rparr>))))"

definition get_target :: "string \<Rightarrow> string option \<Rightarrow> string" where
  "get_target remote local = (if truthy local then the local else basename (rstrip CHR ''/'' (vpath (Some remote))))"

definition cmd_get ::
  "sync_env \<Rightarrow> (string \<Rightarrow> bool) \<Rightarrow> user_disk \<Rightarrow> string \<Rightarrow> string option \<Rightarrow> sync \<Rightarrow>
     int result \<times> user_disk \<times> sync" where
  "cmd_get e writable disk remote local s =
     (case read_file (je e) (vpath (Some remote)) (vol s) of
       (Inl x, j) \<Rightarrow> (not_found_or_io x, disk, s\<lparr>vol := j\<rparr>)
     | (Inr data, j) \<Rightarrow>
         if writable (get_target remote local)
         then (Inr 0, disk(get_target remote local \<mapsto> data), s\<lparr>vol := j\<rparr>)
         else (Inr 3, disk, s\<lparr>vol := j\<rparr>))"

definition cmd_rm :: "sync_env \<Rightarrow> bool \<Rightarrow> nat \<Rightarrow> bool \<Rightarrow> string \<Rightarrow> sync \<Rightarrow> int result \<times> sync" where
  "cmd_rm e online depth recursive path s =
     finish_command e online s
       (if recursive then delete_directory depth (je e) (vpath (Some path)) (vol s)
        else delete_file (je e) (vpath (Some path)) (vol s))"

definition cmd_mkdir :: "sync_env \<Rightarrow> bool \<Rightarrow> string \<Rightarrow> sync \<Rightarrow> int result \<times> sync" where
  "cmd_mkdir e online path s =
     (Inr 0, upload_if_online e online (s\<lparr>vol := create_directory (je e) (vpath (Some path)) (vol s)\<rparr>))"

definition cmd_mv :: "sync_env \<Rightarrow> bool \<Rightarrow> string \<Rightarrow> string \<Rightarrow> sync \<Rightarrow> int result \<times> sync" where
  "cmd_mv e online src dst s =
     finish_command e online s
       (if file_exists (vpath (Some src)) (vol s) then move_file (vpath (Some src)) (vpath (Some dst)) (vol s)
        else move_directory (je e) (vpath (Some src)) (vpath (Some dst)) (vol s))"

definition cmd_cp :: "sync_env \<Rightarrow> bool \<Rightarrow> string \<Rightarrow> string \<Rightarrow> sync \<Rightarrow> int result \<times> sync" where
  "cmd_cp e online src dst s =
     finish_command e online s (copy_file (je e) (vpath (Some src)) (vpath (Some dst)) (vol s))"

text \<open>The columns of a listing: directory or not, size, owner, name.\<close>

definition short_id :: "string option \<Rightarrow> string" where
  "short_id d = (if truthy d then take 8 (the d) else ''-'')"

definition join_name :: "string \<Rightarrow> string \<Rightarrow> string" where
  "join_name base name = rstrip CHR ''/'' base @ ''/'' @ name"

definition owner_column :: "string option \<Rightarrow> string \<Rightarrow> jbod \<Rightarrow> entry_info \<Rightarrow> string" where
  "owner_column self base j en =
     (if ei_is_directory en then []
      else (let d = (case lookup (join_name base (ei_name en)) (md j) of None \<Rightarrow> None | Some m \<Rightarrow> device_id m)
        in if truthy self \<and> d = self then ''this'' else short_id d))"

definition cmd_ls :: "string option \<Rightarrow> string option \<Rightarrow> jbod \<Rightarrow> (bool \<times> int \<times> string \<times> string) list" where
  "cmd_ls self path j =
     map (\<lambda>en. (ei_is_directory en, ei_file_size en, owner_column self (vpath path) j en, ei_name en))
       (list_directory (vpath path) j)"

definition cmd_df :: "jenv \<Rightarrow> jbod \<Rightarrow> (int \<times> int \<times> int) result \<times> jbod" where
  "cmd_df env j =
     (case total_space env j of
       (Inl x, j1) \<Rightarrow> (Inl x, j1)
     | (Inr capacity, j1) \<Rightarrow>
         (case available_space env j1 of
           (Inl x, j2) \<Rightarrow> (Inl x, j2)
         | (Inr free, j2) \<Rightarrow> (Inr (capacity, capacity - free, free), j2)))"

definition cmd_status :: "jbod \<Rightarrow> nat \<times> nat" where
  "cmd_status j = (length (get_pending_files (md j)), length (list_directory ''/'' j))"

section \<open>Sessions and dispatch\<close>

record device_info =
  di_id :: "string option"
  di_name :: "string option"
  di_os :: "string option"
  di_online :: bool

definition identify_self :: "device_info list \<Rightarrow> string \<Rightarrow> string \<Rightarrow> string option" where
  "identify_self ds nm os_info =
     (case find (\<lambda>d. di_name d = Some nm \<and> di_os d = Some os_info) ds of
       None \<Rightarrow> None | Some d \<Rightarrow> di_id d)"

definition cmd_devices :: "bool \<Rightarrow> device_info list option \<Rightarrow> string option \<Rightarrow>
    int \<times> (string \<times> string option \<times> bool \<times> bool) list" where
  "cmd_devices online ds self =
     (case ds of
       Some devices \<Rightarrow> if online
         then (0, map (\<lambda>d. (short_id (di_id d), di_name d, di_online d, di_id d = self)) devices) else (1, [])
     | None \<Rightarrow> (1, []))"

text \<open>Command, whether it needs the server, whether it synchronizes first.\<close>

definition handlers :: "(string \<times> bool \<times> bool) list" where
  "handlers =
     [(''df'', False, False), (''ls'', False, False), (''status'', False, False), (''devices'', True, False),
      (''get'', True, True), (''put'', True, True), (''rm'', True, True), (''mkdir'', True, True), (''mv'', True, True),
      (''cp'', True, True), (''backup'', True, True), (''restore'', True, True), (''heal'', True, True)]"

definition auth_handlers :: "string list" where
  "auth_handlers = [''login'', ''logout'']"

definition is_cli_command :: "string \<Rightarrow> bool" where
  "is_cli_command c \<longleftrightarrow> c \<in> set (map fst handlers) \<or> c \<in> set auth_handlers"

section \<open>Putting and getting\<close>

text \<open>The server takes or refuses the upload, but no other device was faster and nothing else
  happens meanwhile.\<close>

definition quiet_upload :: "sync \<Rightarrow> bool" where
  "quiet_upload s \<longleftrightarrow> (case script s of [] \<Rightarrow> True | (ops, a) # _ \<Rightarrow> ops = [] \<and> (\<forall>b. a \<noteq> Resp 409 b))"

text \<open>Two stores that have the same live files, up to the sync status.\<close>

definition same_files :: "mstore \<Rightarrow> mstore \<Rightarrow> bool" where
  "same_files m m' \<longleftrightarrow> (\<forall>vp. map_option (\<lambda>r. r\<lparr>sync_status := []\<rparr>) (lookup vp m') =
     map_option (\<lambda>r. r\<lparr>sync_status := []\<rparr>) (lookup vp m))"

lemma same_files_refl [simp]: "same_files m m"
  by (simp add: same_files_def)

lemma same_files_trans: "same_files a b \<Longrightarrow> same_files b c \<Longrightarrow> same_files a c"
  by (simp add: same_files_def)

lemma find_relabelled:
  "find (\<lambda>r. virtual_path r = vp \<and> \<not> deleted r) (map (\<lambda>r. if virtual_path r \<in> V then r\<lparr>sync_status := st\<rparr> else r) rs) =
   map_option (\<lambda>r. if virtual_path r \<in> V then r\<lparr>sync_status := st\<rparr> else r) (find (\<lambda>r. virtual_path r = vp \<and> \<not> deleted r) rs)"
  for rs :: "file_row list"
  by (induction rs) auto

lemma same_files_synced: "same_files (store s) (store (mark_synced fs s))"
proof -
  have "map_option (\<lambda>r. r\<lparr>sync_status := []\<rparr>) (lookup vp (store (mark_synced fs s))) =
      map_option (\<lambda>r. r\<lparr>sync_status := []\<rparr>) (lookup vp (store s))" for vp
    by (auto simp: lookup_def store_def mark_synced_def on_store_def set_md_def fold_sync_files find_relabelled
        option.map_comp comp_def meta_of_def intro!: option.map_cong split: if_splits)
  then show ?thesis by (simp add: same_files_def)
qed

lemma same_files_gc: "paths_distinct (store s) \<Longrightarrow> same_files (store s) (store (gc_tombstones e s))"
  using purge_removes_old_tombstones [of "store s"]
  by (simp add: same_files_def gc_tombstones_def on_store_def store_def set_md_def)

text \<open>What an upload leaves alone in the volume.\<close>

lemma vol_frames [simp]:
  "sources (vol (on_store f s)) = sources (vol s)" "dev (vol (on_store f s)) = dev (vol s)"
  "eng (vol (on_store f s)) = eng (vol s)"
  by (simp_all add: on_store_def set_md_def)

definition same_volume :: "sync \<Rightarrow> sync \<Rightarrow> bool" where
  "same_volume s t \<longleftrightarrow> sources (vol t) = sources (vol s) \<and> dev (vol t) = dev (vol s) \<and> eng (vol t) = eng (vol s) \<and>
     same_files (store s) (store t) \<and> (paths_distinct (store s) \<longrightarrow> paths_distinct (store t))"

lemma same_volume_trans: "same_volume a b \<Longrightarrow> same_volume b c \<Longrightarrow> same_volume a c"
  by (auto simp: same_volume_def intro: same_files_trans)

lemma distinct_synced [simp]: "paths_distinct (store (mark_synced fs s)) = paths_distinct (store s)"
proof -
  have "map virtual_path (files (store (mark_synced fs s))) = map virtual_path (files (store s))"
    by (simp add: store_def mark_synced_def on_store_def set_md_def fold_sync_files comp_def if_distrib cong: if_cong)
  then show ?thesis by (simp add: paths_distinct_def)
qed

lemma distinct_gc: "paths_distinct (store s) \<Longrightarrow> paths_distinct (store (gc_tombstones e s))"
  by (simp add: paths_distinct_def store_def gc_tombstones_def on_store_def set_md_def purge_expired_tombstones_def
      distinct_map_filter)

lemma same_volume_steps:
  "same_volume s (s\<lparr>script := r, sent := q\<rparr>)" "same_volume s (s\<lparr>failures := n\<rparr>)" "same_volume s (take_version b s)"
  "same_volume s (record_sync_success e s)" "same_volume s (count_failure s)" "same_volume s (mark_synced fs s)"
  "paths_distinct (store s) \<Longrightarrow> same_volume s (gc_tombstones e s)"
  using same_files_synced [of s fs] same_files_gc [of s e] distinct_gc [of s e] distinct_synced [of fs s]
  by (auto simp: same_volume_def take_version_def record_sync_success_def count_failure_def store_def mark_synced_def
      gc_tombstones_def split: option.split)

lemma ask_same_volume:
  assumes "quiet_upload s" and "ask q s = (a, s')"
  shows "same_volume s s' \<and> (\<forall>b. a \<noteq> Resp 409 b)"
proof (cases "script s")
  case Nil
  then show ?thesis using assms by (auto simp: ask_def same_volume_def store_def)
next
  case (Cons x rest)
  obtain ops a' where x: "x = (ops, a')" by (cases x)
  then have "on_store (fold ms_step []) s = s" by (simp add: on_store_def set_md_def)
  then show ?thesis
    using assms Cons x by (auto simp: ask_def quiet_upload_def same_volume_def store_def)
qed

lemma quiet_same_volume:
  assumes "quiet_upload s" and "paths_distinct (store s)"
  shows "same_volume s (upload_if_online e online s)"
proof -
  have refl: "same_volume s s" by (simp add: same_volume_def)
  let ?g = "gc_tombstones e s"
  have g: "same_volume s ?g" "quiet_upload ?g"
    using assms same_volume_steps(7) by (simp_all add: quiet_upload_def)
  have "same_volume ?g (upload_loop (Suc n) e ?g)" for n
  proof -
    obtain a s' where q: "ask (PutMetadata (Some (last_synced_version ?g)) (encrypt_blob e (sync_key ?g) (dump_db e (store ?g)))) ?g = (a, s')"
      by (metis surj_pair)
    note k = ask_same_volume [OF g(2) q]
    have sy: "same_volume s' (record_sync_success e (mark_synced fs (take_version b (s'\<lparr>failures := 0\<rparr>))))" for fs b
      by (rule same_volume_trans [OF same_volume_steps(2) same_volume_trans [OF same_volume_steps(3)
          same_volume_trans [OF same_volume_steps(6) same_volume_steps(4)]]])
    show ?thesis
      using k q sy same_volume_trans [of ?g s'] same_volume_steps(5)
      by (auto simp: Let_def same_volume_def split: answer.split)
  qed
  then have "same_volume ?g (upload_loop MAX_CAS_RETRIES e ?g)" by (simp add: MAX_CAS_RETRIES_def numeral_eq_Suc)
  with g refl show ?thesis
    by (auto simp: upload_if_online_def upload_metadata_def intro: same_volume_trans)
qed

lemma stored_same_volume:
  assumes "stored (vol s) vp i p enc" and "same_volume s t"
  shows "stored (vol t) vp i p enc"
proof -
  obtain m where m: "lookup vp (md (vol s)) = Some m" "owned_here (vol s) m"
      "source_index (source_id m) (vol s) = Some i" "physical_path m = p" "i < length (sources (vol s))"
      "src_active (sources (vol s) ! i)" "content (sources (vol s) ! i) p = Some enc"
    using assms(1) by (auto simp: stored_def)
  have v: "sources (vol t) = sources (vol s)" "dev (vol t) = dev (vol s)" using assms(2) by (simp_all add: same_volume_def)
  have "map_option (\<lambda>r. r\<lparr>sync_status := []\<rparr>) (lookup vp (md (vol t))) = Some (m\<lparr>sync_status := []\<rparr>)"
    using assms(2) m(1) by (simp add: same_volume_def same_files_def store_def)
  then obtain m' where m': "lookup vp (md (vol t)) = Some m'" "m'\<lparr>sync_status := []\<rparr> = m\<lparr>sync_status := []\<rparr>" by auto
  then have "source_id m' = source_id m" "physical_path m' = physical_path m" "device_id m' = device_id m"
    by (metis file_meta.select_convs(2,3,8) file_meta.surjective file_meta.update_convs(9))+
  with m m'(1) v show ?thesis by (auto simp: stored_def owned_here_def source_index_def)
qed

text \<open>C10: A file that \<open>put\<close> reports as stored is delivered by \<open>get\<close> under the same remote name,
  byte for byte and with exit code 0, also after the upload of the metadata that follows the
  put, provided that no other device is faster.\<close>

theorem put_get_roundtrip:
  assumes "jbod_ok (vol s)" and "engine_ok (je e) (vol s)" and "dev (vol s) \<noteq> None"
    and "cmd_put e online disk local (Some remote) s = (Inr 0, s1)" and "remote \<noteq> []" and "quiet_upload s"
    and "fault_free (os (je e'))" and "writable f" and "f \<noteq> []"
  shows "\<exists>s2. cmd_get e' writable disk2 remote (Some f) s1 = (Inr 0, disk2(f := disk local), s2)"
proof -
  let ?r = "vpath (Some remote)"
  obtain data j where d: "disk local = Some data" and w: "write_file (je e) ?r data (vol s) = (Inr (), j)"
      and s1: "s1 = upload_if_online e online (s\<lparr>vol := j\<rparr>)"
    using assms(4,5) by (auto simp: cmd_put_def put_target_def truthy_def split: option.splits prod.splits sum.splits if_splits)
  obtain i p where st: "stored j ?r i p (sealed (je e) (vol s) data)" "jbod_ok j" "eng j = eng (vol s)"
    using write_stored [OF assms(1) w] assms(3) by auto
  have v: "same_volume (s\<lparr>vol := j\<rparr>) s1"
    unfolding s1 using assms(6) st(2) by (intro quiet_same_volume) (simp_all add: quiet_upload_def store_def jbod_ok_def)
  have st1: "stored (vol s1) ?r i p (sealed (je e) (vol s) data)"
    using stored_same_volume [OF _ v] st(1) by simp
  have ok1: "jbod_ok (vol s1)" and e1: "eng (vol s1) = eng (vol s)"
    using v st(2,3) by (simp_all add: same_volume_def jbod_ok_def store_def)
  have "read_file (je e') ?r (vol s1) = (Inr data, vol s1)"
    using read_stored [OF st1 ok1 assms(7)] decrypted_sealed [OF assms(2) e1] by simp
  then show ?thesis using assms(8,9) d
    by (simp add: cmd_get_def get_target_def truthy_def fun_upd_def)
qed

definition sample_session :: sync where
  "sample_session = sync_init sample_volume None None [([], Resp 500 (ok_body 1))]"

theorem put_get_roundtrip_witness:
  "\<exists>s2. cmd_get sample_sync_env (\<lambda>f. True) Map.empty ''a'' (Some ''/copy'')
     (snd (cmd_put sample_sync_env True [''/x'' \<mapsto> [1, 2]] ''/x'' (Some ''a'') sample_session)) =
     (Inr 0, Map.empty(''/copy'' := [''/x'' \<mapsto> [1, 2]] ''/x''), s2)"
proof -
  have p: "cmd_put sample_sync_env True [''/x'' \<mapsto> [1, 2]] ''/x'' (Some ''a'') sample_session =
      (Inr 0, snd (cmd_put sample_sync_env True [''/x'' \<mapsto> [1, 2]] ''/x'' (Some ''a'') sample_session))"
    by (rule run_eq) code_simp
  have v: "vol sample_session = sample_volume" "je sample_sync_env = sample_env"
    by (simp_all add: sample_session_def sync_init_def sample_sync_env_def)
  show ?thesis
    by (rule put_get_roundtrip [OF _ _ _ p])
      (use sample_ok sample_engine in \<open>simp_all add: v quiet_upload_def sample_session_def sync_init_def
        sample_volume_def jbod_init_def\<close>)
qed

text \<open>
  The commands promise an exit code for every failure, but only operating system errors are
  caught: moving onto a path whose tombstone is still there violates a constraint of the
  database, and the exception leaves the command.
\<close>

definition moved_volume :: jbod where
  "moved_volume = snd (delete_file sample_env ''/b'' (snd (write_file other_env ''/b'' [5] sample_full)))"

lemma mv_lets_exception_through:
  "fst (cmd_mv sample_sync_env False ''/a'' ''/b'' (sync_init moved_volume None None [])) = Inl SqlIntegrityError"
  by code_simp

end
