(* ===== verification/Convergence.thy ===== *)
theory Convergence
  imports Sync_Client
begin

text \<open>
  Two devices of one user and the server between them: one uploads its database, the other
  merges it and uploads the result, the first merges that. Both are free of unsynchronised
  changes, as they are after an upload; what they hold may differ in any other way.
\<close>

section \<open>What a device shows\<close>

text \<open>The rows of the uploaded database, tombstones included, as the merge reads them.\<close>

definition table :: "mstore \<Rightarrow> file_meta list" where
  "table m = map meta_of (files m)"

text \<open>What the users of a record see of it; the time of creation stays local.\<close>

definition data_of :: "file_row \<Rightarrow> string \<times> string \<times> int \<times> time \<times> int \<times> string option \<times> bool" where
  "data_of r = (source_id r, physical_path r, file_size r, modified_at r, version r, device_id r, deleted r)"

definition shown :: "mstore \<Rightarrow> string \<Rightarrow> (string \<times> string \<times> int \<times> time \<times> int \<times> string option \<times> bool) option" where
  "shown m p = (case row m p of None \<Rightarrow> None | Some r \<Rightarrow> if deleted r then None else Some (data_of r))"

text \<open>A version of a path is made once: records of the same version agree.\<close>

definition coherent :: "mstore \<Rightarrow> mstore \<Rightarrow> bool" where
  "coherent a b \<longleftrightarrow> (\<forall>p r s. row a p = Some r \<longrightarrow> row b p = Some s \<longrightarrow> version r = version s \<longrightarrow> data_of r = data_of s)"

section \<open>One merge\<close>

definition merged_with :: "mstore \<Rightarrow> mstore \<Rightarrow> string \<Rightarrow> file_row option" where
  "merged_with a b p = (case row a p of None \<Rightarrow> row b p | Some r \<Rightarrow> merged_row (meta_of r) (row b p))"

lemma table_paths: "map virtual_path (table m) = map virtual_path (files m)"
  by (simp add: table_def comp_def)

lemma find_table: "find (\<lambda>m. virtual_path m = p) (table a) = map_option meta_of (row a p)"
proof -
  have "find (\<lambda>m. virtual_path m = p) (map meta_of rs) = map_option meta_of (find (\<lambda>r. virtual_path r = p) rs)" for rs
    by (induction rs) auto
  then show ?thesis by (simp add: table_def row_def)
qed

lemma merge_table:
  assumes "paths_distinct a" and "no_pending (md j)"
  shows "row (md (fold (merge_record e) (table a) j)) p = merged_with a (md j) p"
proof -
  have "distinct (map virtual_path (table a))" using assms(1) by (simp add: table_paths paths_distinct_def)
  from merge_clean_fold [OF assms(2) this, of e p] show ?thesis
    by (simp add: find_table merged_with_def split: option.split)
qed

lemma fold_distinct: "paths_distinct (md j) \<Longrightarrow> paths_distinct (md (fold (merge_record e) ms j))"
  by (induction ms arbitrary: j) (auto intro: merge_distinct)

lemma fold_no_pending: "no_pending (md j) \<Longrightarrow> no_pending (md (fold (merge_record e) ms j))"
  by (induction ms arbitrary: j) (auto intro: merge_no_pending)

text \<open>The uploaded database opens with the shared key and is merged record by record.\<close>

lemma received_merge:
  assumes "aead (cr ea)" and "cr eb = cr ea" and "length (blob_iv ea) = 12" and "sync_key b = key"
    and "parse_db eb (dump_db ea x) = Some (table x)"
    and "merge_server_metadata eb (encrypt_blob ea key (dump_db ea x)) b = (rb, b')"
  shows "rb = Inr ()" and "vol b' = fold (merge_record eb) (table x) (vol b)"
  using assms(6) by (auto simp: uploaded_blob_merges [OF assms(1,3,2,4,5)])

section \<open>Convergence\<close>

lemma adopted_data [simp]: "data_of (adopt (meta_of r) s) = data_of r" "data_of (server_row (meta_of r)) = data_of r"
  "deleted (adopt (meta_of r) s) = deleted r" "deleted (server_row (meta_of r)) = deleted r"
  "version (adopt (meta_of r) s) = version r" "version (server_row (meta_of r)) = version r"
  by (simp_all add: data_of_def adopt_def server_row_def)

text \<open>The row of one path, after the merge there and the merge back.\<close>

lemma there_and_back:
  assumes b': "row b' p = merged_with a b p" and a': "row a' p = merged_with b' a p" and "coherent a b"
  shows "shown a' p = shown b' p"
    and "row a p = Some r \<Longrightarrow> \<not> deleted r \<Longrightarrow> \<exists>s. row b' p = Some s \<and> version r \<le> version s"
    and "row b p = Some r \<Longrightarrow> \<not> deleted r \<Longrightarrow> \<exists>s. row a' p = Some s \<and> version r \<le> version s"
    and "merged_with a' b' p = row b' p" and "merged_with b' a' p = row a' p"
proof -
  have data: "data_of x = data_of y \<and> deleted x = deleted y" if "row a p = Some x" "row b p = Some y" "version x = version y" for x y
    using assms(3) that by (force simp: coherent_def data_of_def)
  show "shown a' p = shown b' p"
  proof (cases "row a p")
    case None
    with a' b' show ?thesis by (cases "row b p") (simp_all add: merged_with_def merged_row_def shown_def)
  next
    case (Some x)
    show ?thesis
    proof (cases "row b p")
      case None
      with Some a' b' show ?thesis by (simp add: merged_with_def merged_row_def shown_def)
    next
      case (Some y)
      with \<open>row a p = Some x\<close> data [of x y] a' b' show ?thesis
        by (cases "version x" "version y" rule: linorder_cases) (simp_all add: merged_with_def merged_row_def shown_def)
    qed
  qed
  show "\<exists>s. row b' p = Some s \<and> version r \<le> version s" if "row a p = Some r" "\<not> deleted r"
    using that b' by (cases "row b p") (auto simp: merged_with_def merged_row_def)
  show "\<exists>s. row a' p = Some s \<and> version r \<le> version s" if "row b p = Some r" "\<not> deleted r"
    using that a' b' by (cases "row a p") (auto simp: merged_with_def merged_row_def)
  show "merged_with a' b' p = row b' p"
    using a' b' by (cases "row a p"; cases "row b p") (auto simp: merged_with_def merged_row_def)
  show "merged_with b' a' p = row a' p"
    using a' b' by (cases "row a p"; cases "row b p") (auto simp: merged_with_def merged_row_def)
qed

text \<open>C2: One round through the server makes two devices agree: after the second has merged the
  encrypted database of the first, and the first that of the second, both show the same live
  files with the same owner, place, size, time and version; of each live file the newer version
  was kept; and merging once more changes no row of either.\<close>

theorem devices_converge:
  assumes "aead (cr ea)" and "cr eb = cr ea" and "length (blob_iv ea) = 12" and "length (blob_iv eb) = 12"
    and "sync_key a = key" and "sync_key b = key"
    and "parse_db eb (dump_db ea (store a)) = Some (table (store a))"
    and "parse_db ea (dump_db eb (store b')) = Some (table (store b'))"
    and "paths_distinct (store a)" and "paths_distinct (store b)"
    and "no_pending (store a)" and "no_pending (store b)" and "coherent (store a) (store b)"
    and "merge_server_metadata eb (encrypt_blob ea key (dump_db ea (store a))) b = (rb, b')"
    and "merge_server_metadata ea (encrypt_blob eb key (dump_db eb (store b'))) a = (ra, a')"
  shows "ra = Inr () \<and> rb = Inr () \<and> shown (store a') = shown (store b') \<and>
    (\<forall>p r. row (store a) p = Some r \<and> \<not> deleted r \<longrightarrow> (\<exists>s. row (store b') p = Some s \<and> version r \<le> version s)) \<and>
    (\<forall>p r. row (store b) p = Some r \<and> \<not> deleted r \<longrightarrow> (\<exists>s. row (store a') p = Some s \<and> version r \<le> version s)) \<and>
    row (md (fold (merge_record eb) (table (store a')) (vol b'))) = row (store b') \<and>
    row (md (fold (merge_record ea) (table (store b')) (vol a'))) = row (store a')"
proof -
  have aeb: "aead (cr eb)" using assms(1,2) by simp
  note b' = received_merge [OF assms(1,2,3,6,7,14)]
  note a' = received_merge [OF aeb assms(2) [symmetric] assms(4,5,8,15)]
  have ok: "paths_distinct (store b')" "no_pending (store b')" "paths_distinct (store a')" "no_pending (store a')"
    using assms(9-12) a'(2) b'(2) fold_distinct fold_no_pending by (simp_all add: store_def)
  have rb: "row (store b') p = merged_with (store a) (store b) p" for p
    using merge_table [of "store a" "vol b" eb p] assms(9,12) b'(2) by (simp add: store_def)
  have ra: "row (store a') p = merged_with (store b') (store a) p" for p
    using merge_table [of "store b'" "vol a" ea p] assms(11) ok(1) a'(2) by (simp add: store_def)
  note x = there_and_back [OF rb ra assms(13)]
  have "shown (store a') = shown (store b')" using x(1) by (rule ext)
  moreover have "row (md (fold (merge_record eb) (table (store a')) (vol b'))) = row (store b')"
  proof
    fix p
    show "row (md (fold (merge_record eb) (table (store a')) (vol b'))) p = row (store b') p"
      using merge_table [OF ok(3), of "vol b'" eb p] ok(2) x(4) [of p] by (simp add: store_def)
  qed
  moreover have "row (md (fold (merge_record ea) (table (store b')) (vol a'))) = row (store a')"
  proof
    fix p
    show "row (md (fold (merge_record ea) (table (store b')) (vol a'))) p = row (store a') p"
      using merge_table [OF ok(1), of "vol a'" ea p] ok(4) x(5) [of p] by (simp add: store_def)
  qed
  ultimately show ?thesis
    by (intro conjI allI impI a'(1) b'(1)) (simp_all add: x(2,3))
qed

section \<open>An example\<close>

definition known_row :: "string \<Rightarrow> int \<Rightarrow> string \<Rightarrow> file_row" where
  "known_row p v d = server_row (edit_meta p v d)"

definition holding :: "file_row list \<Rightarrow> sync" where
  "holding rs = sync_init (sample_volume\<lparr>md := empty_store\<lparr>files := rs\<rparr>\<rparr>) (Some [1, 2]) None []"

definition first_device :: sync where
  "first_device = holding [known_row ''/f'' 2 ''x'']"

definition second_device :: sync where
  "second_device = holding [known_row ''/g'' 1 ''y'', known_row ''/f'' 1 ''y'']"

definition reads_table :: "sync \<Rightarrow> sync_env" where
  "reads_table s = sample_sync_env\<lparr>parse_db := \<lambda>b. Some (table (store s))\<rparr>"

definition second_merged :: sync where
  "second_merged = snd (merge_server_metadata (reads_table first_device)
     (encrypt_blob sample_sync_env (Some [1, 2]) (dump_db sample_sync_env (store first_device))) second_device)"

lemma holding_frames [simp]:
  "sync_key (holding rs) = Some [1, 2]" "store (holding rs) = empty_store\<lparr>files := rs\<rparr>"
  by (simp_all add: holding_def sync_init_def store_def)

lemma known_simps [simp]:
  "virtual_path (known_row p v d) = p" "version (known_row p v d) = v" "sync_status (known_row p v d) = ''synced''"
  by (simp_all add: known_row_def server_row_def edit_meta_def)

theorem devices_converge_witness:
  "shown (store (snd (merge_server_metadata (reads_table second_merged)
     (encrypt_blob (reads_table first_device) (Some [1, 2]) (dump_db (reads_table first_device) (store second_merged)))
     first_device))) = shown (store second_merged)"
proof -
  let ?ea = "reads_table second_merged" and ?eb = "reads_table first_device"
  have blob: "encrypt_blob ?ea (Some [1, 2]) x = encrypt_blob sample_sync_env (Some [1, 2]) x" for x
    by (simp add: reads_table_def encrypt_blob_def)
  have dump: "dump_db ?ea y = dump_db sample_sync_env y" for y by (simp add: reads_table_def)
  have b: "fst (merge_server_metadata ?eb
      (encrypt_blob ?ea (Some [1, 2]) (dump_db ?ea (store first_device))) second_device) = Inr ()"
    by code_simp
  have c: "fst (merge_server_metadata ?ea
      (encrypt_blob ?eb (Some [1, 2]) (dump_db ?eb (store second_merged))) first_device) = Inr ()"
    by code_simp
  have m: "merge_server_metadata ?eb (encrypt_blob ?ea (Some [1, 2]) (dump_db ?ea (store first_device))) second_device =
      (Inr (), second_merged)"
    using run_eq [OF b] by (simp only: blob dump second_merged_def [symmetric])
  show ?thesis
    by (rule devices_converge [THEN conjunct2, THEN conjunct2, THEN conjunct1, OF _ _ _ _ _ _ _ _ _ _ _ _ _ m run_eq [OF c]])
      (auto simp: reads_table_def sample_sync_env_def aead_toy first_device_def second_device_def empty_store_def
        paths_distinct_def no_pending_def coherent_def row_def known_row_def server_row_def edit_meta_def second_merged_def
        split: if_splits)
qed

end
