(* ===== verification/Cross_Device.thy ===== *)
theory Cross_Device
  imports Convergence Remote_Source
begin

text \<open>
  One file from the device that writes it to the device that reads it: the write (JBOD_Manager), the
  uploaded database and its merge on the other device (Sync_Client), and the read there, which goes
  through a remote source (Remote_Source) to the P2P server (P2P_Server) of the first device.
\<close>

section \<open>The record names its device\<close>

lemma recorded_row:
  assumes "write_recorded env i p enc f clean err j = (Inr (), j')"
  shows "\<exists>m. row m = row (md j) \<and> row (md j') = row (f m)"
proof -
  let ?m = "(md j)\<lparr>saved := Some (files (md j), directories (md j))\<rparr>"
  have "row (md j') = row (f ?m)" using write_recorded_ok [OF assms] by (auto simp: row_def commit_def)
  moreover have "row ?m = row (md j)" by (simp add: row_def fun_eq_iff)
  ultimately show ?thesis by blast
qed

lemma owned_row_exists:
  assumes "jbod_ok j" and "lookup vp (md j) = Some m"
  shows "\<exists>r. row (md j) vp = Some r \<and> \<not> deleted r"
  using assms by (auto simp: jbod_ok_def lookup_row split: option.splits if_splits)

lemma write_names_device:
  assumes "jbod_ok j" and "dev j = Some a" and "write_file env vp data j = (Inr (), j')"
  shows "\<exists>r. row (md j') vp = Some r \<and> device_id r = Some a"
proof (cases "lookup vp (md j)")
  case None
  obtain i p n where w: "write_recorded env i p (sealed env j data)
      (insert_file vp (src_id (sources j ! i)) p n (now env) (now env) (dev j)) True id j = (Inr (), j')"
    using assms(3) None
    by (auto simp: write_file_def create_file_def Let_def split: prod.splits sum.splits dest!: selected_local)
  from recorded_row [OF w] show ?thesis by (auto simp: row_insert assms(2) split: option.split)
next
  case (Some m)
  obtain r where r: "row (md j) vp = Some r" using owned_row_exists [OF assms(1) Some] by blast
  obtain i p n sid pp clean k where w: "write_recorded env i p (sealed env j data)
      (update_file vp n (now env) (dev j) sid pp) clean space_error j = (Inr (), k)" "md j' = md k"
    using assms(3) Some
    by (auto simp: write_file_def takeover_write_def overwrite_file_def Let_def
        split: prod.splits sum.splits option.splits if_splits dest!: selected_local)
  from recorded_row [OF w(1)] show ?thesis using r w(2) by (auto simp: row_update assms(2))
qed

section \<open>A merge leaves the rest of the volume\<close>

definition volume_parts :: "jbod \<Rightarrow> engine option \<times> string option \<times> bool dict" where
  "volume_parts j = (eng j, dev j, remotes j)"

lemma merge_volume: "volume_parts (merge_record e m j) = volume_parts j"
proof -
  have "volume_parts (set_md t k) = volume_parts k" for t k by (simp add: volume_parts_def set_md_def)
  moreover have "volume_parts (snd (on_source i f k)) = volume_parts k" for i k and f :: "source \<Rightarrow> unit result \<times> source"
    by (simp add: volume_parts_def on_source_def)
  moreover have "volume_parts (detect_ownership_loss e l m k) = volume_parts k" for l k
    by (simp add: volume_parts_def detect_ownership_loss_def mark_gc_needed_def)
  ultimately have "volume_parts (handle_conflict e m k) = volume_parts k"
      "volume_parts (update_from_server e m (detect_ownership_loss e l m k)) = volume_parts k" for k l
    by (simp_all add: handle_conflict_def update_from_server_def split: option.split prod.split sum.split)
  then show ?thesis
    by (cases "row (md j) (virtual_path m)")
      (simp_all add: merge_record_known merge_record_unknown \<open>\<And>t k. volume_parts (set_md t k) = volume_parts k\<close>)
qed

lemma fold_volume:
  "eng (fold (merge_record e) ms j) = eng j \<and> dev (fold (merge_record e) ms j) = dev j \<and>
   remotes (fold (merge_record e) ms j) = remotes j"
proof -
  have "volume_parts (fold (merge_record e) ms j) = volume_parts j"
    by (induction ms arbitrary: j) (simp_all add: merge_volume)
  then show ?thesis by (simp add: volume_parts_def)
qed

section \<open>A file on a named source\<close>

text \<open>A path the manager gives to a file: every component a name, also where a backslash is read as a
  slash.\<close>

definition plain_path :: "string \<Rightarrow> bool" where
  "plain_path p \<longleftrightarrow> norm_form (split_on CHR ''/'' p) \<and> no_dots p \<and>
     no_dots (replace_char CHR 0x5C CHR ''/'' p)"

lemma plain_path_found:
  assumes "plain_path p" and "norm_parts base \<noteq> []"
  shows "validate_path_err base p = None" and "below_root base p = p"
proof -
  have names: "names p = split_on CHR ''/'' p"
    using assms(1) by (simp add: names_def plain_path_def norm_form_def filter_id_conv)
  have ne: "p \<noteq> []" using assms(1) by (auto simp: plain_path_def norm_form_def)
  have rel: "\<not> prefix ''/'' p"
  proof
    assume "prefix ''/'' p"
    then have "[] \<in> set (split_on CHR ''/'' p)" by (cases p) auto
    then show False using assms(1) by (auto simp: plain_path_def norm_form_def)
  qed
  note inside = relative_inside [OF rel _ assms(2)]
  show "below_root base p = p"
    using inside(2) assms(1) names by (simp add: plain_path_def join_split_on)
  show "validate_path_err base p = None"
    using inside(1) assms(1) ne by (auto simp: validate_path_err_def plain_path_def no_dots_def)
qed

lemma read_named_source:
  assumes "trusts e tok st" and "rs_active rs" and "rs_relay_enabled rs"
    and "sid \<noteq> []" and "source_index sid (jb st) = Some i" and "s = sources (jb st) ! i"
    and "is_local s" and "src_active s" and "content s p = Some d" and "fault_free (p_os e)"
    and "plain_path p" and "norm_parts (source_data_root e s) \<noteq> []"
  shows "fst (read_from_source (owner_peer e up tok) p (Some sid) rs (st, None)) = Inr d"
proof -
  let ?rq = "payload_of (Some p) (Some sid) None"
  have nr: "\<not> is_remote s" using assms(7) by (auto simp: is_local_def is_remote_def split: source_kind.splits)
  have sel: "select_source_or_error ?rq st = Inr i"
    using assms(4,5) by (simp add: select_source_or_error_def payload_of_def truthy_def)
  have rp: "get_str (rq_path ?rq) = p" by (simp add: payload_of_def get_str_def)
  note path = plain_path_found [OF assms(11,12)]
  have "src_read (p_os e) p s = (Inr d, s)" by (rule local_read [OF assms(7-10)])
  then have "fst (op_read e ?rq st) = Inr (200, RData (b64encode d))"
    using path nr by (simp add: op_read_def sel checked_def rp source_file_def Let_def flip: assms(6))
  then show ?thesis
    by (simp add: read_from_source_def answered_def remote_op_owner [OF assms(1,3,2) payload_fields(1)])
qed

section \<open>From one device to the other\<close>

text \<open>A merge makes the record of a newer live row the row here.\<close>

lemma merged_newer:
  assumes "row a p = Some r" and "\<not> deleted r" and "\<forall>l. row b p = Some l \<longrightarrow> version l < version r"
  shows "\<exists>s. merged_with a b p = Some s \<and> data_of s = data_of r"
  using assms by (cases "row b p") (auto simp: merged_with_def merged_row_def)

text \<open>The owner's device answers a read for a file it holds, and the reader opens what it sends.\<close>

lemma read_through_remote:
  assumes "lookup vp (md k) = Some m" and "device_id m = Some a" and "dev k \<noteq> Some a"
    and "map_of (remotes k) a = Some act" and "act \<or> refreshes env a"
    and "remote_read (os env) a (physical_path m) (Some (source_id m)) = Inr enc"
    and "decrypted k (Inr enc) = Inr data"
  shows "fst (read_file env vp k) = Inr data"
  using assms by (auto simp: read_file_def owned_here_def read_remote_def Let_def)

text \<open>C12: A file written on one device can be read on the other: after the second device has merged the
  database the first uploaded, reading the path there returns the bytes that were written, fetched from
  the first device by its P2P server, directly or through the relay, and opened with the shared key.\<close>

theorem file_crosses_devices:
  assumes "jbod_ok j" and "dev j = Some a" and "engine_ok env j" and "write_file env vp data j = (Inr (), jA)"
    and "\<And>m. lookup vp (md jA) = Some m \<Longrightarrow> plain_path (physical_path m)"
    and "aead (cr ea)" and "cr eb = cr ea" and "length (blob_iv ea) = 12" and "sync_key b = key"
    and "parse_db eb (dump_db ea (md jA)) = Some (table (md jA))"
    and "paths_distinct (store b)" and "no_pending (store b)"
    and "\<And>l r. row (store b) vp = Some l \<Longrightarrow> row (md jA) vp = Some r \<Longrightarrow> version l < version r"
    and "merge_server_metadata eb (encrypt_blob ea key (dump_db ea (md jA))) b = (rb, b')"
    and "eng (vol b) = eng j" and "dev (vol b) \<noteq> Some a"
    and "map_of (remotes (vol b)) a = Some act" and "act \<or> refreshes envB a"
    and "trusts pe tok st" and "sources (jb st) = sources jA" and "fault_free (p_os pe)"
    and "\<And>s. s \<in> set (sources jA) \<Longrightarrow> src_id s \<noteq> [] \<and> norm_parts (source_data_root pe s) \<noteq> []"
    and "rs_active rs" and "rs_relay_enabled rs"
    and "\<And>p sid. remote_read (os envB) a p sid = fst (read_from_source (owner_peer pe up tok) p sid rs (st, None))"
  shows "rb = Inr () \<and> fst (read_file envB vp (vol b')) = Inr data"
proof -
  obtain i p where sA: "stored jA vp i p (sealed env j data)" "jbod_ok jA"
    using write_stored [OF assms(1,4)] assms(2) by blast
  obtain m where m: "lookup vp (md jA) = Some m" "source_index (source_id m) jA = Some i"
      "physical_path m = p" "i < length (sources jA)" "src_active (sources jA ! i)"
      "content (sources jA ! i) p = Some (sealed env j data)"
    using sA(1) by (auto simp: stored_def)
  obtain r where r: "row (md jA) vp = Some r" "device_id r = Some a"
    using write_names_device [OF assms(1,2,4)] by blast
  have dA: "paths_distinct (md jA)" using sA(2) by (simp add: jbod_ok_def)
  have mr: "m = meta_of r" "\<not> deleted r"
    using m(1) r(1) by (auto simp: lookup_row [OF dA] split: if_splits)
  note merge = received_merge [OF assms(6-9,10,14)]
  have "\<exists>s. row (store b') vp = Some s \<and> data_of s = data_of r"
    using merged_newer [OF r(1) mr(2), of "store b"] assms(13) r(1)
      merge_table [of "md jA" "vol b" eb vp] dA assms(12) merge(2) by (simp add: store_def)
  then obtain s where s: "row (store b') vp = Some s" "data_of s = data_of r" by blast
  have dB: "paths_distinct (store b')"
    using assms(11) merge(2) by (simp add: store_def fold_distinct)
  have l: "lookup vp (md (vol b')) = Some (meta_of s)"
    using s mr(2) lookup_row [OF dB, of vp] by (simp add: store_def data_of_def)
  have same: "source_id s = source_id m" "physical_path s = p" "device_id s = Some a"
    using s(2) mr(1) m(3) r(2) by (simp_all add: data_of_def)
  have src: "src_id (sources jA ! i) = source_id m"
    using last_index_Some m(2) by (fastforce simp: source_index_def)
  have i: "sources jA ! i \<in> set (sources jA)" using m(4) by simp
  have loc: "is_local (sources jA ! i)" using sA(2) m(4) by (simp add: jbod_ok_def list_all_length)
  have "fst (read_from_source (owner_peer pe up tok) p (Some (source_id m)) rs (st, None)) =
      Inr (sealed env j data)"
    by (rule read_named_source [OF assms(19,23,24) _ _ refl _ _ _ assms(21), of "source_id m" i])
      (use m assms(5) [OF m(1)] assms(20) assms(22) [OF i] src loc in \<open>simp_all add: source_index_def\<close>)
  then have "fst (read_file envB vp (vol b')) = Inr data"
    by (intro read_through_remote [OF l, where a = a and act = act and enc = "sealed env j data"])
      (use same assms(15-18,25) merge(2) decrypted_sealed [OF assms(3)] in \<open>simp_all add: fold_volume\<close>)
  with merge(1) show ?thesis by simp
qed

section \<open>An example\<close>

definition reader_sync_env :: sync_env where
  "reader_sync_env = sample_sync_env\<lparr>parse_db := \<lambda>b. Some (table (md sample_full))\<rparr>"

text \<open>A second device, with no storage of its own, that knows the first.\<close>

definition reader_volume :: jbod where
  "reader_volume = register_remote_device ''d'' True (jbod_init [] empty_store (eng sample_volume) (Some ''x''))"

definition owner_server :: p2p where
  "owner_server = sample_p2p\<lparr>jb := sample_full\<rparr>"

definition reader_env :: jenv where
  "reader_env = sample_env\<lparr>os := calm_env\<lparr>remote_read := \<lambda>a p sid.
     fst (read_from_source (owner_peer sample_p2p_env False ''ann'') p sid sample_remote (owner_server, None))\<rparr>\<rparr>"

definition reader_device :: sync where
  "reader_device = sync_init reader_volume (Some [1, 2]) None []"

definition reader_merged :: sync where
  "reader_merged = snd (merge_server_metadata reader_sync_env
     (encrypt_blob sample_sync_env (Some [1, 2]) (dump_db sample_sync_env (md sample_full))) reader_device)"

theorem file_crosses_devices_witness:
  "fst (read_file reader_env ''/a'' (vol reader_merged)) = Inr [1, 2]"
proof -
  let ?x = "encrypt_blob sample_sync_env (Some [1, 2]) (dump_db sample_sync_env (md sample_full))"
  have b: "fst (merge_server_metadata reader_sync_env ?x reader_device) = Inr ()" by code_simp
  have m: "merge_server_metadata reader_sync_env ?x reader_device = (Inr (), reader_merged)"
    using run_eq [OF b] by (simp only: reader_merged_def)
  have p: "lookup ''/a'' (md sample_full) = Some n \<Longrightarrow> plain_path (physical_path n)" for n
  proof -
    have "case lookup ''/a'' (md sample_full) of None \<Rightarrow> True | Some n \<Rightarrow> plain_path (physical_path n)" by code_simp
    then show "lookup ''/a'' (md sample_full) = Some n \<Longrightarrow> plain_path (physical_path n)" by simp
  qed
  have "list_all (\<lambda>s. src_id s \<noteq> [] \<and> norm_parts (source_data_root sample_p2p_env s) \<noteq> []) (sources sample_full)"
    by code_simp
  then have s: "t \<in> set (sources sample_full) \<Longrightarrow>
      src_id t \<noteq> [] \<and> norm_parts (source_data_root sample_p2p_env t) \<noteq> []" for t
    by (simp add: list_all_iff)
  have e: "store reader_device = empty_store" "vol reader_device = reader_volume" "sync_key reader_device = Some [1, 2]"
    by (simp_all add: reader_device_def sync_init_def store_def reader_volume_def register_remote_device_def jbod_init_def)
  have o: "trusts sample_p2p_env ''ann'' owner_server" "fault_free (p_os sample_p2p_env)" "jb owner_server = sample_full"
    by (simp_all add: trusts_def owner_server_def sample_p2p_def sample_p2p_env_def)
  show ?thesis
    by (rule file_crosses_devices [where a = "''d''" and act = True and tok = "''ann''" and up = False
          and pe = sample_p2p_env and st = owner_server and rs = sample_remote,
        OF sample_ok _ sample_engine sample_write p _ _ _ e(3) _ _ _ _ m, THEN conjunct2])
      (auto simp: e o s reader_sync_env_def sample_sync_env_def aead_toy empty_store_def paths_distinct_def
        no_pending_def row_def reader_volume_def register_remote_device_def sample_volume_def jbod_init_def
        sample_remote_def remote_init_def reader_env_def)
qed

end
