(* ===== verification/Fleet.thy ===== *)
theory Fleet
  imports Convergence
begin

text \<open>
  Any number of devices and the server between them. The server is not part of the repository: how it
  answers an upload is a parameter \<open>sv\<close>, of which \<open>cas_server\<close> asks what \<open>upload_metadata\<close> documents,
  that an upload is taken only if it is based on the current version. The devices edit, download and
  upload in any order; what they do with the answers are the functions of Sync_Client.
\<close>

section \<open>A merge takes over what the server has\<close>

text \<open>Every live record is there, in at least its version (perhaps as a tombstone).\<close>

definition covers :: "file_meta list \<Rightarrow> mstore \<Rightarrow> bool" where
  "covers recs t \<longleftrightarrow> (\<forall>m \<in> set recs. \<not> deleted m \<longrightarrow> has_version (virtual_path m) (version m) t)"

text \<open>No conflict copy's name is taken by a tombstone (\<open>conflict_onto_tombstone\<close>): every conflict of the
  merge is resolved.\<close>

fun conflicts_resolved :: "sync_env \<Rightarrow> file_meta list \<Rightarrow> jbod \<Rightarrow> bool" where
  "conflicts_resolved e [] j = True"
| "conflicts_resolved e (m # ms) j =
     ((case row (md j) (virtual_path m) of
         None \<Rightarrow> True
       | Some l \<Rightarrow> conflicting l m \<longrightarrow>
           (case resolve_conflict (device_name e) (stamp e) (virtual_path m) (md j) of
             Some (Inr cp, t) \<Rightarrow> True | _ \<Rightarrow> False)) \<and>
      conflicts_resolved e ms (merge_record e m j))"

lemma inserted_version: "has_version (virtual_path m) (version m) (insert_from_server m t)"
  by (auto simp: has_version_def row_insert_from_server server_row_def adopt_def split: option.split)

lemma merge_has_version:
  assumes "conflicts_resolved e (m # ms) j" and "\<not> deleted m"
  shows "has_version (virtual_path m) (version m) (md (merge_record e m j))"
proof (cases "row (md j) (virtual_path m)")
  case None
  then show ?thesis using assms(2) by (simp add: merge_record_unknown inserted_version)
next
  case (Some l)
  show ?thesis
  proof (cases "conflicting l m")
    case True
    then obtain cp t where "resolve_conflict (device_name e) (stamp e) (virtual_path m) (md j) = Some (Inr cp, t)"
      using assms(1) Some by (auto split: option.splits prod.splits sum.splits)
    then show ?thesis using True by (simp add: merge_record_known [OF Some] handle_conflict_def inserted_version)
  next
    case False
    then show ?thesis
      using Some by (auto simp: merge_record_known [OF Some] has_version_def row_update_from_server adopt_def)
  qed
qed

lemma merge_keeps_version:
  assumes "paths_distinct (md j)" and "q \<noteq> virtual_path m" and "has_version q n (md j)"
  shows "has_version q n (md (merge_record e m j))"
  using assms(3) merge_frame [OF assms(1,2)] by (auto simp: has_version_def)

lemma fold_keeps_version:
  "paths_distinct (md j) \<Longrightarrow> q \<notin> virtual_path ` set recs \<Longrightarrow> has_version q n (md j) \<Longrightarrow>
    has_version q n (md (fold (merge_record e) recs j))"
  by (induction recs arbitrary: j) (auto intro: merge_keeps_version merge_distinct)

lemma fold_covers:
  assumes "conflicts_resolved e recs j" and "paths_distinct (md j)" and "distinct (map virtual_path recs)"
  shows "covers recs (md (fold (merge_record e) recs j))"
  using assms
proof (induction recs arbitrary: j)
  case (Cons m recs)
  let ?j = "merge_record e m j"
  have "has_version (virtual_path m) (version m) (md (fold (merge_record e) recs ?j))" if "\<not> deleted m"
    using fold_keeps_version [OF merge_distinct [OF Cons.prems(2)] _ merge_has_version [OF Cons.prems(1) that], of recs e]
      Cons.prems(3) by auto
  moreover have "covers recs (md (fold (merge_record e) recs ?j))"
    using Cons.IH [of ?j] Cons.prems merge_distinct by simp
  ultimately show ?case by (simp add: covers_def)
qed (simp add: covers_def)

section \<open>The server\<close>

record hub =
  hub_version :: int
  hub_blob :: bytes

definition version_body :: "int \<Rightarrow> int option \<Rightarrow> body" where
  "version_body v days = \<lparr>b_bytes = [], b_json = True, b_version = Some v, b_retention = days, b_changed = False\<rparr>"

definition blob_body :: "bytes \<Rightarrow> body" where
  "blob_body b = \<lparr>b_bytes = b, b_json = False, b_version = None, b_retention = None, b_changed = False\<rparr>"

definition accepted :: "answer \<Rightarrow> bool" where
  "accepted a \<longleftrightarrow> (case a of Failed \<Rightarrow> False | Resp st b \<Rightarrow> st \<noteq> 409 \<and> st < 400)"

definition says_version :: "int \<Rightarrow> answer \<Rightarrow> bool" where
  "says_version v a \<longleftrightarrow> (case a of Failed \<Rightarrow> True | Resp st b \<Rightarrow> b_json b \<longrightarrow> b_version b = None \<or> b_version b = Some v)"

text \<open>An upload was stored: it was based on the current version, and the version went up.\<close>

definition stored_upload :: "int \<Rightarrow> bytes \<Rightarrow> hub \<Rightarrow> hub \<Rightarrow> bool" where
  "stored_upload base b h h' \<longleftrightarrow> base = hub_version h \<and> hub_version h < hub_version h' \<and> hub_blob h' = b"

text \<open>The answer to a stored upload may get lost, but only a stored one is answered with success.\<close>

definition cas_server :: "(int \<Rightarrow> bytes \<Rightarrow> hub \<Rightarrow> answer \<times> hub) \<Rightarrow> bool" where
  "cas_server sv \<longleftrightarrow> (\<forall>base b h. let (a, h') = sv base b h in
     h' = h \<and> \<not> accepted a \<or> stored_upload base b h h' \<and> says_version (hub_version h') a)"

section \<open>The devices\<close>

text \<open>A download that has seen version \<open>v\<close> and then gets the database \<open>b\<close>, and an upload with the
  answer of the server and the edits made meanwhile; the connection is lost after each.\<close>

definition pull :: "sync_env \<Rightarrow> int option \<Rightarrow> int \<Rightarrow> bytes \<Rightarrow> sync \<Rightarrow> sync" where
  "pull e days v b s =
     download_and_merge e (s\<lparr>script := [([], Resp 200 (version_body v days)), ([], Resp 200 (blob_body b))]\<rparr>)"

definition uploaded :: "sync_env \<Rightarrow> sync \<Rightarrow> bytes" where
  "uploaded e s = encrypt_blob e (sync_key s) (dump_db e (store (gc_tombstones e s)))"

definition push :: "(int \<Rightarrow> bytes \<Rightarrow> hub \<Rightarrow> answer \<times> hub) \<Rightarrow> sync_env \<Rightarrow> ms_op list \<Rightarrow> hub \<Rightarrow> sync \<Rightarrow> sync \<times> hub" where
  "push sv e ops h s =
     (case sv (last_synced_version s) (uploaded e s) h of
       (a, h') \<Rightarrow> (upload_metadata e (s\<lparr>script := [(ops, a)]\<rparr>),
         if db_present e \<and> get_pending_files (store (gc_tombstones e s)) \<noteq> [] then h' else h))"

definition opened :: "sync_env \<Rightarrow> bytes option \<Rightarrow> bytes \<Rightarrow> file_meta list option" where
  "opened e key b = (case decrypt_blob e key b of Inl x \<Rightarrow> None | Inr plain \<Rightarrow> parse_db e plain)"

text \<open>No tombstone is old enough to be purged.\<close>

definition tombstones_kept :: "sync_env \<Rightarrow> sync \<Rightarrow> bool" where
  "tombstones_kept e s \<longleftrightarrow> \<not> list_ex (expired (now (je e)) (retention s)) (files (store s))"

definition merged_state :: "sync_env \<Rightarrow> int option \<Rightarrow> file_meta list \<Rightarrow> sync \<Rightarrow> sync" where
  "merged_state e days recs s = (set_retention days s)\<lparr>vol := fold (merge_record e) recs (vol s)\<rparr>"

lemma gc_kept:
  assumes "tombstones_kept e s"
  shows "row (store (gc_tombstones e s)) = row (store s)" and "files (store (gc_tombstones e s)) = files (store s)"
proof -
  have "filter (\<lambda>r. \<not> expired (now (je e)) (retention s) r) (files (store s)) = files (store s)"
    using assms by (auto simp: tombstones_kept_def list_ex_iff filter_id_conv)
  then show f: "files (store (gc_tombstones e s)) = files (store s)"
    by (simp add: gc_tombstones_def on_store_def store_def set_md_def purge_expired_tombstones_def)
  show "row (store (gc_tombstones e s)) = row (store s)" by (rule row_cong) (rule f)
qed

lemma vol_set_retention [simp]: "vol (set_retention d s) = vol s" "sync_key (set_retention d s) = sync_key s"
  "last_synced_version (set_retention d s) = last_synced_version s"
  by (simp_all add: set_retention_def split: option.split)

lemma pull_effect:
  assumes "opened e (sync_key s) b = Some recs"
  shows "if v \<le> last_synced_version s
    then store (pull e days v b s) = store s \<and> last_synced_version (pull e days v b s) = last_synced_version s \<and>
      sync_key (pull e days v b s) = sync_key s
    else store (pull e days v b s) = store (gc_tombstones e (merged_state e days recs s)) \<and>
      last_synced_version (pull e days v b s) = v \<and> sync_key (pull e days v b s) = sync_key s"
proof -
  obtain plain where "decrypt_blob e (sync_key s) b = Inr plain" "parse_db e plain = Some recs"
    using assms by (auto simp: opened_def split: sum.splits)
  then show ?thesis
    by (auto simp: pull_def download_and_merge_def ask_def on_store_def set_md_def version_body_def blob_body_def
        merge_server_metadata_def merged_state_def gc_tombstones_def record_sync_success_def store_def set_retention_def
        split: option.split)
qed

lemma ask_answers:
  "ask q (s\<lparr>script := [(ops, a)]\<rparr>) = (a, (on_store (fold ms_step ops) s)\<lparr>script := [], sent := sent s @ [q]\<rparr>)"
  by (simp add: ask_def on_store_def)

lemma ask_nothing: "script s = [] \<Longrightarrow> ask q s = (Failed, s\<lparr>sent := sent s @ [q]\<rparr>)"
  by (simp add: ask_def)

lemma lost_connection:
  assumes "script s = []"
  shows "store (download_and_merge e s) = store s" "last_synced_version (download_and_merge e s) = last_synced_version s"
    "sync_key (download_and_merge e s) = sync_key s" "script (download_and_merge e s) = []"
    "store (upload_loop n e s) = store s" "last_synced_version (upload_loop n e s) = last_synced_version s"
    "sync_key (upload_loop n e s) = sync_key s"
  using assms
  by (simp_all add: download_and_merge_def ask_nothing store_def)
    (cases n; simp add: ask_nothing Let_def store_def count_failure_def)+

definition marked :: "file_meta list \<Rightarrow> mstore \<Rightarrow> mstore" where
  "marked fs m = fold (\<lambda>f m. snd (set_sync_status (virtual_path f) ''synced'' m)) fs m"

text \<open>The four ways of an upload: nothing to do, nothing left after the purge, no success reported, success.\<close>

lemma push_cases:
  assumes "push sv e ops h s = (s', h')" and "cas_server sv"
  obtains "store s' = store s" "last_synced_version s' = last_synced_version s" "sync_key s' = sync_key s" "h' = h"
  | "store s' = store (gc_tombstones e s)" "last_synced_version s' = last_synced_version s" "sync_key s' = sync_key s" "h' = h"
  | "store s' = fold ms_step ops (store (gc_tombstones e s))" "last_synced_version s' = last_synced_version s"
      "sync_key s' = sync_key s" "h' = h \<or> stored_upload (last_synced_version s) (uploaded e s) h h'"
  | fs where "store s' = marked fs (fold ms_step ops (store (gc_tombstones e s)))"
      "last_synced_version s' = last_synced_version s \<or> last_synced_version s' = hub_version h'"
      "sync_key s' = sync_key s" "stored_upload (last_synced_version s) (uploaded e s) h h'"
proof -
  obtain a h1 where sv: "sv (last_synced_version s) (uploaded e s) h = (a, h1)" by (metis surj_pair)
  then have law: "h1 = h \<and> \<not> accepted a \<or> stored_upload (last_synced_version s) (uploaded e s) h h1 \<and> says_version (hub_version h1) a"
    using assms(2) [unfolded cas_server_def, THEN spec, THEN spec, THEN spec, of "last_synced_version s" "uploaded e s" h]
    by simp
  let ?t = "s\<lparr>script := [(ops, a)]\<rparr>"
  let ?g = "gc_tombstones e s"
  have s': "s' = upload_metadata e ?t" and h': "h' = (if db_present e \<and> get_pending_files (store ?g) \<noteq> [] then h1 else h)"
    using assms(1) sv by (auto simp: push_def)
  have g: "gc_tombstones e ?t = ?g\<lparr>script := [(ops, a)]\<rparr>" by (simp add: gc_tombstones_def on_store_def)
  show thesis
  proof (cases "get_pending_files (store s) = [] \<or> \<not> db_present e")
    case True
    moreover have "\<not> (db_present e \<and> get_pending_files (store ?g) \<noteq> [])" using True purge_pending by blast
    then have "h' = h" unfolding h' by (rule if_not_P)
    ultimately show thesis using that(1) s' by (auto simp: upload_metadata_def store_def)
  next
    case False
    then have u: "s' = upload_loop MAX_CAS_RETRIES e (?g\<lparr>script := [(ops, a)]\<rparr>)"
      unfolding s' upload_metadata_def g by (simp add: store_def)
    show thesis
    proof (cases "get_pending_files (store ?g) = []")
      case True
      then have "s' = ?g\<lparr>script := [(ops, a)]\<rparr>" using u by (simp add: MAX_CAS_RETRIES_def numeral_eq_Suc store_def)
      then show thesis using that(2) h' True by (simp add: store_def)
    next
      case pend: False
      then have h1: "h' = h1" using False h' by simp
      let ?n = "(on_store (fold ms_step ops) ?g)\<lparr>script := [],
        sent := sent s @ [PutMetadata (Some (last_synced_version s)) (uploaded e s)]\<rparr>"
      have st: "store ?n = fold ms_step ops (store ?g)" "last_synced_version ?n = last_synced_version s" "sync_key ?n = sync_key s"
        by (simp_all add: on_store_def store_def set_md_def)
      have up: "s' = (case a of
          Failed \<Rightarrow> count_failure ?n
        | Resp st b \<Rightarrow> if st = 409 then upload_loop 4 e (download_and_merge e ?n)
            else if 400 \<le> st then count_failure ?n
            else record_sync_success e (mark_synced (get_pending_files (store ?g)) (take_version b (?n\<lparr>failures := 0\<rparr>))))"
        using u pend ask_answers [where s = ?g and ops = ops and a = a]
        by (simp add: MAX_CAS_RETRIES_def numeral_eq_Suc Let_def uploaded_def store_def split: answer.split)
      show thesis
      proof (cases "accepted a")
        case True
        then obtain code b where a: "a = Resp code b" "code \<noteq> 409" "\<not> 400 \<le> code" by (auto simp: accepted_def split: answer.splits)
        then have r: "s' = record_sync_success e (mark_synced (get_pending_files (store ?g)) (take_version b (?n\<lparr>failures := 0\<rparr>)))"
          using up by simp
        have "store (mark_synced fs (take_version b (?n\<lparr>failures := 0\<rparr>))) = marked fs (store ?n)" for fs
          by (auto simp: marked_def mark_synced_def on_store_def store_def set_md_def take_version_def split: option.split)
        moreover have "sync_key (record_sync_success e (mark_synced fs (take_version b (?n\<lparr>failures := 0\<rparr>)))) = sync_key ?n" for fs
          by (simp add: mark_synced_def on_store_def record_sync_success_def take_version_def split: option.split)
        ultimately have "store s' = marked (get_pending_files (store ?g)) (fold ms_step ops (store ?g))" "sync_key s' = sync_key s"
          unfolding r using st by (simp_all only: store_frames)
        moreover have "last_synced_version s' = last_synced_version s \<or> last_synced_version s' = hub_version h'"
          using law True a(1) st(2) h1
          by (auto simp: r says_version_def take_version_def split: option.splits)
        ultimately show thesis using that(4) law True h1 by blast
      next
        case refused: False
        then have "s' = count_failure ?n \<or> s' = upload_loop 4 e (download_and_merge e ?n)"
          using up by (auto simp: accepted_def split: answer.splits if_splits)
        moreover have "script ?n = []" by simp
        ultimately have "store s' = store ?n" "last_synced_version s' = last_synced_version ?n" "sync_key s' = sync_key ?n"
          using lost_connection(1-4) [of ?n e] lost_connection(5-7) [of "download_and_merge e ?n" 4 e]
          by (auto simp: count_failure_def)
        then show thesis using that(3) law h1 st by auto
      qed
    qed
  qed
qed

section \<open>Rows of a device\<close>

lemma covers_edits: "list_all row_edit ops \<Longrightarrow> covers recs t \<Longrightarrow> covers recs (fold ms_step ops t)"
  by (auto simp: covers_def intro: has_version_run)

lemma covers_row_cong: "row t = row u \<Longrightarrow> covers recs t = covers recs u"
  by (simp add: covers_def has_version_def)

lemma covers_marked: "covers recs t \<Longrightarrow> covers recs (marked fs t)"
proof -
  have "marked fs t = fold ms_step (map (\<lambda>f. MSync (virtual_path f) ''synced'') fs) t"
    unfolding marked_def by (induction fs arbitrary: t) simp_all
  moreover have "list_all row_edit (map (\<lambda>f. MSync (virtual_path f) ''synced'') fs)" by (simp add: list_all_iff)
  ultimately show "covers recs t \<Longrightarrow> covers recs (marked fs t)" using covers_edits by metis
qed

lemma distinct_step: "row_edit op \<Longrightarrow> paths_distinct t \<Longrightarrow> paths_distinct (ms_step op t)"
  by (cases op; simp add: distinct_edits increment_version_def set_sync_status_def set_replication_status_def distinct_upd)
    (auto simp: paths_distinct_def insert_directory_def delete_directory_entry_def rename_directory_row_def rekey_dirs_def
      implicit_begin_def begin_transaction_def split: option.split)

lemma distinct_run: "list_all row_edit ops \<Longrightarrow> paths_distinct t \<Longrightarrow> paths_distinct (fold ms_step ops t)"
  by (induction ops arbitrary: t) (auto intro: distinct_step)

lemma distinct_marked: "paths_distinct t \<Longrightarrow> paths_distinct (marked fs t)"
  unfolding marked_def by (induction fs arbitrary: t) (simp_all add: set_sync_status_def distinct_upd)

lemma distinct_purged: "paths_distinct (store s) \<Longrightarrow> paths_distinct (store (gc_tombstones e s))"
  by (simp add: paths_distinct_def store_def gc_tombstones_def on_store_def set_md_def purge_expired_tombstones_def
      distinct_map_filter)

lemma table_row:
  assumes "paths_distinct t" and "m \<in> set (table t)"
  shows "has_version (virtual_path m) (version m) t"
proof -
  obtain r where r: "r \<in> set (files t)" "m = meta_of r" using assms(2) by (auto simp: table_def)
  then have "row t (virtual_path r) = Some r" using row_Some_iff [OF assms(1)] by simp
  then show ?thesis using r(2) by (simp add: has_version_def)
qed

lemma covers_own_table: "paths_distinct t \<Longrightarrow> covers (table t) t"
  by (simp add: covers_def table_row)

lemma covered_in_table:
  assumes "covers recs t" and "m \<in> set recs" and "\<not> deleted m"
  shows "\<exists>m' \<in> set (table t). virtual_path m' = virtual_path m \<and> version m \<le> version m'"
proof -
  obtain r where r: "row t (virtual_path m) = Some r" "version m \<le> version r"
    using assms by (auto simp: covers_def has_version_def)
  then have "meta_of r \<in> set (table t)" "virtual_path (meta_of r) = virtual_path m"
    using row_in [OF r(1)] row_path [OF r(1)] by (auto simp: table_def)
  with r(2) show ?thesis by (intro bexI [of _ "meta_of r"]) simp_all
qed

section \<open>All devices\<close>

record fleet =
  fl_hub :: hub
  fl_dev :: "nat \<Rightarrow> sync"

text \<open>The devices of one user share the key and the library, and read each other's databases; the last
  is asked of those that are uploaded.\<close>

definition good_envs :: "(nat \<Rightarrow> sync_env) \<Rightarrow> bool" where
  "good_envs E \<longleftrightarrow> (\<forall>i. aead (cr (E i)) \<and> cr (E i) = cr (E 0) \<and> length (blob_iv (E i)) = 12)"

definition readable :: "(nat \<Rightarrow> sync_env) \<Rightarrow> nat \<Rightarrow> mstore \<Rightarrow> bool" where
  "readable E i t \<longleftrightarrow> (\<forall>k. parse_db (E k) (dump_db (E i) t) = Some (table t))"

text \<open>
  \<open>edits\<close>: any operations of the store but renaming, purging and rolling back. \<open>pulls\<close>: the version may
  have been read before the database. \<open>pushes\<close>: with edits under way.
\<close>

inductive fleet_step ::
  "(int \<Rightarrow> bytes \<Rightarrow> hub \<Rightarrow> answer \<times> hub) \<Rightarrow> (nat \<Rightarrow> sync_env) \<Rightarrow> fleet \<Rightarrow> fleet \<Rightarrow> bool" for sv E where
  edits: "list_all row_edit ops \<Longrightarrow>
    fleet_step sv E w (w\<lparr>fl_dev := (fl_dev w)(i := on_store (fold ms_step ops) (fl_dev w i))\<rparr>)"
| pulls: "v \<le> hub_version (fl_hub w) \<Longrightarrow> s = fl_dev w i \<Longrightarrow> opened (E i) (sync_key s) (hub_blob (fl_hub w)) = Some recs \<Longrightarrow>
    conflicts_resolved (E i) recs (vol s) \<Longrightarrow> tombstones_kept (E i) (merged_state (E i) days recs s) \<Longrightarrow>
    fleet_step sv E w (w\<lparr>fl_dev := (fl_dev w)(i := pull (E i) days v (hub_blob (fl_hub w)) s)\<rparr>)"
| pushes: "list_all row_edit ops \<Longrightarrow> push sv (E i) ops (fl_hub w) (fl_dev w i) = (s', h') \<Longrightarrow>
    tombstones_kept (E i) (fl_dev w i) \<Longrightarrow> readable E i (store (gc_tombstones (E i) (fl_dev w i))) \<Longrightarrow>
    fleet_step sv E w (w\<lparr>fl_hub := h', fl_dev := (fl_dev w)(i := s')\<rparr>)"

definition hub_holds :: "(nat \<Rightarrow> sync_env) \<Rightarrow> bytes option \<Rightarrow> hub \<Rightarrow> file_meta list \<Rightarrow> bool" where
  "hub_holds E key h recs \<longleftrightarrow> (\<forall>k. opened (E k) key (hub_blob h) = Some recs)"

definition device_ok :: "bytes option \<Rightarrow> hub \<Rightarrow> file_meta list \<Rightarrow> sync \<Rightarrow> bool" where
  "device_ok key h recs s \<longleftrightarrow> sync_key s = key \<and> paths_distinct (store s) \<and> last_synced_version s \<le> hub_version h \<and>
     (last_synced_version s = hub_version h \<longrightarrow> covers recs (store s))"

definition fleet_ok :: "(nat \<Rightarrow> sync_env) \<Rightarrow> bytes option \<Rightarrow> file_meta list \<Rightarrow> fleet \<Rightarrow> bool" where
  "fleet_ok E key recs w \<longleftrightarrow> hub_holds E key (fl_hub w) recs \<and> distinct (map virtual_path recs) \<and>
     (\<forall>i. device_ok key (fl_hub w) recs (fl_dev w i))"

lemma uploaded_opens:
  assumes "good_envs E" and "readable E i (store (gc_tombstones (E i) s))" and "sync_key s = key"
  shows "opened (E k) key (uploaded (E i) s) = Some (table (store (gc_tombstones (E i) s)))"
proof -
  have c: "cr (E k) = cr (E i)" "aead (cr (E i))" "length (blob_iv (E i)) = 12"
    using assms(1) by (metis good_envs_def)+
  have "decrypt_blob (E k) key x = decrypt_blob (E i) key x" for x
    using c(1) by (cases key) (simp_all add: decrypt_blob_def aesgcm_decrypt_def)
  then show ?thesis
    using blob_roundtrip [OF c(2,3), of key] assms(2,3) by (simp add: opened_def uploaded_def readable_def)
qed

lemma device_edits: "list_all row_edit ops \<Longrightarrow> device_ok key h recs s \<Longrightarrow> device_ok key h recs (on_store (fold ms_step ops) s)"
  by (auto simp: device_ok_def on_store_def store_def set_md_def intro: covers_edits distinct_run)

lemma device_pulls:
  assumes "device_ok key h recs s" and "v \<le> hub_version h" and "opened e (sync_key s) (hub_blob h) = Some recs"
    and "conflicts_resolved e recs (vol s)" and "tombstones_kept e (merged_state e days recs s)"
    and "distinct (map virtual_path recs)"
  shows "device_ok key h recs (pull e days v (hub_blob h) s)"
proof (cases "v \<le> last_synced_version s")
  case True
  with pull_effect [OF assms(3), of v days] assms(1) show ?thesis by (simp add: device_ok_def)
next
  case False
  let ?t = "merged_state e days recs s"
  have d: "paths_distinct (md (vol s))" using assms(1) by (simp add: device_ok_def store_def)
  have "store ?t = md (fold (merge_record e) recs (vol s))" by (simp add: merged_state_def store_def)
  then have "covers recs (store ?t)" "paths_distinct (store ?t)"
    using fold_covers [OF assms(4) d assms(6)] fold_distinct [OF d] by simp_all
  then have "covers recs (store (gc_tombstones e ?t))" "paths_distinct (store (gc_tombstones e ?t))"
    using covers_row_cong [OF gc_kept(1) [OF assms(5)]] distinct_purged by simp_all
  moreover have "store (pull e days v (hub_blob h) s) = store (gc_tombstones e ?t)"
      "last_synced_version (pull e days v (hub_blob h) s) = v" "sync_key (pull e days v (hub_blob h) s) = sync_key s"
    using False pull_effect [OF assms(3), of v days] by simp_all
  ultimately show ?thesis using assms(1,2) unfolding device_ok_def by metis
qed

lemma stored_ok:
  assumes "stored_upload (last_synced_version s) (uploaded (E i) s) h h'" and "fleet_ok E key recs \<lparr>fl_hub = h, fl_dev = D\<rparr>"
    and "D i = s" and "good_envs E" and "tombstones_kept (E i) s" and "readable E i (store (gc_tombstones (E i) s))"
    and "device_ok key h' (table (store (gc_tombstones (E i) s))) s'"
  shows "fleet_ok E key (table (store (gc_tombstones (E i) s))) \<lparr>fl_hub = h', fl_dev = D(i := s')\<rparr>"
    and "covers recs (store (gc_tombstones (E i) s))"
proof -
  let ?g = "store (gc_tombstones (E i) s)"
  have dev: "device_ok key h recs (D k)" for k using assms(2) by (simp add: fleet_ok_def)
  have s: "sync_key s = key" "paths_distinct (store s)" "last_synced_version s = hub_version h"
    using dev [of i] assms(1,3) by (simp_all add: device_ok_def stored_upload_def)
  have "hub_holds E key h' (table ?g)"
    using uploaded_opens [OF assms(4,6) s(1)] assms(1) by (simp add: hub_holds_def stored_upload_def)
  moreover have "distinct (map virtual_path (table ?g))"
    using distinct_purged [OF s(2)] by (simp add: table_paths paths_distinct_def)
  moreover have "device_ok key h' (table ?g) (D k)" for k
    using dev [of k] assms(1) by (simp add: device_ok_def stored_upload_def)
  ultimately show "fleet_ok E key (table ?g) \<lparr>fl_hub = h', fl_dev = D(i := s')\<rparr>"
    using assms(7) by (simp add: fleet_ok_def)
  show "covers recs ?g"
    using dev [of i] s(3) assms(3) covers_row_cong [OF gc_kept(1) [OF assms(5)]] by (simp add: device_ok_def)
qed

lemma fleet_ok_step:
  assumes "fleet_step sv E w w'" and "cas_server sv" and "good_envs E" and "fleet_ok E key recs w"
  shows "\<exists>recs'. fleet_ok E key recs' w' \<and>
    (\<forall>m \<in> set recs. \<not> deleted m \<longrightarrow> (\<exists>m' \<in> set recs'. virtual_path m' = virtual_path m \<and> version m \<le> version m'))"
  using assms(1)
proof (cases rule: fleet_step.cases)
  case (edits ops i)
  then have "fleet_ok E key recs w'" using assms(4) device_edits by (simp add: fleet_ok_def)
  then show ?thesis by blast
next
  case (pulls v s i recs' days)
  have "recs' = recs" using pulls assms(4) by (simp add: fleet_ok_def hub_holds_def device_ok_def)
  then have "fleet_ok E key recs w'"
    using pulls assms(4) device_pulls [of key "fl_hub w" recs "fl_dev w i" v "E i" days] by (simp add: fleet_ok_def)
  then show ?thesis by blast
next
  case (pushes ops i s' h')
  let ?s = "fl_dev w i" and ?h = "fl_hub w"
  let ?g = "store (gc_tombstones (E i) ?s)"
  have ok: "device_ok key ?h recs ?s" using assms(4) by (simp add: fleet_ok_def)
  have w: "fleet_ok E key recs \<lparr>fl_hub = ?h, fl_dev = fl_dev w\<rparr>" "w' = \<lparr>fl_hub = h', fl_dev = (fl_dev w)(i := s')\<rparr>"
    using pushes(1) assms(4) by (simp add: fleet_ok_def) (cases w, simp add: pushes(1))
  have g: "paths_distinct ?g" "covers rs ?g = covers rs (store ?s)" for rs
    using ok distinct_purged covers_row_cong [OF gc_kept(1) [OF pushes(4)]] by (simp_all add: device_ok_def)
  have same: ?thesis if "device_ok key ?h recs s'" "h' = ?h"
  proof -
    have "fleet_ok E key recs w'" using that assms(4) w(2) by (simp add: fleet_ok_def)
    then show ?thesis by blast
  qed
  have stored: ?thesis if "stored_upload (last_synced_version ?s) (uploaded (E i) ?s) ?h h'" "device_ok key h' (table ?g) s'"
  proof -
    note st = stored_ok [OF that(1) w(1) refl assms(3) pushes(4,5) that(2)]
    have "fleet_ok E key (table ?g) w'" using st(1) w(2) by simp
    with covered_in_table [OF st(2)] show ?thesis by blast
  qed
  have edited: "covers rs (fold ms_step ops ?g) = True" "paths_distinct (fold ms_step ops ?g)" if "covers rs ?g" for rs
    using that covers_edits [OF pushes(2)] distinct_run [OF pushes(2) g(1)] by simp_all
  from pushes(3) assms(2) show ?thesis
  proof (cases rule: push_cases)
    case 1
    then have "device_ok key ?h recs s'" using ok by (simp add: device_ok_def)
    with same 1(4) show ?thesis by blast
  next
    case 2
    then have "device_ok key ?h recs s'" using ok g by (simp add: device_ok_def)
    with same 2(4) show ?thesis by blast
  next
    case 3
    from 3(4) show ?thesis
    proof
      assume "h' = ?h"
      moreover have "device_ok key ?h recs s'"
        using 3 ok g(2) edited distinct_run [OF pushes(2) g(1)] by (simp add: device_ok_def)
      ultimately show ?thesis using same by blast
    next
      assume st: "stored_upload (last_synced_version ?s) (uploaded (E i) ?s) ?h h'"
      then have "device_ok key h' (table ?g) s'"
        using 3 ok distinct_run [OF pushes(2) g(1)] by (simp add: device_ok_def stored_upload_def)
      with stored st show ?thesis by blast
    qed
  next
    case (4 fs)
    have "covers (table ?g) (store s')" "paths_distinct (store s')"
      using 4(1) covers_marked edited [OF covers_own_table [OF g(1)]] distinct_marked by simp_all
    then have "device_ok key h' (table ?g) s'"
      using 4(2,3,4) ok by (auto simp: device_ok_def stored_upload_def)
    with stored 4(4) show ?thesis by blast
  qed
qed

lemma fleet_ok_run:
  assumes "(fleet_step sv E)\<^sup>*\<^sup>* w w'" and "cas_server sv" and "good_envs E" and "fleet_ok E key recs w"
  shows "\<exists>recs'. fleet_ok E key recs' w'"
  using assms(1)
proof (induction rule: rtranclp_induct)
  case base
  then show ?case using assms(4) by blast
next
  case (step y z)
  then obtain recs' where "fleet_ok E key recs' y" by blast
  from fleet_ok_step [OF step.hyps(2) assms(2,3) this] show ?case by blast
qed

lemma hub_holds_unique: "hub_holds E key h a \<Longrightarrow> hub_holds E key h b \<Longrightarrow> a = b"
  by (simp add: hub_holds_def)

text \<open>C3: However the devices of a user interleave their edits, downloads and uploads, an upload that the
  server accepts drops no file that another device uploaded: every live record of the server's
  database is in the new one, at its path and in at least its version (a tombstone counts), for
  edits that create, change or delete files, within the retention of tombstones and as long as
  conflicts are resolved.\<close>

theorem uploads_drop_no_file:
  assumes "cas_server sv" and "good_envs E" and "fleet_ok E key start w0"
    and "(fleet_step sv E)\<^sup>*\<^sup>* w0 w" and "fleet_step sv E w w'"
    and "hub_holds E key (fl_hub w) recs" and "hub_holds E key (fl_hub w') recs'"
    and "m \<in> set recs" and "\<not> deleted m"
  shows "\<exists>m' \<in> set recs'. virtual_path m' = virtual_path m \<and> version m \<le> version m'"
proof -
  obtain r where r: "fleet_ok E key r w" using fleet_ok_run [OF assms(4,1,2,3)] by blast
  then have "r = recs" using hub_holds_unique assms(6) by (auto simp: fleet_ok_def)
  obtain r' where r': "fleet_ok E key r' w'"
      "\<forall>m \<in> set r. \<not> deleted m \<longrightarrow> (\<exists>m' \<in> set r'. virtual_path m' = virtual_path m \<and> version m \<le> version m')"
    using fleet_ok_step [OF assms(5,1,2) r] by blast
  then have "r' = recs'" using hub_holds_unique assms(7) by (auto simp: fleet_ok_def)
  with r'(2) \<open>r = recs\<close> assms(8,9) show ?thesis by blast
qed

section \<open>An example\<close>

text \<open>A server that counts, holding \<open>/f\<close>; a device that has it adds \<open>/g\<close> and uploads.\<close>

definition counting_server :: "int \<Rightarrow> bytes \<Rightarrow> hub \<Rightarrow> answer \<times> hub" where
  "counting_server base b h =
     (if base = hub_version h
      then (Resp 200 (version_body (hub_version h + 1) None), \<lparr>hub_version = hub_version h + 1, hub_blob = b\<rparr>)
      else (Resp 409 (version_body (hub_version h) None), h))"

lemma counting_cas: "cas_server counting_server"
  by (simp add: cas_server_def counting_server_def stored_upload_def accepted_def says_version_def version_body_def)

definition two_files :: mstore where
  "two_files = insert_file ''/g'' ''s'' ''q'' 1 0 0 (Some ''d'') (empty_store\<lparr>files := [known_row ''/f'' 2 ''x'']\<rparr>)"

definition fleet_env :: sync_env where
  "fleet_env = sample_sync_env\<lparr>parse_db := \<lambda>b. Some (if length b = 1 then [edit_meta ''/f'' 2 ''x''] else table two_files)\<rparr>"

definition adding_device :: sync where
  "adding_device = (sync_init (sample_volume\<lparr>md := two_files\<rparr>) (Some [1, 2]) None [])\<lparr>last_synced_version := 1\<rparr>"

definition fleet_before :: fleet where
  "fleet_before = \<lparr>fl_hub = \<lparr>hub_version = 1, hub_blob = encrypt_blob fleet_env (Some [1, 2]) [1]\<rparr>, fl_dev = \<lambda>i. adding_device\<rparr>"

definition fleet_after :: fleet where
  "fleet_after = fleet_before\<lparr>fl_hub := \<lparr>hub_version = 2, hub_blob = uploaded fleet_env adding_device\<rparr>,
     fl_dev := (\<lambda>i. adding_device)(0 := fst (push counting_server fleet_env [] (fl_hub fleet_before) adding_device))\<rparr>"

lemma fleet_env_good: "good_envs (\<lambda>i. fleet_env)"
  by (simp add: good_envs_def fleet_env_def sample_sync_env_def aead_toy)

lemma adding_store: "store adding_device = two_files" "tombstones_kept fleet_env adding_device"
  "files (store (gc_tombstones fleet_env adding_device)) = files two_files"
proof -
  show s: "store adding_device = two_files" by (simp add: adding_device_def sync_init_def store_def)
  show k: "tombstones_kept fleet_env adding_device"
    unfolding tombstones_kept_def s
    by (simp add: two_files_def insert_file_def row_def empty_store_def known_row_def server_row_def edit_meta_def
        add_row_def commit_def expired_def)
  show "files (store (gc_tombstones fleet_env adding_device)) = files two_files"
    using gc_kept(2) [OF k] s by simp
qed

lemma two_files_rows: "files two_files = [known_row ''/f'' 2 ''x'', the (row two_files ''/g'')]"
  "paths_distinct two_files" "row two_files ''/f'' = Some (known_row ''/f'' 2 ''x'')" "length (files two_files) = 2"
  "get_pending_files two_files \<noteq> []"
  by code_simp+

lemma fleet_before_ok: "fleet_ok (\<lambda>i. fleet_env) (Some [1, 2]) [edit_meta ''/f'' 2 ''x''] fleet_before"
proof -
  have "decrypt_blob fleet_env (Some [1, 2]) (encrypt_blob fleet_env (Some [1, 2]) [1]) = Inr [1]"
    by (rule blob_roundtrip) (simp_all add: fleet_env_def sample_sync_env_def aead_toy)
  then have "hub_holds (\<lambda>i. fleet_env) (Some [1, 2]) (fl_hub fleet_before) [edit_meta ''/f'' 2 ''x'']"
    by (simp add: hub_holds_def opened_def fleet_before_def fleet_env_def)
  moreover have "covers [edit_meta ''/f'' 2 ''x''] two_files"
    using two_files_rows(3) by (simp add: covers_def has_version_def edit_meta_def)
  ultimately show ?thesis
    using two_files_rows(2) adding_store(1)
    by (simp add: fleet_ok_def device_ok_def fleet_before_def adding_device_def sync_init_def)
qed

lemma fleet_pushes: "fleet_step counting_server (\<lambda>i. fleet_env) fleet_before fleet_after"
proof -
  have len: "length (files (store (gc_tombstones fleet_env adding_device))) = 2"
    using adding_store(3) two_files_rows(4) by simp
  have t: "table (store (gc_tombstones fleet_env adding_device)) = table two_files"
    using adding_store(3) by (simp add: table_def)
  have "get_pending_files (store (gc_tombstones fleet_env adding_device)) \<noteq> []"
    using adding_store(3) two_files_rows(5) by (simp add: get_pending_files_def)
  then have "push counting_server fleet_env [] (fl_hub fleet_before) adding_device =
      (fst (push counting_server fleet_env [] (fl_hub fleet_before) adding_device), \<lparr>hub_version = 2, hub_blob = uploaded fleet_env adding_device\<rparr>)"
    by (simp add: push_def counting_server_def fleet_before_def adding_device_def sync_init_def fleet_env_def sample_sync_env_def)
  moreover have "readable (\<lambda>i. fleet_env) 0 (store (gc_tombstones fleet_env adding_device))"
    using len t by (simp add: readable_def fleet_env_def sample_sync_env_def)
  ultimately show ?thesis
    using fleet_step.pushes [of "[]" counting_server "\<lambda>i. fleet_env" 0 fleet_before] adding_store(2)
    by (simp add: fleet_after_def fleet_before_def)
qed

theorem uploads_drop_no_file_witness:
  "\<exists>m' \<in> set (table two_files). virtual_path m' = ''/f'' \<and> 2 \<le> version m'"
proof -
  have "hub_holds (\<lambda>i. fleet_env) (Some [1, 2]) (fl_hub fleet_after) (table two_files)"
  proof -
    have r: "readable (\<lambda>i. fleet_env) 0 (store (gc_tombstones fleet_env adding_device))"
      using adding_store(3) two_files_rows(4) by (simp add: readable_def fleet_env_def sample_sync_env_def table_def)
    have "table (store (gc_tombstones fleet_env adding_device)) = table two_files"
      using adding_store(3) by (simp add: table_def)
    with uploaded_opens [OF fleet_env_good r, of "Some [1, 2]"] show ?thesis
      by (simp add: hub_holds_def fleet_after_def adding_device_def sync_init_def)
  qed
  from uploads_drop_no_file [OF counting_cas fleet_env_good fleet_before_ok rtranclp.rtrancl_refl fleet_pushes _ this,
      of "[edit_meta ''/f'' 2 ''x'']" "edit_meta ''/f'' 2 ''x''"] fleet_before_ok
  show ?thesis by (simp add: fleet_ok_def edit_meta_def)
qed

section \<open>A deletion that does not arrive\<close>

text \<open>
  A device that has never had a file keeps no tombstone of it: if it uploads between the device that
  deleted the file and one that was away, the latter keeps the file, and brings it back to others.
\<close>

definition tombstone_of :: "file_row \<Rightarrow> file_row" where
  "tombstone_of r = r\<lparr>deleted := True, version := version r + 1\<rparr>"

lemma deletion_forgotten:
  "let e = sample_sync_env;
       deleter = empty_store\<lparr>files := [tombstone_of (known_row ''/f'' 1 ''x'')]\<rparr>;
       between = fold (merge_record e) (table deleter) (sample_volume\<lparr>md := empty_store\<rparr>);
       away = fold (merge_record e) (table (md between)) (sample_volume\<lparr>md := empty_store\<lparr>files := [known_row ''/f'' 1 ''x'']\<rparr>\<rparr>);
       again = fold (merge_record e) (table (md away)) between
   in lookup ''/f'' deleter = None \<and> row (md between) ''/f'' = None \<and>
     lookup ''/f'' (md away) \<noteq> None \<and> lookup ''/f'' (md again) \<noteq> None"
  by code_simp

end
