(* ===== verification/Backup_Restore.thy ===== *)
theory Backup_Restore
  imports Replication_Manager P2P_Server
begin

text \<open>
  The requests of \<^verbatim>\<open>stardustlib/replication_manager.py\<close> on the wire, to the server that keeps the
  registry and to the devices that keep the chunks, and the way of a file from the backup on one
  device over the hosts (P2P_Server, Parity_Store) to the recovery on another. The server is not part
  of the repository: its answers are the record \<open>control_plane\<close>, what the theorem needs of them is the
  hypothesis \<open>registry_serves\<close>. What the hosts answer is computed by their own code.
\<close>

section \<open>Requests to the server\<close>

text \<open>An answer is the status and the parsed body, \<open>None\<close> if it is not JSON of the expected form.\<close>

record control_plane =
  cp_register :: "string \<Rightarrow> string \<Rightarrow> int \<Rightarrow> int \<Rightarrow> unit direct"
  cp_placement :: "int \<Rightarrow> nat \<Rightarrow> string list \<Rightarrow> holder list option direct"
  cp_record :: "string \<Rightarrow> string \<Rightarrow> unit direct"
  cp_chunks :: "string \<Rightarrow> (string \<times> int) list option direct"
  cp_replicas :: "string \<Rightarrow> holder list option direct"

definition listing :: "'a list option direct \<Rightarrow> 'a list result" where
  "listing a = (case a of
     Unreachable \<Rightarrow> Inl NetworkError
   | Answer st body \<Rightarrow> if st \<noteq> 200 then Inr [] else
       (case body of None \<Rightarrow> Inl JSONDecodeError | Some xs \<Rightarrow> Inr xs))"

definition register_chunk :: "control_plane \<Rightarrow> string \<Rightarrow> string \<Rightarrow> int \<Rightarrow> int \<Rightarrow> unit result" where
  "register_chunk cp cid ref idx n = (case cp_register cp cid ref idx n of
     Unreachable \<Rightarrow> Inl NetworkError | Answer _ _ \<Rightarrow> Inr ())"

definition placement :: "control_plane \<Rightarrow> int \<Rightarrow> nat \<Rightarrow> string list \<Rightarrow> holder list result" where
  "placement cp n wanted exclude = listing (cp_placement cp n wanted exclude)"

definition record_replica :: "control_plane \<Rightarrow> string \<Rightarrow> string \<Rightarrow> bool result" where
  "record_replica cp cid dv = (case cp_record cp cid dv of
     Unreachable \<Rightarrow> Inl NetworkError | Answer st _ \<Rightarrow> Inr (st = 200))"

definition list_chunks :: "control_plane \<Rightarrow> string \<Rightarrow> (string \<times> int) list result" where
  "list_chunks cp ref = listing (cp_chunks cp ref)"

definition list_replicas :: "control_plane \<Rightarrow> string \<Rightarrow> holder list result" where
  "list_replicas cp cid = listing (cp_replicas cp cid)"

section \<open>Requests to the hosts\<close>

definition store_body :: "string \<Rightarrow> bytes \<Rightarrow> string option \<Rightarrow> request" where
  "store_body cid d tok = \<lparr>rq_source = None, rq_path = None, rq_data = Some (b64encode d),
     rq_chunk = Some cid, rq_auth = tok, rq_share = None\<rparr>"

definition fetch_body :: "string \<Rightarrow> string option \<Rightarrow> request" where
  "fetch_body cid tok = \<lparr>rq_source = None, rq_path = None, rq_data = None,
     rq_chunk = Some cid, rq_auth = tok, rq_share = None\<rparr>"

text \<open>Which device answers at an address, which ones wait at the relay, and what the server answers to
  each of them.\<close>

record network =
  at_address :: "string \<Rightarrow> string option"
  relayed :: "string \<Rightarrow> bool"
  host_env :: "string \<Rightarrow> p2p_env"

datatype channel = Straight | Relayed_Call

type_synonym hosts = "string \<Rightarrow> p2p"

text \<open>A direct request carries the token of its user, a relayed one is served for the user of the
  device itself.\<close>

fun push_over :: "p2p_env \<Rightarrow> string \<Rightarrow> channel \<Rightarrow> string \<Rightarrow> bytes \<Rightarrow> p2p \<Rightarrow> response result \<times> p2p" where
  "push_over pe tok Straight cid d st = handle_replica pe RepStore (Some (store_body cid d (Some tok))) st"
| "push_over pe tok Relayed_Call cid d st = apfst Inr (dispatch pe ''replica_store'' (store_body cid d None) st)"

fun pull_over :: "p2p_env \<Rightarrow> string \<Rightarrow> channel \<Rightarrow> string \<Rightarrow> p2p \<Rightarrow> response result" where
  "pull_over pe tok Straight cid st = fst (handle_replica pe RepFetch (Some (fetch_body cid (Some tok))) st)"
| "pull_over pe tok Relayed_Call cid st = Inr (fst (dispatch pe ''replica_fetch'' (fetch_body cid None) st))"

fun http_status :: "response result \<Rightarrow> int" where
  "http_status (Inr (st, r)) = st"
| "http_status (Inl x) = 500"

text \<open>\<open>base64.b64decode(resp.json()["data"])\<close>, \<open>None\<close> for \<open>KeyError\<close> and \<open>ValueError\<close>.\<close>

fun fetched :: "response result \<Rightarrow> bytes option" where
  "fetched (Inr (st, RData s)) = b64decode s"
| "fetched _ = None"

text \<open>The environment of the manager when the hosts are in the states \<open>h\<close>.\<close>

definition wire_env ::
  "control_plane \<Rightarrow> network \<Rightarrow> string result \<Rightarrow> string option \<Rightarrow> (string \<Rightarrow> string) \<Rightarrow> hosts \<Rightarrow> rep_env" where
  "wire_env cp net auth me hash h =
     (let tok = (case auth of Inl _ \<Rightarrow> [] | Inr t \<Rightarrow> t) in
      \<lparr>token = map_sum id (\<lambda>_. ()) auth, user_id = me, sha = hash,
       register_answer = register_chunk cp, placement_answer = placement cp,
       record_answer = record_replica cp, chunks_answer = list_chunks cp,
       replicas_answer = list_replicas cp,
       direct_store = (\<lambda>a cid d. case at_address net a of None \<Rightarrow> Unreachable
         | Some dv \<Rightarrow> Answer (http_status (fst (push_over (host_env net dv) tok Straight cid d (h dv)))) ()),
       relay_store = (\<lambda>dv cid d. relayed net dv \<and>
         http_status (fst (push_over (host_env net dv) tok Relayed_Call cid d (h dv))) = 200),
       direct_fetch = (\<lambda>a cid. case at_address net a of None \<Rightarrow> Unreachable
         | Some dv \<Rightarrow> (let r = pull_over (host_env net dv) tok Straight cid (h dv) in
             Answer (http_status r) (fetched r))),
       relay_fetch = (\<lambda>dv cid. let r = pull_over (host_env net dv) tok Relayed_Call cid (h dv) in
         if relayed net dv \<and> http_status r = 200 then fetched r else None)\<rparr>)"

lemma wire_simps [simp]:
  "user_id (wire_env cp net auth me hash h) = me" "sha (wire_env cp net auth me hash h) = hash"
  "chunks_answer (wire_env cp net auth me hash h) = list_chunks cp"
  "replicas_answer (wire_env cp net auth me hash h) = list_replicas cp"
  "token (wire_env cp net (Inr t) me hash h) = Inr ()"
  by (simp_all add: wire_env_def Let_def)

section \<open>What a host keeps\<close>

text \<open>No store request of anyone spoils a chunk that \<open>u\<close> can fetch, unless it is \<open>u\<close>'s own, for the same
  chunk id and with other content.\<close>

lemma put_keeps_chunk:
  assumes "fetchable cid u d st" and "c = cid \<and> w = u \<longrightarrow> b = d"
  shows "fetchable cid u d (snd (op_replica_store (store_body c b t) w st))"
proof (cases "w = u")
  case False
  then show ?thesis using run_replica_foreign [OF False assms(1), of RepStore "store_body c b t"] by simp
next
  case same: True
  obtain ps where ps: "parity st = Some ps" "parity_fetch cid u ps = Inr d"
    using assms(1) by (auto simp: fetchable_def split: option.splits)
  obtain x ps' where put: "parity_put c u b ps = (x, ps')" by (cases "parity_put c u b ps")
  have "parity_fetch cid u ps' = Inr d"
  proof (cases "c = cid \<and> x = Inr ()")
    case True
    then show ?thesis using parity.put_get [of c u b ps ps'] put assms(2) same by simp
  next
    case False
    then show ?thesis
      using parity.put_frame [of cid c u u b ps] put_failed_unchanged [of c u b ps _ ps'] put ps(2)
      by (cases x) auto
  qed
  then show ?thesis
    using ps put same by (simp add: op_replica_store_def fetchable_def store_body_def get_str_def Let_def)
qed

lemma push_keeps_chunk:
  assumes "fetchable cid u d st" and "c = cid \<longrightarrow> b = d"
  shows "fetchable cid u d (snd (push_over pe tok ch c b st))"
  using assms put_keeps_chunk [OF assms(1)]
  by (cases ch) (auto simp: handle_replica_def dispatch_def replica_map_def
      parse_and_verify_any_user_def split: sum.split if_splits)

lemma refusal_status: "parse_and_verify_any_user pe body = Inl (code, y) \<Longrightarrow> code \<noteq> 200"
  by (auto simp: parse_and_verify_any_user_def verify_token_def
      split: option.splits direct.splits sum.splits if_splits)

lemma parsed_body: "parse_and_verify_any_user pe (Some rq) = Inr (rq', w) \<Longrightarrow> rq' = rq"
  by (auto simp: parse_and_verify_any_user_def split: sum.splits if_splits)

text \<open>The token is \<open>u\<close>'s: a device that gets it confirmed, gets it confirmed for \<open>u\<close>.\<close>

definition token_of_user :: "network \<Rightarrow> string \<Rightarrow> string \<Rightarrow> bool" where
  "token_of_user net tok u \<longleftrightarrow>
     (\<forall>dv ti. verify_answer (host_env net dv) tok = Answer 200 ti \<longrightarrow> ti_valid ti \<longrightarrow> ti_user ti = Some u)"

lemma push_stores_chunk:
  assumes "push_over (host_env net dv) tok ch c b st = (Inr (200, y), st')"
    and "token_of_user net tok u" and "ch = Relayed_Call \<longrightarrow> local_user st = Some u"
  shows "fetchable c (Some u) b st'"
proof -
  have "\<exists>t. op_replica_store (store_body c b t) (Some u) st = (Inr (200, y), st')"
  proof (cases ch)
    case Straight
    then show ?thesis
      using assms(1,2)
      by (auto simp: handle_replica_def parse_and_verify_any_user_def verify_token_def token_of_user_def
          store_body_def split: sum.splits if_splits direct.splits)
  next
    case Relayed_Call
    then show ?thesis
      using assms(1,3)
      by (intro exI [of _ None]) (auto simp: dispatch_def replica_map_def apfst_def map_prod_def caught_def
          split: prod.splits sum.splits)
  qed
  then obtain t where "op_replica_store (store_body c b t) (Some u) st = (Inr (200, y), st')" ..
  from store_accepted [OF this] show ?thesis by (simp add: store_body_def get_str_def)
qed

section \<open>Deliveries\<close>

text \<open>
  What the events of a backup by \<open>u\<close> do to the hosts: a push may get lost or arrive, one that the host
  answered with 200 is followed by the record request, and at any time a host may serve requests of
  other users or get a new quota.
\<close>

inductive delivers :: "network \<Rightarrow> string \<Rightarrow> string \<Rightarrow> event list \<Rightarrow> hosts \<Rightarrow> hosts \<Rightarrow> bool"
  for net tok u where
  delivered: "delivers net tok u [] h h"
| registration: "delivers net tok u ev h h' \<Longrightarrow> delivers net tok u (Registered c r i n # ev) h h'"
| push_lost: "delivers net tok u ev h h' \<Longrightarrow> delivers net tok u (Pushed dv c b # ev) h h'"
| push_arrives: "push_over (host_env net dv) tok ch c b (h dv) = (x, st) \<Longrightarrow>
    delivers net tok u ev (h(dv := st)) h' \<Longrightarrow> delivers net tok u (Pushed (Some dv) c b # ev) h h'"
| push_accepted: "push_over (host_env net dv) tok ch c b (h dv) = (Inr (200, y), st) \<Longrightarrow>
    (ch = Relayed_Call \<longrightarrow> local_user (h dv) = Some u) \<Longrightarrow>
    delivers net tok u ev (h(dv := st)) h' \<Longrightarrow>
    delivers net tok u (Pushed (Some dv) c b # Recorded c dv ok # ev) h h'"
| other_request: "acts_for (host_env net dv) (local_user (h dv)) x \<noteq> Some (Some u) \<Longrightarrow>
    delivers net tok u ev (h(dv := p2p_step (host_env net dv) x (h dv))) h' \<Longrightarrow>
    delivers net tok u ev h h'"

text \<open>A chunk that is on a host stays there, and one that was recorded for it is there at the end.\<close>

lemma delivers_keeps:
  assumes "delivers net tok u ev h h'" and "token_of_user net tok u"
    and "\<forall>dv b. Pushed dv cid b \<in> set ev \<longrightarrow> b = d"
    and "fetchable cid (Some u) d (h dv) \<or> (\<exists>ok. Recorded cid dv ok \<in> set ev)"
  shows "fetchable cid (Some u) d (h' dv)"
  using assms(1,3,4)
proof (induction rule: delivers.induct)
  case (push_arrives dv' ch c b h x st ev h')
  have "fetchable cid (Some u) d ((h(dv' := st)) dv)" if "fetchable cid (Some u) d (h dv)"
    using push_keeps_chunk [of cid "Some u" d "h dv'" c b "host_env net dv'" tok ch] push_arrives that by auto
  then show ?case using push_arrives by auto
next
  case (push_accepted dv' ch c b h y st ev h' ok)
  have "fetchable cid (Some u) d ((h(dv' := st)) dv)"
    if "fetchable cid (Some u) d (h dv) \<or> c = cid \<and> dv' = dv"
  proof (cases "c = cid \<and> dv' = dv")
    case True
    then have "b = d" using push_accepted.prems(1) by simp
    with True show ?thesis
      using push_stores_chunk [OF push_accepted.hyps(1) assms(2) push_accepted.hyps(2)] by simp
  next
    case False
    then show ?thesis
      using push_keeps_chunk [of cid "Some u" d "h dv'" c b "host_env net dv'" tok ch] push_accepted that by auto
  qed
  then show ?case using push_accepted by auto
next
  case (other_request dv' h x ev h')
  then show ?case using p2p_step_foreign [OF other_request.hyps(1)] by (cases "dv = dv'") auto
qed auto

text \<open>Nobody but \<open>u\<close> fetches \<open>u\<close>'s chunk, so whoever asks gets it or nothing.\<close>

lemma op_fetch_right:
  assumes "fetchable cid (Some u) d st" and "op_replica_fetch (fetch_body cid t) w st = (Inr (200, y), st')"
  shows "y = RData (b64encode d)"
proof -
  obtain ps where ps: "parity st = Some ps" "parity_fetch cid (Some u) ps = Inr d"
    using assms(1) by (auto simp: fetchable_def split: option.splits)
  have "\<exists>d'. parity_fetch cid w ps = Inr d' \<and> y = RData (b64encode d')"
    using assms(2) ps(1)
    by (cases "parity_fetch cid w ps")
      (auto simp: op_replica_fetch_def fetch_body_def get_str_def split: exn.splits)
  then show ?thesis using ps(2) parity.unique_reader [OF ps(2)] by auto
qed

lemma pull_right:
  assumes "fetchable cid (Some u) d st" and "http_status (pull_over pe tok ch cid st) = 200"
  shows "fetched (pull_over pe tok ch cid st) = Some d"
proof -
  obtain y where y: "pull_over pe tok ch cid st = Inr (200, y)"
    using assms(2) by (cases "pull_over pe tok ch cid st" rule: http_status.cases) auto
  obtain t w where "fst (op_replica_fetch (fetch_body cid t) w st) = Inr (200, y)"
  proof (cases ch)
    case Straight
    then show ?thesis using y that refusal_status [of pe _ 200]
      by (auto simp: handle_replica_def split: sum.splits dest: parsed_body)
  next
    case Relayed_Call
    then show ?thesis using y
      by (intro that [of None "local_user st"])
        (auto simp: dispatch_def replica_map_def caught_def split: sum.splits prod.splits)
  qed
  then have "y = RData (b64encode d)"
    using op_fetch_right [OF assms(1)] by (metis prod.collapse)
  then show ?thesis by (simp add: y)
qed

section \<open>Asking the holders\<close>

text \<open>The address the server lists for a holder reaches nobody or that holder.\<close>

definition address_right :: "network \<Rightarrow> holder \<Rightarrow> bool" where
  "address_right net x \<longleftrightarrow> (\<forall>a dv. h_address x = Some a \<longrightarrow> at_address net a = Some dv \<longrightarrow> h_device x = Some dv)"

text \<open>A holder that is not known to be offline and lets the request of \<open>u\<close> through.\<close>

definition holder_answers :: "network \<Rightarrow> string \<Rightarrow> string \<Rightarrow> hosts \<Rightarrow> holder \<Rightarrow> bool" where
  "holder_answers net tok u h x \<longleftrightarrow> online x \<and> truthy (h_device x) \<and>
     (let dv = the (h_device x) in
      if truthy (h_address x) \<and> at_address net (the (h_address x)) \<noteq> None
      then verify_answer (host_env net dv) tok = Answer 200 \<lparr>ti_valid = True, ti_user = Some u\<rparr>
      else relayed net dv \<and> local_user (h dv) = Some u)"

lemma pull_answered:
  assumes "fetchable cid (Some u) d st"
  shows "tok \<noteq> [] \<Longrightarrow> u \<noteq> [] \<Longrightarrow> verify_answer pe tok = Answer 200 \<lparr>ti_valid = True, ti_user = Some u\<rparr> \<Longrightarrow>
      http_status (pull_over pe tok Straight cid st) = 200"
    and "local_user st = Some u \<Longrightarrow> http_status (pull_over pe tok Relayed_Call cid st) = 200"
  using assms
  by (auto simp: handle_replica_def parse_and_verify_any_user_def verify_token_def fetch_body_def truthy_def
      op_replica_fetch_def get_str_def fetchable_def dispatch_def replica_map_def caught_def split: option.splits)

lemma holder_gives_chunk_or_nothing:
  assumes "h_device x = Some dv" and "fetchable cid (Some u) d (h dv)" and "address_right net x"
  shows "holder_fetch (wire_env cp net (Inr tok) me hash h) (h_device x) (h_address x) cid \<in> {None, Some d}"
  using assms pull_right [OF assms(2)]
  by (auto simp: holder_fetch_def wire_env_def Let_def address_right_def truthy_def simp del: pull_over.simps
      split: option.split)

lemma answering_holder_gives_chunk:
  assumes "holder_answers net tok u h x" and "fetchable cid (Some u) d (h (the (h_device x)))"
    and "address_right net x" and "tok \<noteq> []" and "u \<noteq> []"
  shows "holder_fetch (wire_env cp net (Inr tok) me hash h) (h_device x) (h_address x) cid = Some d"
proof -
  obtain dv where dv: "h_device x = Some dv" "dv \<noteq> []" "fetchable cid (Some u) d (h dv)"
    using assms(1,2) by (auto simp: holder_answers_def truthy_def)
  note simps = holder_fetch_def wire_env_def Let_def truthy_def dv
  show ?thesis
  proof (cases "truthy (h_address x) \<and> at_address net (the (h_address x)) \<noteq> None")
    case True
    then obtain a where a: "h_address x = Some a" "a \<noteq> []" "at_address net a = Some dv"
      using assms(3) dv(1) by (auto simp: truthy_def address_right_def)
    then have "http_status (pull_over (host_env net dv) tok Straight cid (h dv)) = 200"
      using assms(1,4,5) dv(1) pull_answered(1) [OF dv(3)] by (simp add: holder_answers_def truthy_def)
    with a show ?thesis using pull_right [OF dv(3)] by (simp add: simps del: pull_over.simps)
  next
    case False
    then have "relayed net dv" "http_status (pull_over (host_env net dv) tok Relayed_Call cid (h dv)) = 200"
      using assms(1) dv(1) pull_answered(2) [OF dv(3)] by (auto simp: holder_answers_def Let_def simp del: pull_over.simps)
    with False show ?thesis
      using pull_right [OF dv(3)] by (auto simp: simps simp del: pull_over.simps split: option.split)
  qed
qed

lemma fetch_loop_finds:
  assumes "\<forall>x \<in> set hs. holder_fetch e (h_device x) (h_address x) cid \<in> {None, Some d}"
    and "\<exists>x \<in> set hs. online x \<and> truthy (h_device x) \<and> holder_fetch e (h_device x) (h_address x) cid = Some d"
  shows "fetch_loop e cid hs = Some d"
  using assms by (induction hs) (auto split: option.split)

section \<open>The registry\<close>

definition registered :: "string \<Rightarrow> event list \<Rightarrow> (string \<times> int) list" where
  "registered ref ev = List.map_filter
     (\<lambda>x. case x of Registered c r i n \<Rightarrow> if r = ref then Some (c, i) else None | _ \<Rightarrow> None) ev"

lemma registered_simps [simp]:
  "registered ref [] = []" "registered ref (Pushed dv c b # ev) = registered ref ev"
  "registered ref (Recorded c x ok # ev) = registered ref ev"
  "registered ref (Registered c r i n # ev) = (if r = ref then [(c, i)] else []) @ registered ref ev"
  "registered ref (ev @ ev') = registered ref ev @ registered ref ev'"
  by (simp_all add: registered_def map_filter_simps) (simp add: map_filter_def)

lemma place_registers_nothing: "place e limit cid d n hs = (r, ev) \<Longrightarrow> registered ref ev = []"
proof (induction hs arbitrary: n ev r)
  case (Cons h hs)
  from Cons.prems show ?case
    by (rule place_Cons_cases) (use Cons.IH in \<open>auto\<close>)
qed simp

lemma replicate_loop_registers:
  "replicate_loop e m ref cs = (Inr ns, ev) \<Longrightarrow>
    registered ref ev = map (\<lambda>(idx, d). (chunk_id e ref idx, idx)) cs"
proof (induction cs arbitrary: ns ev)
  case (Cons c cs)
  obtain idx d where c: "c = (idx, d)" by (cases c)
  obtain n ev1 where r1: "replicate_chunk e m ref c = (Inr n, ev1)"
    using Cons.prems by (cases "replicate_chunk e m ref c") (auto split: sum.splits)
  obtain ms ev2 where r2: "replicate_loop e m ref cs = (Inr ms, ev2)"
    using Cons.prems r1 by (cases "replicate_loop e m ref cs") (auto split: sum.splits)
  have "registered ref ev1 = [(chunk_id e ref idx, idx)]"
    using r1 c place_registers_nothing [where ref = ref]
    by (fastforce simp: replicate_chunk_def Let_def apsnd_def map_prod_def split: sum.splits prod.splits)
  then show ?case using Cons.prems Cons.IH [OF r2] r1 r2 c by auto
qed simp

text \<open>
  What the server is asked for: it lists exactly the chunks that were registered for the file, in some
  order, and as holders of each exactly the devices whose record request it accepted.
\<close>

definition registry_serves :: "control_plane \<Rightarrow> string \<Rightarrow> event list \<Rightarrow> bool" where
  "registry_serves cp ref ev \<longleftrightarrow>
     (\<exists>infos. list_chunks cp ref = Inr infos \<and> mset infos = mset (registered ref ev)) \<and>
     (\<forall>cid \<in> fst ` set (registered ref ev). \<exists>hs. list_replicas cp cid = Inr hs \<and>
        h_device ` set hs = {Some dv | dv. Recorded cid dv True \<in> set ev})"

lemma copies_recorded: "0 < copies cid ev \<Longrightarrow> \<exists>dv. Recorded cid dv True \<in> set ev"
  by (induction ev) (auto elim!: is_copy.elims simp: copies_def split: if_splits)

text \<open>Every chunk of the backup comes back.\<close>

lemma backed_up_chunk_fetched:
  assumes "replicate_loop e m ref cs = (Inr ns, ev)" and "list_all (\<lambda>n. 0 < n) ns"
    and "inj_on (chunk_id e ref) (fst ` set cs)" and "distinct (map fst cs)" and "(idx, d) \<in> set cs"
    and "delivers net tok u ev h h'" and "token_of_user net tok u" and "tok' \<noteq> []" and "u \<noteq> []"
    and "registry_serves cp ref ev"
    and "\<And>cid hs x. list_replicas cp cid = Inr hs \<Longrightarrow> x \<in> set hs \<Longrightarrow> address_right net' x"
    and "\<And>cid hs. list_replicas cp cid = Inr hs \<Longrightarrow> hs \<noteq> [] \<Longrightarrow> \<exists>x \<in> set hs. holder_answers net' tok' u h' x"
  shows "fetch_from_any_holder (wire_env cp net' (Inr tok') me hash h') (chunk_id e ref idx) = Inr (Some d)"
proof -
  let ?c = "chunk_id e ref idx" and ?e = "wire_env cp net' (Inr tok') me hash h'"
  have "1 \<le> copies ?c ev"
    using replicate_loop_copies [OF assms(1) _ assms(5), of 1] assms(2) by (simp add: Suc_le_eq)
  then obtain dv0 where dv0: "Recorded ?c dv0 True \<in> set ev" using copies_recorded [of ?c ev] by auto
  have "?c \<in> fst ` set (registered ref ev)"
    using replicate_loop_registers [OF assms(1)] assms(5) by force
  then obtain hs where hs: "list_replicas cp ?c = Inr hs"
    "h_device ` set hs = {Some dv | dv. Recorded ?c dv True \<in> set ev}"
    using assms(10) by (auto simp: registry_serves_def)
  have same: "b = d" if pushed: "Pushed dv ?c b \<in> set ev" for dv b
  proof -
    obtain i where i: "(i, b) \<in> set cs" "?c = chunk_id e ref i"
      using replicate_loop_events [OF assms(1) pushed] by auto
    then have "i = idx" using inj_onD [OF assms(3) i(2)] assms(5) by force
    then show ?thesis using i(1) assms(4,5) by (simp add: eq_key_imp_eq_value)
  qed
  have has: "\<exists>dv. h_device x = Some dv \<and> fetchable ?c (Some u) d (h' dv)" if x: "x \<in> set hs" for x
  proof -
    obtain dv where dv: "h_device x = Some dv" "Recorded ?c dv True \<in> set ev" using hs(2) x by blast
    then have "fetchable ?c (Some u) d (h' dv)"
      using delivers_keeps [OF assms(6,7), of ?c d dv] same by blast
    with dv show ?thesis by blast
  qed
  have "\<forall>x \<in> set hs. holder_fetch ?e (h_device x) (h_address x) ?c \<in> {None, Some d}"
    using has assms(11) [OF hs(1)] holder_gives_chunk_or_nothing by blast
  moreover have "hs \<noteq> []" using hs(2) dv0 by auto
  then obtain x where x: "x \<in> set hs" "holder_answers net' tok' u h' x" using assms(12) [OF hs(1)] by blast
  then have "holder_fetch ?e (h_device x) (h_address x) ?c = Some d"
    using has [OF x(1)] assms(11) [OF hs(1) x(1)] answering_holder_gives_chunk [OF x(2)] assms(8,9) by auto
  moreover have "online x \<and> truthy (h_device x)" using x(2) by (simp add: holder_answers_def)
  ultimately have "fetch_loop ?e ?c hs = Some d" using fetch_loop_finds x(1) by blast
  then show ?thesis using hs(1) by (simp add: fetch_from_any_holder_def)
qed

section \<open>Properties\<close>


text \<open>A backup of which every push is accepted over a direct connection.\<close>

fun deliver_all :: "network \<Rightarrow> string \<Rightarrow> event list \<Rightarrow> hosts \<Rightarrow> hosts option" where
  "deliver_all net tok [] h = Some h"
| "deliver_all net tok (Registered c r i n # ev) h = deliver_all net tok ev h"
| "deliver_all net tok (Pushed (Some dv) c b # Recorded c' dv' ok # ev) h =
     (case push_over (host_env net dv) tok Straight c b (h dv) of
       (x, st) \<Rightarrow> if c' = c \<and> dv' = dv \<and> http_status x = 200 then deliver_all net tok ev (h(dv := st)) else None)"
| "deliver_all net tok _ h = None"

lemma deliver_all_delivers: "deliver_all net tok ev h = Some h' \<Longrightarrow> delivers net tok u ev h h'"
proof (induction net tok ev h rule: deliver_all.induct)
  case (3 net tok dv c b c' dv' ok ev h)
  obtain x st where push: "push_over (host_env net dv) tok Straight c b (h dv) = (x, st)"
    by (cases "push_over (host_env net dv) tok Straight c b (h dv)")
  have "c' = c" "dv' = dv" "http_status x = 200" "deliver_all net tok ev (h(dv := st)) = Some h'"
    using 3(2) push by (auto simp del: push_over.simps split: if_splits)
  moreover obtain y where "x = Inr (200, y)"
    using \<open>http_status x = 200\<close> by (cases x rule: http_status.cases) auto
  moreover have "delivers net tok u ev (h(dv := st)) h'"
    using 3(1) [OF push [symmetric]] calculation by blast
  ultimately show ?case using push delivers.push_accepted by blast
qed (auto intro: delivers.intros)

definition sample_net :: network where
  "sample_net = \<lparr>at_address = (\<lambda>a. if a = ''a'' then Some ''h'' else None), relayed = (\<lambda>dv. False),
     host_env = (\<lambda>dv. sample_p2p_env)\<rparr>"

definition sample_owner :: rep_env where
  "sample_owner = (one_holder [])\<lparr>sha := replace_char CHR ''/'' CHR ''_''\<rparr>"

definition sample_backup :: "rep_result result \<times> event list \<times> jbod" where
  "sample_backup = replicate_file sample_owner sample_env sample_manager ''/a'' sample_full"

definition sample_hosts :: hosts where
  "sample_hosts = the (deliver_all sample_net ''u'' (fst (snd sample_backup)) (\<lambda>dv. sample_p2p))"

definition sample_server :: control_plane where
  "sample_server = \<lparr>cp_register = (\<lambda>c r i n. Answer 200 ()), cp_placement = (\<lambda>n k x. Answer 200 (Some [])),
     cp_record = (\<lambda>c dv. Answer 200 ()),
     cp_chunks = (\<lambda>r. Answer 200 (Some (rev (registered r (fst (snd sample_backup)))))),
     cp_replicas = (\<lambda>c. Answer 200 (Some [\<lparr>h_device = Some ''h'', h_address = Some ''a'', h_online = None\<rparr>]))\<rparr>"

lemma sample_registry: "registry_serves sample_server ''u:_a'' (fst (snd sample_backup))"
proof -
  let ?ev = "fst (snd sample_backup)"
  have "list_all (\<lambda>(cid, i). list_ex ((=) (Recorded cid ''h'' True)) ?ev) (registered ''u:_a'' ?ev)"
    by code_simp
  moreover have "list_all (\<lambda>x. case x of Recorded c dv ok \<Rightarrow> dv = ''h'' | _ \<Rightarrow> True) ?ev" by code_simp
  ultimately show ?thesis
    by (force simp: registry_serves_def list_chunks_def list_replicas_def listing_def sample_server_def
        list_all_iff list_ex_iff)
qed


section \<open>Divergences\<close>

text \<open>A registration that the server refuses goes unnoticed: the file counts as replicated, but the
  registry lists no chunk of it and the recovery fails.\<close>

lemma refused_registration_unnoticed:
  "let cp = sample_server\<lparr>cp_register := \<lambda>c r i n. Answer 500 (), cp_chunks := \<lambda>r. Answer 200 (Some []),
        cp_placement := \<lambda>n k x. cp_replicas sample_server ''c''\<rparr>;
      e = wire_env cp sample_net (Inr ''u'') (Some ''u'') (replace_char CHR ''/'' CHR ''_'') (\<lambda>dv. sample_p2p)
   in map_sum id rr_status (fst (replicate_file e sample_env sample_manager ''/a'' sample_full)) = Inr ''replicated'' \<and>
      fst (recover e sample_env ''/a'' sample_volume) = Inl (RecoveryError [])"
  by code_simp

text \<open>The chunks of an earlier, longer content stay registered, nothing in the code removes them. The
  recovery of the shorter file appends them and cannot decrypt the result.\<close>

lemma leftover_chunk_spoils_recovery:
  "fst (recover (one_holder (sample_chunks @ [(int (length sample_chunks), [9])])) sample_env ''/a'' sample_volume) =
     Inl IntegrityError"
  by code_simp

end
