(* ===== verification/Credential_File.thy ===== *)
theory Credential_File
  imports Auth_Client
begin

text \<open>
  \<^verbatim>\<open>stardustlib/credential_store.py\<close>, system call by system call: writing the credentials through a
  temporary file, restricting the permissions, waiting for the lock file and removing the files.
  Auth_Client sees the store as one file that changes in one step; here a crash, a failing call or a
  second process can come between any two steps. Files are inodes, because a file that is open for
  writing stays the same file when it is renamed. A file that is not completely written is
  \<open>CredBroken\<close>, no JSON.
\<close>

section \<open>The files\<close>

record cred_disk =
  cd_main :: "nat option"
  cd_tmp :: "nat option"
  cd_lock :: bool
  cd_inode :: "nat \<Rightarrow> cred_file \<times> bool"
  cd_next :: nat

text \<open>The second component of an inode says whether only the owner can read it.\<close>

definition body_of :: "cred_disk \<Rightarrow> cred_file" where
  "body_of d = (case cd_main d of None \<Rightarrow> CredAbsent | Some i \<Rightarrow> fst (cd_inode d i))"

definition cred_path :: "string \<Rightarrow> string" where
  "cred_path db = db @ ''.credentials.json''"

definition lock_path :: "string \<Rightarrow> string" where
  "lock_path db = cred_path db @ ''.lock''"

definition store_exists :: "cred_disk \<Rightarrow> bool" where
  "store_exists d \<longleftrightarrow> cd_main d \<noteq> None"

definition load_disk :: "cred_disk \<Rightarrow> credentials option result" where
  "load_disk d = (if \<not> store_exists d then Inr None else cred_load (body_of d))"

section \<open>Saving\<close>

datatype save_pc =
    MakeDirs | OpenTmp | WriteTmp | ChmodTmp | ReplaceMain | ChmodMain | Saved | SaveFailed exn

record saver =
  sv_pc :: save_pc
  sv_handle :: nat
  sv_data :: credentials

text \<open>What the operating system does: which call raises, whether \<open>chmod\<close> works (its failure is only
  logged), and whether a new file is readable by its owner only.\<close>

record disk_env =
  de_fault :: "save_pc \<Rightarrow> exn option"
  de_chmod :: bool
  de_umask :: bool

definition saver_init :: "credentials \<Rightarrow> saver" where
  "saver_init c = \<lparr>sv_pc = MakeDirs, sv_handle = 0, sv_data = c\<rparr>"

definition set_inode :: "nat \<Rightarrow> cred_file \<times> bool \<Rightarrow> cred_disk \<Rightarrow> cred_disk" where
  "set_inode i x d = d\<lparr>cd_inode := (cd_inode d)(i := x)\<rparr>"

definition restrict_permissions :: "disk_env \<Rightarrow> nat option \<Rightarrow> cred_disk \<Rightarrow> cred_disk" where
  "restrict_permissions e path d = (case path of
     None \<Rightarrow> d
   | Some i \<Rightarrow> if de_chmod e then set_inode i (fst (cd_inode d i), True) d else d)"

text \<open>\<open>open(tmp, "w")\<close> empties a file that is there and keeps its permissions.\<close>

definition open_tmp :: "disk_env \<Rightarrow> saver \<Rightarrow> cred_disk \<Rightarrow> saver \<times> cred_disk" where
  "open_tmp e s d = (case cd_tmp d of
     Some i \<Rightarrow> (s\<lparr>sv_pc := WriteTmp, sv_handle := i\<rparr>, set_inode i (CredBroken, snd (cd_inode d i)) d)
   | None \<Rightarrow> (s\<lparr>sv_pc := WriteTmp, sv_handle := cd_next d\<rparr>,
       set_inode (cd_next d) (CredBroken, de_umask e) (d\<lparr>cd_tmp := Some (cd_next d), cd_next := Suc (cd_next d)\<rparr>)))"

definition raises :: "disk_env \<Rightarrow> save_pc \<Rightarrow> exn option" where
  "raises e pc = (if pc \<in> {MakeDirs, OpenTmp, WriteTmp, ReplaceMain} then de_fault e pc else None)"

definition save_step :: "disk_env \<Rightarrow> saver \<times> cred_disk \<Rightarrow> saver \<times> cred_disk" where
  "save_step e x = (case x of (s, d) \<Rightarrow>
     case raises e (sv_pc s) of
       Some err \<Rightarrow> (s\<lparr>sv_pc := SaveFailed err\<rparr>, d)
     | None \<Rightarrow>
         (case sv_pc s of
           MakeDirs \<Rightarrow> (s\<lparr>sv_pc := OpenTmp\<rparr>, d)
         | OpenTmp \<Rightarrow> open_tmp e s d
         | WriteTmp \<Rightarrow> (s\<lparr>sv_pc := ChmodTmp\<rparr>,
             set_inode (sv_handle s) (CredData (sv_data s), snd (cd_inode d (sv_handle s))) d)
         | ChmodTmp \<Rightarrow> (s\<lparr>sv_pc := ReplaceMain\<rparr>, restrict_permissions e (cd_tmp d) d)
         | ReplaceMain \<Rightarrow> (case cd_tmp d of
             None \<Rightarrow> (s\<lparr>sv_pc := SaveFailed FileNotFoundError\<rparr>, d)
           | Some i \<Rightarrow> (s\<lparr>sv_pc := ChmodMain\<rparr>, d\<lparr>cd_main := Some i, cd_tmp := None\<rparr>))
         | ChmodMain \<Rightarrow> (s\<lparr>sv_pc := Saved\<rparr>, restrict_permissions e (cd_main d) d)
         | Saved \<Rightarrow> x
         | SaveFailed err \<Rightarrow> x))"

definition save_until :: "disk_env \<Rightarrow> nat \<Rightarrow> credentials \<Rightarrow> cred_disk \<Rightarrow> saver \<times> cred_disk" where
  "save_until e n c d = (save_step e ^^ n) (saver_init c, d)"

section \<open>Removing\<close>

text \<open>\<open>clear\<close> removes the three files; \<open>bad\<close> says which removals fail, which is only logged.\<close>

definition clear_disk :: "bool \<times> bool \<times> bool \<Rightarrow> cred_disk \<Rightarrow> cred_disk" where
  "clear_disk bad d = (case bad of (m, t, l) \<Rightarrow>
     d\<lparr>cd_main := (if m then cd_main d else None), cd_tmp := (if t then cd_tmp d else None),
       cd_lock := (l \<and> cd_lock d)\<rparr>)"

section \<open>Waiting for the lock\<close>

text \<open>\<open>file_lock\<close> tries to create the lock file; each try finds it there or not, at a time.\<close>

datatype lock_outcome = Acquired | TimedOut | StillWaiting

fun lock_wait :: "time \<Rightarrow> (bool \<times> time) list \<Rightarrow> lock_outcome" where
  "lock_wait deadline [] = StillWaiting"
| "lock_wait deadline ((held, t) # tries) =
     (if \<not> held then Acquired
      else if deadline < t then TimedOut
      else lock_wait deadline tries)"

definition file_lock :: "time \<Rightarrow> time \<Rightarrow> (bool \<times> time) list \<Rightarrow> lock_outcome" where
  "file_lock start timeout tries = lock_wait (start + timeout) tries"

section \<open>A save is one step\<close>

text \<open>The names belong to different files that exist; every file that holds credentials under the final
  name is the owner's.\<close>

definition disk_ok :: "cred_disk \<Rightarrow> bool" where
  "disk_ok d \<longleftrightarrow> (\<forall>i. cd_main d = Some i \<or> cd_tmp d = Some i \<longrightarrow> i < cd_next d) \<and>
     (cd_main d = None \<or> cd_main d \<noteq> cd_tmp d)"

definition owner_only :: "cred_disk \<Rightarrow> bool" where
  "owner_only d \<longleftrightarrow> (case cd_main d of None \<Rightarrow> True | Some i \<Rightarrow> snd (cd_inode d i))"

text \<open>Where a save of \<open>c\<close> that began on \<open>d0\<close> stands.\<close>

fun save_inv :: "disk_env \<Rightarrow> cred_disk \<Rightarrow> credentials \<Rightarrow> saver \<times> cred_disk \<Rightarrow> bool" where
  "save_inv e d0 c (s, d) \<longleftrightarrow> disk_ok d \<and> sv_data s = c \<and> (owner_only d0 \<and> de_chmod e \<longrightarrow> owner_only d) \<and>
     (case sv_pc s of
        WriteTmp \<Rightarrow> load_disk d = load_disk d0 \<and> cd_tmp d = Some (sv_handle s)
      | ChmodTmp \<Rightarrow> load_disk d = load_disk d0 \<and> (\<exists>i. cd_tmp d = Some i \<and> fst (cd_inode d i) = CredData c)
      | ReplaceMain \<Rightarrow> load_disk d = load_disk d0 \<and> (\<exists>i. cd_tmp d = Some i \<and> fst (cd_inode d i) = CredData c \<and>
          (de_chmod e \<longrightarrow> snd (cd_inode d i)))
      | ChmodMain \<Rightarrow> load_disk d = Inr (Some c) \<and> (de_chmod e \<longrightarrow> owner_only d)
      | Saved \<Rightarrow> load_disk d = Inr (Some c) \<and> (de_chmod e \<longrightarrow> owner_only d)
      | _ \<Rightarrow> load_disk d = load_disk d0)"

lemmas disk_defs = disk_ok_def owner_only_def load_disk_def store_exists_def body_of_def set_inode_def
  restrict_permissions_def open_tmp_def

lemma save_inv_init: "disk_ok d \<Longrightarrow> save_inv e d c (saver_init c, d)"
  by (simp add: saver_init_def)

lemma save_inv_step:
  assumes "save_inv e d0 c (s, d)"
  shows "save_inv e d0 c (save_step e (s, d))"
proof (cases "raises e (sv_pc s)")
  case (Some err)
  then have "sv_pc s \<in> {MakeDirs, OpenTmp, WriteTmp, ReplaceMain}" by (auto simp: raises_def split: if_splits)
  then show ?thesis using assms Some by (auto simp: save_step_def)
next
  case None
  show ?thesis
  proof (cases "sv_pc s")
    case OpenTmp
    then show ?thesis
      using assms None by (cases "cd_tmp d") (auto simp: save_step_def disk_defs split: option.splits)
  next
    case WriteTmp
    then show ?thesis using assms None by (auto simp: save_step_def disk_defs split: option.splits)
  next
    case ChmodTmp
    then show ?thesis using assms None by (auto simp: save_step_def disk_defs split: option.splits)
  next
    case ReplaceMain
    then show ?thesis using assms None by (auto simp: save_step_def disk_defs cred_load_def split: option.splits)
  next
    case ChmodMain
    then show ?thesis using assms None by (auto simp: save_step_def disk_defs split: option.splits)
  qed (use assms None in \<open>auto simp: save_step_def\<close>)
qed

lemma save_inv_until: "disk_ok d \<Longrightarrow> save_inv e d c (save_until e n c d)"
  unfolding save_until_def
proof (induction n)
  case (Suc n)
  then show ?case using save_inv_step [of e d c] by (cases "(save_step e ^^ n) (saver_init c, d)") auto
qed (simp add: saver_init_def)

text \<open>Six steps that nothing disturbs save the data.\<close>

lemma save_completes:
  assumes "\<forall>pc. de_fault e pc = None"
  shows "sv_pc (fst (save_until e 6 c d)) = Saved"
  using assms
  by (cases "cd_tmp d") (simp_all add: save_until_def saver_init_def eval_nat_numeral save_step_def raises_def disk_defs
      split: option.split)

section \<open>The lock is waited for in vain, but not forever\<close>

lemma lock_wait_acquired: "lock_wait deadline tries = Acquired \<Longrightarrow> \<exists>t. (False, t) \<in> set tries"
  by (induction deadline tries rule: lock_wait.induct) (auto split: if_splits)

lemma lock_wait_ends: "(held, t) \<in> set tries \<Longrightarrow> deadline < t \<Longrightarrow> lock_wait deadline tries \<noteq> StillWaiting"
  by (induction deadline tries rule: lock_wait.induct) auto

section \<open>Properties\<close>

text \<open>C14: However far a save gets, because of a crash or a failing call, the store reads as it did before or
  gives the new credentials whole; it gives the new ones once the save has returned, and the old ones
  if it raised; and a store that only its owner could read stays so, as long as permissions can be set.\<close>

theorem save_is_atomic:
  assumes "disk_ok d" and "save_until e n c d = (s, d')"
  shows "load_disk d' \<in> {load_disk d, Inr (Some c)} \<and>
    (sv_pc s = Saved \<longrightarrow> load_disk d' = Inr (Some c)) \<and>
    (\<forall>x. sv_pc s = SaveFailed x \<longrightarrow> load_disk d' = load_disk d) \<and>
    (owner_only d \<and> de_chmod e \<longrightarrow> owner_only d') \<and> disk_ok d'"
  using save_inv_until [OF assms(1), of e c n] assms(2) by (cases "sv_pc s") auto

definition calm_disk_env :: disk_env where
  "calm_disk_env = \<lparr>de_fault = (\<lambda>pc. None), de_chmod = True, de_umask = False\<rparr>"

definition old_disk :: cred_disk where
  "old_disk = \<lparr>cd_main = Some 0, cd_tmp = Some 1, cd_lock = True,
     cd_inode = (\<lambda>i. if i = 0 then (CredData sample_credentials, True) else (CredBroken, False)), cd_next = 2\<rparr>"

theorem save_is_atomic_witness:
  "load_disk (snd (save_until calm_disk_env 3 (sample_credentials\<lparr>cr_access := None\<rparr>) old_disk)) =
     Inr (Some sample_credentials)"
proof -
  let ?r = "save_until calm_disk_env 3 (sample_credentials\<lparr>cr_access := None\<rparr>) old_disk"
  have ok: "disk_ok old_disk" by (simp add: disk_ok_def old_disk_def)
  have "load_disk old_disk = Inr (Some sample_credentials)"
    by (simp add: load_disk_def store_exists_def body_of_def cred_load_def old_disk_def)
  moreover have "load_disk (snd ?r) \<noteq> Inr (Some (sample_credentials\<lparr>cr_access := None\<rparr>))" by code_simp
  moreover have "?r = (fst ?r, snd ?r)" by simp
  ultimately show ?thesis using save_is_atomic [OF ok, of calm_disk_env 3 _ "fst ?r" "snd ?r"] by auto
qed

section \<open>Divergences\<close>

text \<open>Two processes that save at the same time share the temporary file (only a refresh takes the lock,
  logging in and setting the key password do not). \<open>True\<close> lets the first of them make a step.\<close>

fun save_both :: "disk_env \<Rightarrow> bool list \<Rightarrow> saver \<times> saver \<times> cred_disk \<Rightarrow> saver \<times> saver \<times> cred_disk" where
  "save_both e [] x = x"
| "save_both e (w # ws) (a, b, d) =
     (if w then (case save_step e (a, d) of (a', d') \<Rightarrow> save_both e ws (a', b, d'))
      else (case save_step e (b, d) of (b', d') \<Rightarrow> save_both e ws (a, b', d')))"

text \<open>The first renames the file the second has just emptied, and the store is broken until the second has
  written; the second then fails to rename.\<close>

lemma concurrent_saves_break_store:
  "let c = sample_credentials; start = (saver_init c, saver_init c, old_disk);
       schedule = [True, True, True, True, False, False, True, True];
       torn = save_both calm_disk_env schedule start;
       done = save_both calm_disk_env (schedule @ [False, False, False]) start
   in load_disk (snd (snd torn)) = Inl CredentialStoreError \<and>
      sv_pc (fst (snd done)) = SaveFailed FileNotFoundError"
  by code_simp

text \<open>Between the write and \<open>chmod\<close> the tokens are in a file that others may read.\<close>

lemma tokens_readable_before_chmod:
  "let d = snd (save_until calm_disk_env 3 sample_credentials (old_disk\<lparr>cd_tmp := None\<rparr>))
   in map_option (cd_inode d) (cd_tmp d) = Some (CredData sample_credentials, False)"
  by code_simp

text \<open>A removal that fails is only logged: the tokens stay after a logout.\<close>

lemma failed_clear_keeps_tokens:
  "load_disk (clear_disk (True, False, False) old_disk) = Inr (Some sample_credentials)"
  by code_simp

text \<open>The lock file of a process that died is never removed. Every refresh then waits ten seconds and
  gives up, so the client goes on with the token it has, however long that has expired.\<close>

lemma dead_lock_is_never_taken:
  assumes "\<forall>x \<in> set tries. fst x"
  shows "file_lock start timeout tries \<noteq> Acquired"
  using assms lock_wait_acquired by (fastforce simp: file_lock_def)

lemma dead_lock_keeps_expired_token:
  assumes "ac_has_store a" and "ac_access a = Some tok" and "\<not> lock_free e"
  shows "get_valid_token e a f = (Inr tok, a, f)"
  using assms by (simp add: get_valid_token_def refresh_with_lock_def)

end
