(* ===== verification/Loopback_Image.thy ===== *)
theory Loopback_Image
  imports Storage_Source
begin

text \<open>
  How a loopback source of \<^verbatim>\<open>stardustlib/storage_source.py\<close> comes into being, call by call: the image
  file that reserves the space, the companion directory that holds the files, and what
  \<open>initialize\<close> does when one of the calls fails. Storage_Source takes the outcome of all this as two
  flags; \<open>lb_boot_refines\<close> says which ones. The environment names the calls that raise.
\<close>

section \<open>The disk of a loopback source\<close>

text \<open>The size of the image file, whether the companion directory is there, and the source with the files
  in the directory.\<close>

record lb_disk =
  ld_image :: "int option"
  ld_companion :: bool
  ld_source :: source

datatype lb_call = CallParentDir | CallOpen | CallReserve | CallCompanion | CallRemove | CallRmtree

type_synonym lb_faults = "lb_call \<Rightarrow> exn option"

definition lb_size :: "source \<Rightarrow> int" where
  "lb_size s = (case src_kind s of Loopback n \<Rightarrow> n | _ \<Rightarrow> 0)"

definition make_companion :: "lb_faults \<Rightarrow> lb_disk \<Rightarrow> unit result \<times> lb_disk" where
  "make_companion f d = (case f CallCompanion of
     Some x \<Rightarrow> (Inl x, d) | None \<Rightarrow> (Inr (), d\<lparr>ld_companion := True\<rparr>))"

text \<open>An image that could be opened but not extended stays behind empty.\<close>

definition create_loopback_file :: "lb_faults \<Rightarrow> lb_disk \<Rightarrow> unit result \<times> lb_disk" where
  "create_loopback_file f d =
     (case f CallParentDir of
       Some x \<Rightarrow> (Inl x, d)
     | None \<Rightarrow>
         (case f CallOpen of
           Some x \<Rightarrow> (Inl x, d)
         | None \<Rightarrow>
             (case f CallReserve of
               Some x \<Rightarrow> (Inl x, d\<lparr>ld_image := Some 0\<rparr>)
             | None \<Rightarrow> make_companion f (d\<lparr>ld_image := Some (lb_size (ld_source d))\<rparr>))))"

definition mount_image :: "lb_faults \<Rightarrow> lb_disk \<Rightarrow> unit result \<times> lb_disk" where
  "mount_image f d =
     (if ld_image d = None then (Inr (), d\<lparr>ld_source := deactivate (ld_source d)\<rparr>)
      else (case (if ld_companion d then (Inr (), d) else make_companion f d) of
        (Inl x, d1) \<Rightarrow> (Inl x, d1)
      | (Inr _, d1) \<Rightarrow> (Inr (), d1\<lparr>ld_source := lb_mount True (ld_source d1)\<rparr>)))"

text \<open>Removing the image and the directory; a failure is logged.\<close>

definition cleanup_image :: "lb_faults \<Rightarrow> lb_disk \<Rightarrow> lb_disk" where
  "cleanup_image f d =
     (let d1 = (if ld_image d \<noteq> None \<and> f CallRemove = None then d\<lparr>ld_image := None\<rparr> else d)
      in if ld_companion d1 \<and> f CallRmtree = None
         then d1\<lparr>ld_companion := False, ld_source := lb_cleanup_partial (ld_source d1)\<rparr> else d1)"

text \<open>A mount of an image that is there may raise; what the creation raises is caught.\<close>

definition lb_boot :: "lb_faults \<Rightarrow> lb_disk \<Rightarrow> unit result \<times> lb_disk" where
  "lb_boot f d =
     (if ld_image d \<noteq> None then mount_image f d
      else
        (let (r1, d1) = create_loopback_file f d;
             (r2, d2) = (case r1 of Inl x \<Rightarrow> (r1, d1) | Inr _ \<Rightarrow> mount_image f d1)
         in (case r2 of
           Inr _ \<Rightarrow> (Inr (), d2)
         | Inl x \<Rightarrow> (Inr (), (let d3 = cleanup_image f d2 in
             d3\<lparr>ld_source := (ld_source d3)\<lparr>src_active := False\<rparr>\<rparr>)))))"

section \<open>What the flags of Storage_Source stand for\<close>

text \<open>Files are only in a directory that is there.\<close>

definition lb_disk_ok :: "lb_disk \<Rightarrow> bool" where
  "lb_disk_ok d \<longleftrightarrow> (ld_companion d \<or> src_files (ld_source d) = [] \<and> src_dirs (ld_source d) = [])"

definition creation_works :: "lb_faults \<Rightarrow> bool" where
  "creation_works f \<longleftrightarrow> f CallParentDir = None \<and> f CallOpen = None \<and> f CallReserve = None \<and> f CallCompanion = None"

lemmas lb_boot_defs = lb_boot_def create_loopback_file_def make_companion_def mount_image_def cleanup_image_def
  lb_initialize_def lb_mount_def lb_cleanup_partial_def lb_disk_ok_def creation_works_def

text \<open>Unless the image is there and its directory cannot be made, or the removal fails as well, \<open>initialize\<close>
  does with the source what \<open>lb_initialize\<close> says.\<close>

lemma lb_boot_refines:
  assumes "lb_disk_ok d" and "ld_image d \<noteq> None \<longrightarrow> ld_companion d \<or> f CallCompanion = None"
    and "f CallRmtree = None"
  shows "fst (lb_boot f d) = Inr () \<and>
    ld_source (snd (lb_boot f d)) = lb_initialize (ld_image d \<noteq> None) (creation_works f) (ld_source d)"
  using assms
  by (cases "f CallParentDir"; cases "f CallOpen"; cases "f CallReserve"; cases "f CallCompanion"; cases "ld_companion d")
    (auto simp: lb_boot_defs Let_def)

text \<open>Where the image is there, no failing call costs a file.\<close>

lemma boot_keeps_files:
  assumes "ld_image d \<noteq> None"
  shows "src_files (ld_source (snd (lb_boot f d))) = src_files (ld_source d)"
  using assms by (auto simp: lb_boot_defs split: option.split)

text \<open>An active source has its image and its directory, and starts with what the files use.\<close>

lemma booted_source:
  assumes "lb_boot f d = (r, d')" and "\<not> src_active (ld_source d)" and "src_active (ld_source d')"
  shows "ld_image d' \<noteq> None \<and> ld_companion d' \<and> src_files (ld_source d') = src_files (ld_source d) \<and>
    src_used (ld_source d') = scan_used_space (ld_source d')"
  using assms
  by (auto simp: lb_boot_defs Let_def deactivate_def scan_used_space_def split: option.splits if_splits)

section \<open>Divergences\<close>

definition full_disk :: lb_disk where
  "full_disk = \<lparr>ld_image = None, ld_companion = True,
     ld_source = \<lparr>src_id = ''l'', src_kind = Loopback 1048576, src_active = False,
       src_files = [(''f'', [1, 2])], src_dirs = [], src_used = 0\<rparr>\<rparr>"

text \<open>If the image file is gone while the directory with the files is still there, and the image cannot be
  created again because the disk is full, the clean-up deletes the directory with all files.\<close>

lemma failed_creation_deletes_files:
  "let d = snd (lb_boot (\<lambda>c. if c = CallReserve then Some (OSError True) else None) full_disk)
   in \<not> ld_companion d \<and> src_files (ld_source d) = []"
  by code_simp

end
