(* ===== verification/Config_Schema.thy ===== *)
theory Config_Schema
  imports Config_Loader
begin

text \<open>
  The configuration types of \<^verbatim>\<open>stardustlib/models.py\<close>. Python does not check a \<open>TypedDict\<close> at run
  time; \<open>conforms\<close> says what each of them promises, and the lemmas compare this with what the
  checks of Config_Loader let through.
\<close>

section \<open>Types of fields\<close>

datatype field_type =
    TStr
  | TInt
  | TBool
  | TLiteral json
  | TNullable field_type
  | TList field_type
  | TUnion "field_type list"
  | TDict "(string \<times> field_type) list"

fun conforms :: "field_type \<Rightarrow> json \<Rightarrow> bool" where
  "conforms TStr v = is_str v"
| "conforms TInt v = (case v of JInt _ \<Rightarrow> True | _ \<Rightarrow> False)"
| "conforms TBool v = (case v of JBool _ \<Rightarrow> True | _ \<Rightarrow> False)"
| "conforms (TLiteral l) v = (v = l)"
| "conforms (TNullable t) v = (v = JNull \<or> conforms t v)"
| "conforms (TList t) v = (case v of JArr xs \<Rightarrow> list_all (conforms t) xs | _ \<Rightarrow> False)"
| "conforms (TUnion ts) v = list_ex (\<lambda>t. conforms t v) ts"
| "conforms (TDict fs) v = (case v of
     JObj d \<Rightarrow> list_all (\<lambda>(k, t). case map_of d k of None \<Rightarrow> False | Some x \<Rightarrow> conforms t x) fs
   | _ \<Rightarrow> False)"

section \<open>The types of the data model\<close>

definition DirectorySourceConfig :: field_type where
  "DirectorySourceConfig = TDict [(''type'', TLiteral (JStr ''directory'')), (''id'', TStr), (''path'', TStr)]"

definition LoopbackSourceConfig :: field_type where
  "LoopbackSourceConfig = TDict [(''type'', TLiteral (JStr ''loopback'')), (''id'', TStr), (''path'', TStr), (''size'', TInt)]"

definition SourceConfig :: field_type where
  "SourceConfig = TUnion [DirectorySourceConfig, LoopbackSourceConfig]"

definition StardustConfig :: field_type where
  "StardustConfig = TDict [(''version'', TInt), (''sources'', TList SourceConfig), (''metadata_db'', TStr),
     (''key_file'', TNullable TStr)]"

definition ServerConfig :: field_type where
  "ServerConfig = TDict [(''url'', TNullable TStr), (''device_name'', TStr)]"

definition SyncConfig :: field_type where
  "SyncConfig = TDict [(''interval_seconds'', TInt), (''conflict_strategy'', TLiteral (JStr ''copy''))]"

definition P2PConfig :: field_type where
  "P2PConfig = TDict [(''port'', TInt), (''enabled'', TBool), (''auto_mount_devices'', TBool)]"

definition RemoteSourceConfig :: field_type where
  "RemoteSourceConfig = TDict [(''type'', TLiteral (JStr ''remote'')), (''id'', TStr), (''device_id'', TStr)]"

definition SourceConfigV2 :: field_type where
  "SourceConfigV2 = TUnion [DirectorySourceConfig, LoopbackSourceConfig, RemoteSourceConfig]"

definition StardustConfigV2 :: field_type where
  "StardustConfigV2 = TDict [(''version'', TLiteral (JInt 2)), (''server'', ServerConfig), (''sources'', TList SourceConfigV2),
     (''sync'', SyncConfig), (''p2p'', P2PConfig), (''metadata_db'', TStr), (''key_file'', TNullable TStr)]"

lemmas schema_defs = DirectorySourceConfig_def LoopbackSourceConfig_def SourceConfig_def StardustConfig_def
  ServerConfig_def SyncConfig_def P2PConfig_def RemoteSourceConfig_def SourceConfigV2_def StardustConfigV2_def

section \<open>What the checks establish\<close>

text \<open>The fields no check looks at: the id of each source, the path of the database, the switch for
  mounting the other devices, and the two fields that may be \<open>null\<close>, which may also be missing.\<close>

definition source_identified :: "json \<Rightarrow> bool" where
  "source_identified x \<longleftrightarrow> (case x of JObj s \<Rightarrow> (\<exists>i. map_of s ''id'' = Some (JStr i)) | _ \<Rightarrow> False)"

definition unchecked_present :: "json dict \<Rightarrow> bool" where
  "unchecked_present cfg \<longleftrightarrow>
     (\<forall>xs. get ''sources'' cfg = JArr xs \<longrightarrow> list_all source_identified xs) \<and>
     (\<forall>d. get ''p2p'' cfg = JObj d \<longrightarrow> (\<exists>b. map_of d ''auto_mount_devices'' = Some (JBool b))) \<and>
     (\<forall>d. get ''server'' cfg = JObj d \<longrightarrow> map_of d ''url'' \<noteq> None) \<and>
     (\<exists>p. map_of cfg ''metadata_db'' = Some (JStr p)) \<and>
     (\<exists>v. map_of cfg ''key_file'' = Some v \<and> conforms (TNullable TStr) v)"

lemma get_present: "get k d = v \<Longrightarrow> v \<noteq> JNull \<Longrightarrow> map_of d k = Some v"
  by (auto simp: get_or_def split: option.splits)

lemma source_conforms:
  assumes "remote_source_ok s \<or> local_source_ok fs s" and "source_identified (JObj s)"
  shows "conforms SourceConfigV2 (JObj s)"
proof -
  have path: "map_of s ''path'' = Some (JStr p)" if "get_or (JStr []) ''path'' s = JStr p" "prefix ''/'' p" for p
    using that by (auto simp: get_or_def split: option.splits)
  show ?thesis
    using assms
    by (auto simp: schema_defs remote_source_ok_def local_source_ok_def source_identified_def is_str_def
        dest!: get_present path)
qed

text \<open>A configuration that passes the checks and has these fields is what the data model promises.\<close>

lemma valid_config_conforms:
  assumes "v2_ok fs cfg" and "unchecked_present cfg"
  shows "conforms StardustConfigV2 (JObj cfg)"
proof -
  obtain server sync p2p xs where parts: "get ''server'' cfg = JObj server" "server_ok server"
    "get ''sync'' cfg = JObj sync" "sync_ok sync" "get ''p2p'' cfg = JObj p2p" "p2p_ok p2p"
    "get ''sources'' cfg = JArr xs" "\<forall>x \<in> set xs. \<exists>s. x = JObj s \<and> (remote_source_ok s \<or> local_source_ok fs s)"
    using assms(1) by (auto simp: v2_ok_def sources_ok_def)
  have "conforms ServerConfig (JObj server)"
    using parts(1,2) assms(2)
    by (auto simp: ServerConfig_def server_ok_def url_ok_def unchecked_present_def get_or_def is_str_def
        split: option.splits)
  moreover have "conforms SyncConfig (JObj sync)"
    using parts(4) by (auto simp: SyncConfig_def sync_ok_def dest!: get_present)
  moreover have "conforms P2PConfig (JObj p2p)"
    using parts(5,6) assms(2) by (auto simp: P2PConfig_def p2p_ok_def unchecked_present_def dest!: get_present)
  moreover have "list_all (conforms SourceConfigV2) xs"
    using parts(7,8) assms(2) source_conforms by (fastforce simp: unchecked_present_def list_all_iff)
  moreover have "get ''version'' cfg = JInt 2" using assms(1) by (simp add: v2_ok_def)
  ultimately show ?thesis
    using parts(1,3,5,7) assms(2)
    by (auto simp: StardustConfigV2_def unchecked_present_def is_str_def dest!: get_present)
qed

section \<open>Divergences\<close>

definition bare_config :: "json dict" where
  "bare_config = [(''version'', JInt 2), (''server'', JObj [(''device_name'', JStr ''pc'')]),
     (''sources'', JArr [JObj [(''type'', JStr ''directory''), (''path'', JStr ''/d'')]]),
     (''sync'', JObj [(''interval_seconds'', JInt 30), (''conflict_strategy'', JStr ''copy'')]),
     (''p2p'', JObj [(''port'', JInt 9090), (''enabled'', JBool True)])]"

text \<open>A configuration without the id of its source and without the path of the database passes the checks,
  although the types require both.\<close>

lemma checks_pass_without_ids:
  "validate \<lparr>exists_path = (\<lambda>p. True), has_dir = (\<lambda>p. True)\<rparr> (JObj bare_config) = Inr [] \<and>
   \<not> conforms StardustConfigV2 (JObj bare_config)"
  by code_simp

end
