(* ===== verification/Hole_Punch.thy ===== *)
theory Hole_Punch
  imports Config_Loader
begin

text \<open>
  \<^verbatim>\<open>stardustlib/holepunch.py\<close>: one UDP socket that asks the rendezvous server for addresses and
  then exchanges punch packets with the peer. The datagrams that arrive are a list with their
  arrival times; waiting for one is the only thing that takes time. What the two ends of an
  exchange can conclude about each other is stated over a network that loses, repeats and
  delays datagrams.
\<close>

section \<open>Addresses\<close>

type_synonym udp_addr = "string \<times> int"

text \<open>The outer parts of \<open>s.rpartition(c)\<close>.\<close>

definition rpartition :: "char \<Rightarrow> string \<Rightarrow> string \<times> string" where
  "rpartition c s =
     (if c \<in> set s then (rev (tl (dropWhile (\<lambda>x. x \<noteq> c) (rev s))), rev (takeWhile (\<lambda>x. x \<noteq> c) (rev s)))
      else ([], s))"

definition parse_addr :: "string \<Rightarrow> udp_addr result" where
  "parse_addr text =
     (let (host, port) = rpartition CHR '':'' text
      in case int_of_str port of None \<Rightarrow> Inl ValueError | Some n \<Rightarrow> Inr (host, n))"

lemma rpartition_last: "c \<notin> set t \<Longrightarrow> rpartition c (s @ c # t) = (s, t)"
  by (simp add: rpartition_def dropWhile_append takeWhile_append)

text \<open>The host may contain colons itself, as an IPv6 address does.\<close>

lemma parse_shown_addr: "parse_addr (host @ CHR '':'' # show_nat n) = Inr (host, int n)"
proof -
  have "CHR '':'' \<notin> set (show_nat n)" using show_nat_digits [of n] by auto
  then show ?thesis by (simp add: parse_addr_def rpartition_last int_of_shown)
qed

lemma parse_addr_examples:
  "parse_addr ''::1:9091'' = Inr (''::1'', 9091)" "parse_addr ''h:'' = Inl ValueError" "parse_addr ''80'' = Inr ([], 80)"
  by code_simp+

section \<open>Datagrams\<close>

text \<open>A datagram is what \<open>json.loads\<close> makes of it, one of the two punch packets, which are not
  JSON, or anything else.\<close>

datatype payload = Text json | Punch | PunchAck | Noise

type_synonym inbox = "(time \<times> payload \<times> udp_addr) list"

fun message_in :: "payload \<Rightarrow> json dict option" where
  "message_in (Text v) = as_obj v"
| "message_in _ = None"

fun is_early :: "time \<Rightarrow> time \<times> payload \<times> udp_addr \<Rightarrow> bool" where
  "is_early deadline (t, d, a) \<longleftrightarrow> t < deadline"

text \<open>\<open>_recv_json\<close>: the object received (if any), the time after the wait, and what is left in the
  queue. Everything that is not a JSON object is dropped.\<close>

fun recv_json :: "time \<Rightarrow> time \<Rightarrow> inbox \<Rightarrow> json dict option \<times> time \<times> inbox" where
  "recv_json deadline now [] = (None, max now deadline, [])"
| "recv_json deadline now ((t, d, a) # q) =
     (if deadline \<le> now \<or> deadline \<le> t then (None, max now deadline, (t, d, a) # q)
      else (case message_in d of
          Some msg \<Rightarrow> (Some msg, max now t, q)
        | None \<Rightarrow> recv_json deadline (max now t) q))"

section \<open>The rendezvous\<close>

definition addr_in_reply :: "string \<Rightarrow> string \<Rightarrow> json dict option \<Rightarrow> udp_addr option result" where
  "addr_in_reply op key msg =
     (case msg of
       None \<Rightarrow> Inr None
     | Some m \<Rightarrow>
         if get ''op'' m \<noteq> JStr op then Inr None
         else (case map_of m key of
             None \<Rightarrow> Inl KeyError
           | Some (JStr text) \<Rightarrow> (case parse_addr text of Inl e \<Rightarrow> Inl e | Inr a \<Rightarrow> Inr (Some a))
           | Some _ \<Rightarrow> Inl AttributeError))"

definition register_message :: "string \<Rightarrow> string \<Rightarrow> json dict" where
  "register_message token dev = [(''op'', JStr ''register''), (''token'', JStr token), (''device_id'', JStr dev)]"

definition connect_message :: "string \<Rightarrow> string \<Rightarrow> string \<Rightarrow> json dict" where
  "connect_message token dev peer_id =
     [(''op'', JStr ''connect''), (''token'', JStr token), (''device_id'', JStr dev), (''peer'', JStr peer_id)]"

text \<open>Both calls send one message to the server, and return what they make of the first JSON object
  that arrives before the timeout.\<close>

definition register_udp ::
  "string \<Rightarrow> string \<Rightarrow> time \<Rightarrow> time \<Rightarrow> inbox \<Rightarrow> json dict \<times> udp_addr option result \<times> time \<times> inbox" where
  "register_udp token dev timeout now q =
     (case recv_json (now + timeout) now q of
       (msg, now', q') \<Rightarrow> (register_message token dev, addr_in_reply ''registered'' ''reflexive'' msg, now', q'))"

definition request_peer ::
  "string \<Rightarrow> string \<Rightarrow> string \<Rightarrow> time \<Rightarrow> time \<Rightarrow> inbox \<Rightarrow>
     json dict \<times> udp_addr option result \<times> time \<times> inbox" where
  "request_peer token dev peer_id timeout now q =
     (case recv_json (now + timeout) now q of
       (msg, now', q') \<Rightarrow> (connect_message token dev peer_id, addr_in_reply ''peer'' ''addr'' msg, now', q'))"

text \<open>The wait is over at the latest at the deadline, and loses nothing that arrives after it.\<close>

lemma recv_json_bounded:
  assumes "recv_json deadline now q = (msg, now', q')" and "now \<le> deadline"
  shows "now \<le> now' \<and> now' \<le> deadline \<and> suffix q' q \<and> filter (Not \<circ> is_early deadline) q' = filter (Not \<circ> is_early deadline) q"
  using assms
proof (induction deadline now q arbitrary: msg now' q' rule: recv_json.induct)
  case (2 deadline now t d a q)
  show ?case
  proof (cases "deadline \<le> now \<or> deadline \<le> t")
    case True
    with "2.prems" show ?thesis by auto
  next
    case False
    then have le: "max now t \<le> deadline" by simp
    show ?thesis
    proof (cases "message_in d")
      case None
      then have "recv_json deadline (max now t) q = (msg, now', q')" using False "2.prems"(1) by simp
      from "2.IH" [OF False None this le] False show ?thesis by (auto simp: suffix_Cons)
    next
      case (Some m)
      with False "2.prems" le show ?thesis by (auto simp: suffix_Cons)
    qed
  qed
qed auto

text \<open>
  The reply is not matched with the request: an answer that comes after its request has timed
  out is taken for the answer to the next one, and the right answer stays in the queue.
\<close>

definition late_answers :: inbox where
  "late_answers =
     [(4, Text (JObj [(''op'', JStr ''registered''), (''reflexive'', JStr ''1.2.3.4:5'')]), (''s'', 9091)),
      (5, Text (JObj [(''op'', JStr ''peer''), (''addr'', JStr ''5.6.7.8:9'')]), (''s'', 9091))]"

lemma late_answer_hides_peer:
  "register_udp ''t'' ''d'' 3 0 late_answers = (register_message ''t'' ''d'', Inr None, 3, late_answers)"
  "request_peer ''t'' ''d'' ''p'' 3 4 late_answers = (connect_message ''t'' ''d'' ''p'', Inr None, 4, tl late_answers)"
  by (simp_all add: register_udp_def request_peer_def late_answers_def addr_in_reply_def get_or_def)

section \<open>The exchange of punch packets\<close>

text \<open>One attempt after its packet has been sent: success, the time after it, what is left in the
  queue, and the answers that were sent.\<close>

fun punch_listen ::
  "time \<Rightarrow> time \<Rightarrow> inbox \<Rightarrow> bool \<times> time \<times> inbox \<times> (payload \<times> udp_addr) list" where
  "punch_listen deadline now [] = (False, max now deadline, [], [])"
| "punch_listen deadline now ((t, d, a) # q) =
     (if deadline \<le> now \<or> deadline \<le> t then (False, max now deadline, (t, d, a) # q, [])
      else if d = PunchAck then (True, max now t, q, [])
      else (case punch_listen deadline (max now t) q of
          (ok, now', q', out) \<Rightarrow> (ok, now', q', (if d = Punch then [(PunchAck, a)] else []) @ out)))"

primrec punch ::
  "nat \<Rightarrow> time \<Rightarrow> udp_addr \<Rightarrow> time \<Rightarrow> inbox \<Rightarrow> bool \<times> time \<times> inbox \<times> (payload \<times> udp_addr) list" where
  "punch 0 interval peer_addr now q = (False, now, q, [])"
| "punch (Suc n) interval peer_addr now q =
     (case punch_listen (now + interval) now q of
       (True, now', q', out) \<Rightarrow> (True, now', q', (Punch, peer_addr) # out)
     | (False, now', q', out) \<Rightarrow>
         (case punch n interval peer_addr now' q' of
           (ok, now2, q2, out2) \<Rightarrow> (ok, now2, q2, (Punch, peer_addr) # out @ out2)))"

text \<open>The answers due before a deadline: one for each punch packet up to the first acknowledgement.\<close>

fun is_ack :: "time \<times> payload \<times> udp_addr \<Rightarrow> bool" where
  "is_ack (t, d, a) \<longleftrightarrow> d = PunchAck"

fun answers :: "time \<Rightarrow> inbox \<Rightarrow> (payload \<times> udp_addr) list" where
  "answers deadline [] = []"
| "answers deadline ((t, d, a) # q) =
     (if deadline \<le> t \<or> d = PunchAck then [] else (if d = Punch then [(PunchAck, a)] else []) @ answers deadline q)"

definition acked_before :: "time \<Rightarrow> inbox \<Rightarrow> bool" where
  "acked_before deadline q \<longleftrightarrow> (\<exists>x \<in> set q. is_ack x \<and> is_early deadline x)"

lemma listen_spec:
  assumes "punch_listen deadline now q = (ok, now', q', out)" and "now < deadline" and "sorted (map fst q)"
  shows "ok = acked_before deadline q \<and> now \<le> now' \<and> now' \<le> deadline \<and> out = answers deadline q \<and>
    (\<not> ok \<longrightarrow> now' = deadline \<and> q' = dropWhile (is_early deadline) q)"
  using assms
proof (induction deadline now q arbitrary: ok now' q' out rule: punch_listen.induct)
  case (1 deadline now)
  then show ?case by (simp add: acked_before_def)
next
  case (2 deadline now t d a q)
  show ?case
  proof (cases "deadline \<le> t")
    case True
    then have "\<not> is_early deadline x" if "x \<in> set ((t, d, a) # q)" for x
      using that "2.prems"(3) by (cases x) force
    with True "2.prems"(1,2) show ?thesis by (auto simp: acked_before_def)
  next
    case False
    show ?thesis
    proof (cases "d = PunchAck")
      case True
      with False "2.prems"(1,2) show ?thesis by (auto simp: acked_before_def)
    next
      case d: False
      obtain out1 where r: "punch_listen deadline (max now t) q = (ok, now', q', out1)"
          and out: "out = (if d = Punch then [(PunchAck, a)] else []) @ out1"
        using "2.prems"(1,2) False d by (auto split: prod.splits)
      have "\<not> (deadline \<le> now \<or> deadline \<le> t)" "max now t < deadline" "sorted (map fst q)"
        using False "2.prems"(2,3) by auto
      from "2.IH" [OF this(1) d r this(2,3)] False d out show ?thesis by (auto simp: acked_before_def)
    qed
  qed
qed

text \<open>What was not read before one deadline is read before the next.\<close>

lemma late_after:
  assumes "sorted (map fst ((t, d, a) # q))" and "deadline \<le> t" and "x \<in> set q"
  shows "\<not> is_early deadline x"
  using assms by (cases x) force

lemma acked_split:
  "sorted (map fst q) \<Longrightarrow> d1 \<le> d2 \<Longrightarrow>
    acked_before d2 q \<longleftrightarrow> acked_before d1 q \<or> acked_before d2 (dropWhile (is_early d1) q)"
proof (induction q)
  case (Cons x q)
  obtain t d a where x: "x = (t, d, a)" by (cases x)
  with Cons late_after [of t d a q d1] show ?case by (cases "t < d1") (auto simp: acked_before_def)
qed (simp add: acked_before_def)

lemma answers_split:
  "sorted (map fst q) \<Longrightarrow> d1 \<le> d2 \<Longrightarrow> \<not> acked_before d1 q \<Longrightarrow>
    answers d2 q = answers d1 q @ answers d2 (dropWhile (is_early d1) q)"
proof (induction q)
  case (Cons x q)
  obtain t d a where x: "x = (t, d, a)" by (cases x)
  with Cons late_after [of t d a q d1] show ?case by (cases "t < d1") (auto simp: acked_before_def)
qed simp

lemma sorted_rest: "sorted (map fst q) \<Longrightarrow> sorted (map fst (dropWhile P q))"
  by (induction q) auto

lemma answers_stop:
  assumes "acked_before d1 q" and "d1 \<le> d2" and "sorted (map fst q)"
  shows "answers d2 q = answers d1 q"
  using assms
proof (induction q)
  case (Cons x q)
  obtain t d a where x: "x = (t, d, a)" by (cases x)
  have "acked_before d1 q \<and> t < d1" if nd: "d \<noteq> PunchAck"
  proof -
    obtain t' a' where y: "(t', PunchAck, a') \<in> set q" "t' < d1" using Cons.prems(1) x nd by (auto simp: acked_before_def)
    then have "t \<le> t'" using Cons.prems(3) x by force
    with y show ?thesis by (force simp: acked_before_def)
  qed
  with Cons x show ?case by (cases "d = PunchAck") auto
qed (simp add: acked_before_def)

lemma answers_are_acks: "p \<in> set (answers d q) \<Longrightarrow> fst p = PunchAck"
  by (induction d q rule: answers.induct) (auto split: if_splits)

lemma filter_answers [simp]:
  "filter (\<lambda>p. fst p \<noteq> Punch) (answers d q) = answers d q" "filter (\<lambda>p. fst p = Punch) (answers d q) = []"
  "(Punch, a) \<notin> set (answers d q)"
  using answers_are_acks [of _ d q] answers_are_acks [of "(Punch, a)" d q]
  by (force simp: filter_id_conv filter_empty_conv)+

definition punch_outcome :: "nat \<Rightarrow> time \<Rightarrow> udp_addr \<Rightarrow> time \<Rightarrow> inbox \<Rightarrow> bool \<Rightarrow> time \<Rightarrow> (payload \<times> udp_addr) list \<Rightarrow> bool" where
  "punch_outcome n deadline peer now q ok now' out \<longleftrightarrow> ok = acked_before deadline q \<and> now \<le> now' \<and> now' \<le> deadline \<and>
     filter (\<lambda>p. fst p \<noteq> Punch) out = answers deadline q \<and> length (filter (\<lambda>p. fst p = Punch) out) \<le> n \<and>
     (\<forall>a. (Punch, a) \<in> set out \<longrightarrow> a = peer)"

lemma punch_spec:
  assumes "punch n interval peer now q = (ok, now', q', out)" and "0 < interval" and "sorted (map fst q)" and "0 < n"
  shows "punch_outcome n (now + real n * interval) peer now q ok now' out"
  using assms
proof (induction n arbitrary: ok now now' q q' out)
  case (Suc n)
  let ?dl = "now + real (Suc n) * interval"
  obtain ok1 now1 q1 out1 where l: "punch_listen (now + interval) now q = (ok1, now1, q1, out1)" by (metis surj_pair)
  have dl: "now + interval \<le> ?dl" using Suc.prems(2) by (simp add: distrib_right)
  have s: "ok1 = acked_before (now + interval) q" "now \<le> now1" "now1 \<le> now + interval" "out1 = answers (now + interval) q"
      "\<not> ok1 \<Longrightarrow> now1 = now + interval \<and> q1 = dropWhile (is_early (now + interval)) q"
    using listen_spec [OF l _ Suc.prems(3)] Suc.prems(2) by simp_all
  show ?case
  proof (cases ok1)
    case True
    then have "answers ?dl q = out1" "acked_before ?dl q"
      using answers_stop [OF _ dl Suc.prems(3)] acked_split [OF Suc.prems(3) dl] s(1,4) by simp_all
    moreover have "ok" "now' = now1" "out = (Punch, peer) # out1" using True l Suc.prems(1) by auto
    ultimately show ?thesis using s dl by (auto simp: punch_outcome_def)
  next
    case False
    obtain ok2 now2 q2 out2 where p: "punch n interval peer now1 q1 = (ok2, now2, q2, out2)" by (metis surj_pair)
    then have out: "ok = ok2" "now' = now2" "out = (Punch, peer) # out1 @ out2" using False l Suc.prems(1) by auto
    show ?thesis
    proof (cases "n = 0")
      case True
      with p out False s show ?thesis by (auto simp: punch_outcome_def)
    next
      case n: False
      have e: "now1 + real n * interval = ?dl" using s(5) [OF False] by (simp add: distrib_right)
      have "sorted (map fst q1)" using sorted_rest [OF Suc.prems(3)] s(5) [OF False] by simp
      from Suc.IH [OF p Suc.prems(2) this] n have "punch_outcome n ?dl peer now1 q1 ok2 now2 out2" unfolding e by simp
      moreover have "acked_before ?dl q = acked_before ?dl q1" "answers ?dl q = out1 @ answers ?dl q1"
        using acked_split [OF Suc.prems(3) dl] answers_split [OF Suc.prems(3) dl] s False by simp_all
      ultimately show ?thesis using out s(2,4) by (auto simp: punch_outcome_def)
    qed
  qed
qed simp

text \<open>C34: With datagrams in order of their arrival, a punch of \<open>n\<close> attempts succeeds if and only if an
  acknowledgement, from whatever address, arrives before \<open>n\<close> intervals are over, and it is never
  longer than that; every punch packet that arrives before the first acknowledgement is answered
  once, at the address it comes from, and nothing else is sent but at most \<open>n\<close> packets to the
  peer.\<close>

theorem punch_ends_in_time:
  assumes "punch n interval peer now q = (ok, now', q', out)"
    and "0 < n" and "0 < interval" and "sorted (map fst q)"
  shows "(ok \<longleftrightarrow> (\<exists>t a. (t, PunchAck, a) \<in> set q \<and> t < now + real n * interval)) \<and>
    now \<le> now' \<and> now' \<le> now + real n * interval \<and>
    filter (\<lambda>p. fst p \<noteq> Punch) out = answers (now + real n * interval) q \<and>
    length (filter (\<lambda>p. fst p = Punch) out) \<le> n \<and> (\<forall>a. (Punch, a) \<in> set out \<longrightarrow> a = peer)"
proof -
  have "acked_before d q \<longleftrightarrow> (\<exists>t a. (t, PunchAck, a) \<in> set q \<and> t < d)" for d by (force simp: acked_before_def)
  then show ?thesis using punch_spec [OF assms(1,3,4,2)] by (simp add: punch_outcome_def)
qed

definition sample_inbox :: inbox where
  "sample_inbox = [(0.1, Punch, (''p'', 7)), (0.2, Noise, (''x'', 1)), (0.3, PunchAck, (''p'', 7)), (0.4, Punch, (''p'', 7))]"

lemma sample_punch:
  "punch 20 (1 / 4) (''p'', 7) 0 sample_inbox =
    (True, 0.3, [(0.4, Punch, (''p'', 7))], [(Punch, (''p'', 7)), (PunchAck, (''p'', 7)), (Punch, (''p'', 7))])"
  by (simp add: sample_inbox_def eval_nat_numeral)

theorem punch_ends_in_time_witness:
  "filter (\<lambda>p. fst p \<noteq> Punch) [(Punch, (''p'', 7)), (PunchAck, (''p'', 7)), (Punch, (''p'', 7))] =
    answers (0 + real 20 * (1 / 4)) sample_inbox"
  by (rule punch_ends_in_time [OF sample_punch, THEN conjunct2, THEN conjunct2, THEN conjunct2, THEN conjunct1])
    (simp_all add: sample_inbox_def)

section \<open>Both ends\<close>

text \<open>
  One end as its events have it: \<open>Ready n\<close> before the call, \<open>Punching k\<close> with \<open>k\<close> attempts left, and
  the two results.
\<close>

datatype phase = Ready nat | Punching nat | Connected | GaveUp

datatype event = Start | Arrives payload | Timeout

fun punch_event :: "event \<Rightarrow> phase \<Rightarrow> phase \<times> payload list" where
  "punch_event Start (Ready 0) = (GaveUp, [])"
| "punch_event Start (Ready (Suc k)) = (Punching k, [Punch])"
| "punch_event (Arrives PunchAck) (Punching k) = (Connected, [])"
| "punch_event (Arrives Punch) (Punching k) = (Punching k, [PunchAck])"
| "punch_event Timeout (Punching 0) = (GaveUp, [])"
| "punch_event Timeout (Punching (Suc k)) = (Punching k, [Punch])"
| "punch_event ev p = (p, [])"

fun punch_events :: "event list \<Rightarrow> phase \<Rightarrow> phase \<times> payload list" where
  "punch_events [] p = (p, [])"
| "punch_events (ev # evs) p =
     (case punch_event ev p of (p', out) \<Rightarrow> (case punch_events evs p' of (p'', out') \<Rightarrow> (p'', out @ out')))"

lemma punch_events_append:
  "punch_events (xs @ ys) p = (case punch_events xs p of (p', out) \<Rightarrow>
    (case punch_events ys p' of (p'', out') \<Rightarrow> (p'', out @ out')))"
  by (induction xs arbitrary: p) (auto split: prod.splits)

text \<open>The loop is a run of these events, with arrivals taken from its queue.\<close>

definition arrivals :: "event list \<Rightarrow> payload set" where
  "arrivals evs = {d. Arrives d \<in> set evs}"

lemma arrivals_simps [simp]:
  "arrivals [] = {}" "arrivals (Arrives d # evs) = insert d (arrivals evs)" "arrivals (Timeout # evs) = arrivals evs"
  "arrivals (Start # evs) = arrivals evs" "arrivals (xs @ ys) = arrivals xs \<union> arrivals ys"
  by (auto simp: arrivals_def)

abbreviation payloads :: "inbox \<Rightarrow> payload set" where
  "payloads q \<equiv> (fst \<circ> snd) ` set q"

lemma listen_events:
  assumes "punch_listen deadline now q = (ok, now', q', out)"
  shows "\<exists>evs. punch_events evs (Punching k) = (if ok then Connected else Punching k, map fst out) \<and>
    arrivals evs \<subseteq> payloads q \<and> set q' \<subseteq> set q"
  using assms
proof (induction deadline now q arbitrary: ok now' q' out rule: punch_listen.induct)
  case (1 deadline now)
  then show ?case by (auto intro: exI [of _ "[]"])
next
  case (2 deadline now t d a q)
  show ?case
  proof (cases "deadline \<le> now \<or> deadline \<le> t")
    case True
    with "2.prems" show ?thesis by (auto intro: exI [of _ "[]"])
  next
    case False
    show ?thesis
    proof (cases "d = PunchAck")
      case True
      with False "2.prems" show ?thesis by (auto intro: exI [of _ "[Arrives PunchAck]"])
    next
      case d: False
      obtain out1 where r: "punch_listen deadline (max now t) q = (ok, now', q', out1)"
          and out: "out = (if d = Punch then [(PunchAck, a)] else []) @ out1"
        using "2.prems" False d by (auto split: prod.splits)
      from "2.IH" [OF False d r] obtain evs where
          "punch_events evs (Punching k) = (if ok then Connected else Punching k, map fst out1)"
          "arrivals evs \<subseteq> payloads q" "set q' \<subseteq> set q" by blast
      then show ?thesis using d out by (cases d) (auto intro!: exI [of _ "Arrives d # evs"])
    qed
  qed
qed

lemma punch_events_of_loop:
  assumes "punch n interval peer now q = (ok, now', q', out)"
  shows "\<exists>evs. punch_events (Start # evs) (Ready n) = (if ok then Connected else GaveUp, map fst out) \<and>
    arrivals evs \<subseteq> payloads q"
  using assms
proof (induction n arbitrary: ok now now' q q' out)
  case 0
  then show ?case by (auto intro: exI [of _ "[]"])
next
  case (Suc n)
  obtain ok1 now1 q1 out1 where l: "punch_listen (now + interval) now q = (ok1, now1, q1, out1)" by (metis surj_pair)
  from listen_events [OF l, of n] obtain evs where
      e: "punch_events evs (Punching n) = (if ok1 then Connected else Punching n, map fst out1)"
        "arrivals evs \<subseteq> payloads q" "set q1 \<subseteq> set q" by blast
  show ?case
  proof (cases ok1)
    case True
    then show ?thesis using l e Suc.prems by (auto intro!: exI [of _ evs])
  next
    case False
    obtain ok2 now2 q2 out2 where p: "punch n interval peer now1 q1 = (ok2, now2, q2, out2)" by (metis surj_pair)
    then have out: "ok = ok2" "out = (Punch, peer) # out1 @ out2" using False l Suc.prems(1) by auto
    from Suc.IH [OF p] obtain evs2 where
        e2: "punch_events (Start # evs2) (Ready n) = (if ok2 then Connected else GaveUp, map fst out2)"
          "arrivals evs2 \<subseteq> payloads q1" by blast
    have "punch_event Timeout (Punching n) = punch_event Start (Ready n)" by (cases n) auto
    then have "punch_events (evs @ Timeout # evs2) (Punching n) = (if ok2 then Connected else GaveUp, map fst out1 @ map fst out2)"
      using e(1) e2(1) False by (simp add: punch_events_append)
    moreover have "arrivals evs2 \<subseteq> payloads q" using e2(2) image_mono [OF e(3)] by (rule order.trans)
    ultimately show ?thesis using out e(2) by (intro exI [of _ "evs @ Timeout # evs2"]) auto
  qed
qed

text \<open>Two ends and the datagrams sent to each. The network delivers only what was sent, but may lose,
  repeat, delay and reorder it; what arrives after an end has returned is not read.\<close>

datatype side = Here | There

fun other :: "side \<Rightarrow> side" where
  "other Here = There"
| "other There = Here"

lemma other_other [simp]: "other (other s) = s" "other s \<noteq> s" "s \<noteq> other s"
  by (cases s; simp)+

record net =
  ends :: "side \<Rightarrow> phase"
  sent_to :: "side \<Rightarrow> payload set"
  heard :: "side \<Rightarrow> payload set"

definition after_event :: "event \<Rightarrow> side \<Rightarrow> net \<Rightarrow> net" where
  "after_event ev s w =
     (case punch_event ev (ends w s) of
       (p, out) \<Rightarrow> w\<lparr>ends := (ends w)(s := p),
         sent_to := (sent_to w)(other s := sent_to w (other s) \<union> set out),
         heard := (case ev of Arrives d \<Rightarrow> (heard w)(s := insert d (heard w s)) | _ \<Rightarrow> heard w)\<rparr>)"

fun fires :: "event \<Rightarrow> phase \<Rightarrow> payload set \<Rightarrow> bool" where
  "fires Start (Ready n) to_here = True"
| "fires Timeout (Punching k) to_here = True"
| "fires (Arrives d) (Punching k) to_here = (d \<in> to_here)"
| "fires ev p to_here = False"

inductive net_step :: "net \<Rightarrow> net \<Rightarrow> bool" where
  net_event: "fires ev (ends w s) (sent_to w s) \<Longrightarrow> net_step w (after_event ev s w)"

inductive_cases net_stepE: "net_step w w'"

definition quiet_net :: "nat \<Rightarrow> nat \<Rightarrow> net" where
  "quiet_net n m = \<lparr>ends = (\<lambda>s. case s of Here \<Rightarrow> Ready n | There \<Rightarrow> Ready m), sent_to = \<lambda>s. {}, heard = \<lambda>s. {}\<rparr>"

definition net_ok :: "net \<Rightarrow> bool" where
  "net_ok w \<longleftrightarrow> (\<forall>s. (PunchAck \<in> sent_to w s \<longrightarrow> Punch \<in> heard w (other s)) \<and>
     (ends w s = Connected \<longrightarrow> PunchAck \<in> heard w s) \<and> heard w s \<subseteq> sent_to w s)"

lemma event_cases:
  "punch_event (Arrives d) (Punching k) = (if d = PunchAck then (Connected, []) else (Punching k, if d = Punch then [PunchAck] else []))"
  "punch_event Timeout (Punching k) = (case k of 0 \<Rightarrow> (GaveUp, []) | Suc j \<Rightarrow> (Punching j, [Punch]))"
  "punch_event Start (Ready k) = (case k of 0 \<Rightarrow> (GaveUp, []) | Suc j \<Rightarrow> (Punching j, [Punch]))"
  by (cases d; simp) (simp_all split: nat.split)

lemma side_eq: "t = s \<or> t = other s"
  by (cases s; cases t) auto

lemma fires_cases:
  assumes "fires ev p to_here"
  obtains n where "ev = Start" "p = Ready n"
  | k where "ev = Timeout" "p = Punching k"
  | d k where "ev = Arrives d" "p = Punching k" "d \<in> to_here"
  using assms by (cases "(ev, p, to_here)" rule: fires.cases) auto

lemma net_ok_step:
  assumes "net_step w w'" and "net_ok w"
  shows "net_ok w'"
proof -
  obtain ev s where ev: "w' = after_event ev s w" "fires ev (ends w s) (sent_to w s)"
    using assms(1) by (elim net_stepE) blast
  have here: "(PunchAck \<in> sent_to w t \<longrightarrow> Punch \<in> heard w (other t)) \<and> (ends w t = Connected \<longrightarrow> PunchAck \<in> heard w t) \<and>
      heard w t \<subseteq> sent_to w t" for t using assms(2) by (simp add: net_ok_def)
  show ?thesis
    unfolding net_ok_def
  proof (intro allI)
    fix t
    show "(PunchAck \<in> sent_to w' t \<longrightarrow> Punch \<in> heard w' (other t)) \<and> (ends w' t = Connected \<longrightarrow> PunchAck \<in> heard w' t) \<and>
        heard w' t \<subseteq> sent_to w' t"
      using ev(2) here [of s] here [of "other s"] side_eq [of t s] unfolding ev(1)
      by (cases rule: fires_cases) (auto simp: after_event_def event_cases split: nat.splits if_splits)
  qed
qed

lemma quiet_ok: "net_ok (quiet_net n m)"
  by (auto simp: net_ok_def quiet_net_def split: side.splits)

lemma net_ok_reachable: "net_step\<^sup>*\<^sup>* (quiet_net n m) w \<Longrightarrow> net_ok w"
  by (induction rule: rtranclp_induct) (auto intro: quiet_ok net_ok_step)


text \<open>A run in which the first packet of \<open>There\<close> is lost, as it is when it comes before \<open>Here\<close> has sent
  one.\<close>

definition met_once :: "nat \<Rightarrow> nat \<Rightarrow> net" where
  "met_once n m =
     after_event (Arrives PunchAck) Here (after_event (Arrives Punch) There (after_event Start There
       (after_event Start Here (quiet_net n m))))"

lemma met_once_ends:
  "0 < n \<Longrightarrow> 0 < m \<Longrightarrow> ends (met_once n m) s = (case s of Here \<Rightarrow> Connected | There \<Rightarrow> Punching (m - 1))"
  by (cases s; cases n; cases m) (simp_all add: met_once_def after_event_def quiet_net_def)

lemma met_once_reachable:
  assumes "0 < n" and "0 < m"
  shows "net_step\<^sup>*\<^sup>* (quiet_net n m) (met_once n m)"
proof -
  obtain i j where n: "n = Suc i" "m = Suc j" using assms by (metis gr0_implies_Suc)
  let ?a = "after_event Start Here (quiet_net n m)"
  let ?b = "after_event Start There ?a"
  let ?c = "after_event (Arrives Punch) There ?b"
  have "net_step (quiet_net n m) ?a" by (rule net_event) (simp add: quiet_net_def)
  moreover have "net_step ?a ?b" by (rule net_event) (simp add: quiet_net_def after_event_def n)
  moreover have "net_step ?b ?c" by (rule net_event) (simp add: quiet_net_def after_event_def n)
  moreover have "net_step ?c (met_once n m)"
    unfolding met_once_def by (rule net_event) (simp add: quiet_net_def after_event_def n)
  ultimately show ?thesis by (meson rtranclp.rtrancl_refl rtranclp.rtrancl_into_rtrancl)
qed


text \<open>
  But the other end need not learn of it: it acknowledges and goes on punching, while nobody
  answers any more. Once one end has returned, the other can only succeed with an acknowledgement
  that was on its way already.
\<close>

definition late_side :: "side \<Rightarrow> net \<Rightarrow> bool" where
  "late_side s w \<longleftrightarrow> ends w s = Connected \<and> PunchAck \<notin> sent_to w (other s) \<and> ends w (other s) \<noteq> Connected"

lemma late_side_step:
  assumes "net_step w w'" and "late_side s w"
  shows "late_side s w'"
proof -
  obtain ev t where ev: "w' = after_event ev t w" "fires ev (ends w t) (sent_to w t)"
    using assms(1) by (elim net_stepE) blast
  show ?thesis
    using ev(2) assms(2) side_eq [of t s] unfolding ev(1)
    by (cases rule: fires_cases) (auto simp: late_side_def after_event_def event_cases split: nat.splits if_splits)
qed

lemma late_side_never_connects: "net_step\<^sup>*\<^sup>* w w' \<Longrightarrow> late_side s w \<Longrightarrow> ends w' (other s) \<noteq> Connected"
proof -
  assume "net_step\<^sup>*\<^sup>* w w'" "late_side s w"
  then have "late_side s w'" by (induction rule: rtranclp_induct) (auto intro: late_side_step)
  then show ?thesis by (simp add: late_side_def)
qed

lemma one_sided_success:
  assumes "0 < n" and "0 < m" and "net_step\<^sup>*\<^sup>* (met_once n m) w"
  shows "net_step\<^sup>*\<^sup>* (quiet_net n m) (met_once n m) \<and> ends (met_once n m) Here = Connected \<and> ends w There \<noteq> Connected"
proof -
  have "late_side Here (met_once n m)"
    using assms(1,2) met_once_ends [of n m]
    by (cases n; cases m) (auto simp: late_side_def met_once_def after_event_def quiet_net_def)
  from late_side_never_connects [OF assms(3) this] show ?thesis
    using met_once_reachable [OF assms(1,2)] met_once_ends [OF assms(1,2), of Here] by simp
qed

end
