(* ===== verification/Services.thy ===== *)
theory Services
  imports Device_Manager Online_Recovery Replication_Scheduler Remote_Source
begin

text \<open>
  The background work of a daemon: the loops that the managers start as tasks of the event loop
  and stop again. Heartbeat (\<^verbatim>\<open>stardustlib/device_manager.py\<close>), recovery
  (\<^verbatim>\<open>stardustlib/online_recovery.py\<close>), relay worker (\<^verbatim>\<open>stardustlib/relay_worker.py\<close>), periodic
  and immediate synchronization (\<^verbatim>\<open>stardustlib/sync_client.py\<close>), the replication scheduler
  (\<^verbatim>\<open>stardustlib/replication_scheduler.py\<close>), and the P2P server
  (\<^verbatim>\<open>stardustlib/p2p_server.py\<close>). The locale \<open>background_service\<close> is what starting and stopping
  promises; it is interpreted for the five that run tasks.
\<close>

section \<open>Tasks\<close>

text \<open>The tasks that a service has created, by number. A loop that is cancelled and waited for is
  over, whichever way it ends; one that is over stays so.\<close>

datatype task = Active | Over

definition create_task :: "task list \<Rightarrow> nat \<times> task list" where
  "create_task ts = (length ts, ts @ [Active])"

definition end_task :: "nat \<Rightarrow> task list \<Rightarrow> task list" where
  "end_task i ts = ts[i := Over]"

definition running_task :: "nat option \<Rightarrow> task list \<Rightarrow> bool" where
  "running_task t ts = (case t of None \<Rightarrow> False | Some i \<Rightarrow> i < length ts \<and> ts ! i = Active)"

definition active :: "task list \<Rightarrow> nat list" where
  "active ts = filter (\<lambda>i. ts ! i = Active) [0..<length ts]"

lemma set_active [simp]: "set (active ts) = {i. i < length ts \<and> ts ! i = Active}"
  by (auto simp: active_def)

lemma distinct_active: "distinct (active ts)"
  by (simp add: active_def)

lemma active_create: "set (active (snd (create_task ts))) = insert (length ts) (set (active ts))"
  by (auto simp: create_task_def nth_append less_Suc_eq)

lemma active_end: "set (active (end_task i ts)) = set (active ts) - {i}"
  by (cases "i < length ts") (auto simp: end_task_def nth_list_update list_update_beyond split: if_splits)

lemma active_Nil [simp]: "active [] = []"
  by (simp add: active_def)

text \<open>What happens to a service: its methods are called, or a loop ends by itself.\<close>

datatype life = Start_It | Stop_It | Ends nat

type_synonym 's service = "'s \<times> task list"

fun live ::
  "('s service \<Rightarrow> 's service) \<Rightarrow> ('s service \<Rightarrow> 's service) \<Rightarrow> (nat \<Rightarrow> 's service \<Rightarrow> 's service) \<Rightarrow>
     life \<Rightarrow> 's service \<Rightarrow> 's service" where
  "live start stop ends Start_It st = start st"
| "live start stop ends Stop_It st = stop st"
| "live start stop ends (Ends i) st = ends i st"

text \<open>It is never started when \<open>free\<close> does not hold.\<close>

fun orderly ::
  "('s \<Rightarrow> bool) \<Rightarrow> ('s service \<Rightarrow> 's service) \<Rightarrow> ('s service \<Rightarrow> 's service) \<Rightarrow> (nat \<Rightarrow> 's service \<Rightarrow> 's service) \<Rightarrow>
     life list \<Rightarrow> 's service \<Rightarrow> bool" where
  "orderly free start stop ends [] st = True"
| "orderly free start stop ends (x # xs) st =
     ((x = Start_It \<longrightarrow> free (fst st)) \<and> orderly free start stop ends xs (live start stop ends x st))"

lemma orderly_always [simp]: "orderly (\<lambda>s. True) start stop ends xs st"
  by (induction xs arbitrary: st) simp_all

section \<open>The contract\<close>

locale background_service =
  fixes start :: "'s service \<Rightarrow> 's service" and stop :: "'s service \<Rightarrow> 's service"
    and ends :: "nat \<Rightarrow> 's service \<Rightarrow> 's service" and free :: "'s \<Rightarrow> bool"
    and own :: "'s \<Rightarrow> nat list" and limit :: nat and ok :: "'s service \<Rightarrow> bool"
  assumes known: "ok st \<Longrightarrow> set (active (snd st)) \<subseteq> set (own (fst st))"
    and few: "ok st \<Longrightarrow> length (own (fst st)) \<le> limit"
    and start_ok: "ok st \<Longrightarrow> free (fst st) \<Longrightarrow> ok (start st)"
    and stop_ok: "ok st \<Longrightarrow> ok (stop st) \<and> active (snd (stop st)) = []"
    and ends_ok: "ok st \<Longrightarrow> ok (ends i st)"
begin

lemma live_ok: "ok st \<Longrightarrow> (x = Start_It \<longrightarrow> free (fst st)) \<Longrightarrow> ok (live start stop ends x st)"
  by (cases x) (auto simp: start_ok stop_ok ends_ok)

lemma lives_ok: "ok st \<Longrightarrow> orderly free start stop ends xs st \<Longrightarrow> ok (fold (live start stop ends) xs st)"
  by (induction xs arbitrary: st) (auto simp: live_ok)

lemma few_active: "ok st \<Longrightarrow> length (active (snd st)) \<le> limit"
proof -
  assume "ok st"
  have "length (active (snd st)) = card (set (active (snd st)))" by (simp only: distinct_card [OF distinct_active])
  also have "\<dots> \<le> card (set (own (fst st)))" using known [OF \<open>ok st\<close>] by (intro card_mono) auto
  also have "\<dots> \<le> limit" using card_length few [OF \<open>ok st\<close>] by (rule order_trans)
  finally show ?thesis .
qed

text \<open>However often it is started and stopped, it has few loops, and none after a stop.\<close>

lemma well_behaved:
  assumes "ok st" and "orderly free start stop ends xs st"
  shows "length (active (snd (fold (live start stop ends) xs st))) \<le> limit \<and>
    active (snd (fold (live start stop ends) (xs @ [Stop_It]) st)) = []"
  using few_active [OF lives_ok [OF assms]] stop_ok [OF lives_ok [OF assms]] by simp

end

section \<open>Heartbeat\<close>

record device_service =
  dv_manager :: device_manager
  dv_task :: "nat option"
  dv_open :: bool

definition start_heartbeat :: "device_service service \<Rightarrow> device_service service" where
  "start_heartbeat = (\<lambda>(s, ts).
     if dm_device_id (dv_manager s) = None then (s, ts)
     else if running_task (dv_task s) ts then (s, ts)
     else (let (i, ts1) = create_task ts in (s\<lparr>dv_task := Some i\<rparr>, ts1)))"

text \<open>\<open>stop\<close> ends the loop, takes back the port mapping and closes the client.\<close>

definition stop_device :: "bool \<Rightarrow> bool \<Rightarrow> device_service service \<Rightarrow> device_service service" where
  "stop_device has_upnp deleted_ok = (\<lambda>(s, ts).
     let (s1, ts1) = (if running_task (dv_task s) ts then (s\<lparr>dv_task := None\<rparr>, end_task (the (dv_task s)) ts) else (s, ts))
     in (s1\<lparr>dv_manager := teardown_upnp has_upnp deleted_ok (dv_manager s1), dv_open := False\<rparr>, ts1))"

definition loop_ends :: "nat \<Rightarrow> 's service \<Rightarrow> 's service" where
  "loop_ends i = (\<lambda>(s, ts). (s, end_task i ts))"

text \<open>The loop itself, over the outcomes of its requests.\<close>

definition heartbeat_loop :: "unit direct result list \<Rightarrow> device_manager \<Rightarrow> device_manager" where
  "heartbeat_loop answers m = fold send_heartbeat answers m"

definition one_task_ok :: "('s \<Rightarrow> nat option) \<Rightarrow> 's service \<Rightarrow> bool" where
  "one_task_ok t = (\<lambda>(s, ts). set (active ts) \<subseteq> set_option (t s))"

lemma one_task_active: "one_task_ok t (s, ts) \<Longrightarrow> \<not> running_task (t s) ts \<Longrightarrow> active ts = []"
proof -
  assume "one_task_ok t (s, ts)" and "\<not> running_task (t s) ts"
  then have "set (active ts) = {}" by (cases "t s") (auto simp: one_task_ok_def running_task_def)
  then show ?thesis by (simp only: set_empty)
qed

lemma one_task_ended: "one_task_ok t (s, ts) \<Longrightarrow> t s = Some i \<Longrightarrow> active (end_task i ts) = []"
proof -
  assume "one_task_ok t (s, ts)" and "t s = Some i"
  then have "set (active (end_task i ts)) = {}" by (auto simp only: active_end one_task_ok_def prod.case option.set)
  then show ?thesis by (simp only: set_empty)
qed

interpretation heartbeat: background_service start_heartbeat "stop_device u k" loop_ends "\<lambda>s. True"
  "\<lambda>s. case dv_task s of None \<Rightarrow> [] | Some i \<Rightarrow> [i]" 1 "one_task_ok dv_task"
proof
  fix st :: "device_service service" and i
  obtain s ts where st: "st = (s, ts)" by (cases st)
  show "length (case dv_task (fst st) of None \<Rightarrow> [] | Some i \<Rightarrow> [i]) \<le> 1" by (simp split: option.split)
  assume ok: "one_task_ok dv_task st"
  show "set (active (snd st)) \<subseteq> set (case dv_task (fst st) of None \<Rightarrow> [] | Some i \<Rightarrow> [i])"
    using ok st by (auto simp: one_task_ok_def split: option.splits)
  show "one_task_ok dv_task (start_heartbeat st)"
    using ok one_task_active [of dv_task s ts] st active_create [of ts]
    by (auto simp: start_heartbeat_def create_task_def one_task_ok_def simp del: set_active)
  show "one_task_ok dv_task (stop_device u k st) \<and> active (snd (stop_device u k st)) = []"
    using ok one_task_active [of dv_task s ts] one_task_ended [of dv_task s ts] st
    by (auto simp: stop_device_def Let_def one_task_ok_def running_task_def simp del: set_active split: option.splits)
  show "one_task_ok dv_task (loop_ends i st)"
    using ok st active_end [of i ts] by (auto simp: loop_ends_def one_task_ok_def simp del: set_active)
qed

section \<open>Recovery\<close>

text \<open>The loop ends by itself when the device is online again.\<close>

record recovery_service =
  rc_running :: bool
  rc_recovered :: bool
  rc_task :: "nat option"

definition start_recovery :: "recovery_service service \<Rightarrow> recovery_service service" where
  "start_recovery = (\<lambda>(s, ts).
     if rc_running s then (s, ts)
     else (let (i, ts1) = create_task ts in (s\<lparr>rc_running := True, rc_task := Some i\<rparr>, ts1)))"

definition stop_recovery :: "recovery_service service \<Rightarrow> recovery_service service" where
  "stop_recovery = (\<lambda>(s, ts).
     let s0 = s\<lparr>rc_running := False\<rparr> in
     if running_task (rc_task s) ts then (s0\<lparr>rc_task := None\<rparr>, end_task (the (rc_task s)) ts) else (s0, ts))"

definition recovery_succeeds :: "nat \<Rightarrow> recovery_service service \<Rightarrow> recovery_service service" where
  "recovery_succeeds i = (\<lambda>(s, ts).
     if running_task (Some i) ts then (s\<lparr>rc_running := False, rc_recovered := True\<rparr>, end_task i ts) else (s, ts))"

definition recovery_ok :: "recovery_service service \<Rightarrow> bool" where
  "recovery_ok = (\<lambda>(s, ts). set (active ts) \<subseteq> set_option (rc_task s) \<and> (\<not> rc_running s \<longrightarrow> active ts = []))"

interpretation recovery: background_service start_recovery stop_recovery recovery_succeeds "\<lambda>s. True"
  "\<lambda>s. case rc_task s of None \<Rightarrow> [] | Some i \<Rightarrow> [i]" 1 recovery_ok
proof
  fix st :: "recovery_service service" and i
  obtain s ts where st: "st = (s, ts)" by (cases st)
  show "length (case rc_task (fst st) of None \<Rightarrow> [] | Some i \<Rightarrow> [i]) \<le> 1" by (simp split: option.split)
  assume "recovery_ok st"
  then have ok: "one_task_ok rc_task (s, ts)" "\<not> rc_running s \<Longrightarrow> active ts = []"
    by (simp_all add: st recovery_ok_def one_task_ok_def)
  show "set (active (snd st)) \<subseteq> set (case rc_task (fst st) of None \<Rightarrow> [] | Some i \<Rightarrow> [i])"
    using ok st by (auto simp: one_task_ok_def split: option.splits)
  show "recovery_ok (start_recovery st)"
    using ok st active_create [of ts]
    by (auto simp: start_recovery_def create_task_def recovery_ok_def one_task_ok_def simp del: set_active)
  show "recovery_ok (stop_recovery st) \<and> active (snd (stop_recovery st)) = []"
    using ok one_task_active [of rc_task s ts] one_task_ended [of rc_task s ts] st
    by (auto simp: stop_recovery_def Let_def recovery_ok_def running_task_def simp del: set_active split: option.splits)
  show "recovery_ok (recovery_succeeds i st)"
  proof (cases "running_task (Some i) ts")
    case True
    then have "i \<in> set (active ts)" by (simp add: running_task_def)
    then have "i \<in> set_option (rc_task s)" using ok(1) by (auto simp only: one_task_ok_def prod.case)
    then have "rc_task s = Some i" by (simp only: elem_set)
    with one_task_ended [OF ok(1)] True show ?thesis by (simp add: st recovery_succeeds_def recovery_ok_def del: set_active)
  qed (use \<open>recovery_ok st\<close> in \<open>simp add: st recovery_succeeds_def\<close>)
qed

section \<open>Relay worker\<close>

record relay_service =
  rw_running :: bool
  rw_task :: "nat option"
  rw_open :: bool

definition start_relay :: "relay_service service \<Rightarrow> relay_service service" where
  "start_relay = (\<lambda>(s, ts).
     if running_task (rw_task s) ts then (s, ts)
     else (let (i, ts1) = create_task ts in (s\<lparr>rw_running := True, rw_task := Some i\<rparr>, ts1)))"

definition stop_relay :: "relay_service service \<Rightarrow> relay_service service" where
  "stop_relay = (\<lambda>(s, ts).
     let s0 = s\<lparr>rw_running := False\<rparr>;
         (s1, ts1) = (if running_task (rw_task s) ts then (s0\<lparr>rw_task := None\<rparr>, end_task (the (rw_task s)) ts) else (s0, ts))
     in (s1\<lparr>rw_open := False\<rparr>, ts1))"

text \<open>The loop over its polls, as long as it is to run: what is answered, and after which polls it
  waits \<open>_RETRY_DELAY\<close> because of an exception. An unreachable server is one.\<close>

fun relay_loop ::
  "p2p_env \<Rightarrow> (bool \<times> relay_item direct result) list \<Rightarrow> p2p \<Rightarrow> ((string \<times> response) option \<times> bool) list \<times> p2p" where
  "relay_loop e [] st = ([], st)"
| "relay_loop e ((running, poll) # polls) st =
     (if \<not> running then ([], st)
      else (case poll of
        Inl x \<Rightarrow> (let (out, st1) = relay_loop e polls st in ((None, True) # out, st1))
      | Inr answer \<Rightarrow>
          (let (r, st1) = poll_once e answer st; (out, st2) = relay_loop e polls st1
           in ((r, answer = Unreachable) # out, st2))))"

interpretation relay: background_service start_relay stop_relay loop_ends "\<lambda>s. True"
  "\<lambda>s. case rw_task s of None \<Rightarrow> [] | Some i \<Rightarrow> [i]" 1 "one_task_ok rw_task"
proof
  fix st :: "relay_service service" and i
  obtain s ts where st: "st = (s, ts)" by (cases st)
  show "length (case rw_task (fst st) of None \<Rightarrow> [] | Some i \<Rightarrow> [i]) \<le> 1" by (simp split: option.split)
  assume ok: "one_task_ok rw_task st"
  show "set (active (snd st)) \<subseteq> set (case rw_task (fst st) of None \<Rightarrow> [] | Some i \<Rightarrow> [i])"
    using ok st by (auto simp: one_task_ok_def split: option.splits)
  show "one_task_ok rw_task (start_relay st)"
    using ok one_task_active [of rw_task s ts] st active_create [of ts]
    by (auto simp: start_relay_def create_task_def one_task_ok_def simp del: set_active)
  show "one_task_ok rw_task (stop_relay st) \<and> active (snd (stop_relay st)) = []"
    using ok one_task_active [of rw_task s ts] one_task_ended [of rw_task s ts] st
    by (auto simp: stop_relay_def Let_def one_task_ok_def running_task_def simp del: set_active split: option.splits)
  show "one_task_ok rw_task (loop_ends i st)"
    using ok st active_end [of i ts] by (auto simp: loop_ends_def one_task_ok_def simp del: set_active)
qed

section \<open>Synchronization\<close>

text \<open>The periodic loop and the one that waits for a new version.\<close>

record sync_service =
  sn_running :: bool
  sn_task :: "nat option"
  sn_wait :: "nat option"
  sn_open :: bool

definition start_periodic_sync :: "sync_service service \<Rightarrow> sync_service service" where
  "start_periodic_sync = (\<lambda>(s, ts).
     if sn_running s then (s, ts)
     else (let (i, ts1) = create_task ts; (k, ts2) = create_task ts1
       in (s\<lparr>sn_running := True, sn_task := Some i, sn_wait := Some k\<rparr>, ts2)))"

definition cancel_wait :: "nat option \<Rightarrow> task list \<Rightarrow> task list" where
  "cancel_wait t ts = (case t of None \<Rightarrow> ts | Some i \<Rightarrow> end_task i ts)"

definition stop_sync :: "sync_service service \<Rightarrow> sync_service service" where
  "stop_sync = (\<lambda>(s, ts).
     (s\<lparr>sn_running := False, sn_task := None, sn_wait := None, sn_open := False\<rparr>,
      cancel_wait (sn_wait s) (cancel_wait (sn_task s) ts)))"

definition sync_ok :: "sync_service service \<Rightarrow> bool" where
  "sync_ok = (\<lambda>(s, ts). set (active ts) \<subseteq> set_option (sn_task s) \<union> set_option (sn_wait s) \<and> (\<not> sn_running s \<longrightarrow> active ts = []))"

lemma active_cancel_wait: "set (active (cancel_wait t ts)) = set (active ts) - set_option t"
  by (cases t) (simp_all only: cancel_wait_def option.case active_end option.set Diff_empty)

interpretation synchronization: background_service start_periodic_sync stop_sync loop_ends "\<lambda>s. True"
  "\<lambda>s. (case sn_task s of None \<Rightarrow> [] | Some i \<Rightarrow> [i]) @ (case sn_wait s of None \<Rightarrow> [] | Some i \<Rightarrow> [i])" 2 sync_ok
proof
  fix st :: "sync_service service" and i
  obtain s ts where st: "st = (s, ts)" by (cases st)
  show "length ((case sn_task (fst st) of None \<Rightarrow> [] | Some i \<Rightarrow> [i]) @ (case sn_wait (fst st) of None \<Rightarrow> [] | Some i \<Rightarrow> [i])) \<le> 2"
    by (simp split: option.split)
  assume "sync_ok st"
  then have ok: "set (active ts) \<subseteq> set_option (sn_task s) \<union> set_option (sn_wait s)" "\<not> sn_running s \<Longrightarrow> active ts = []"
    by (simp_all add: st sync_ok_def)
  show "set (active (snd st)) \<subseteq>
      set ((case sn_task (fst st) of None \<Rightarrow> [] | Some i \<Rightarrow> [i]) @ (case sn_wait (fst st) of None \<Rightarrow> [] | Some i \<Rightarrow> [i]))"
    using ok(1) st by (auto simp del: set_active split: option.splits)
  show "sync_ok (start_periodic_sync st)"
    using ok st active_create [of ts] active_create [of "snd (create_task ts)"]
    by (auto simp: start_periodic_sync_def create_task_def sync_ok_def simp del: set_active)
  have "set (active (snd (stop_sync st))) = {}"
    using ok(1) by (auto simp: st stop_sync_def active_cancel_wait simp del: set_active)
  then show "sync_ok (stop_sync st) \<and> active (snd (stop_sync st)) = []"
    by (simp add: st stop_sync_def sync_ok_def del: set_active)
  have "active ts = [] \<Longrightarrow> active (end_task i ts) = []"
    using active_end [of i ts] by (simp del: set_active)
  then show "sync_ok (loop_ends i st)"
    using ok st active_end [of i ts] by (auto simp: loop_ends_def sync_ok_def simp del: set_active)
qed

section \<open>The scheduler\<close>

text \<open>\<open>start\<close> forgets the loops that it started before. The policy loop exists if there is a way to
  fetch the policy.\<close>

record scheduler_service =
  sv_policy :: bool
  sv_stop :: bool
  sv_tasks :: "nat list"
  sv_open :: bool

definition start_scheduler :: "scheduler_service service \<Rightarrow> scheduler_service service" where
  "start_scheduler = (\<lambda>(s, ts).
     let (a, ts1) = create_task ts; (b, ts2) = create_task ts1
     in if sv_policy s then (let (c, ts3) = create_task ts2 in (s\<lparr>sv_stop := False, sv_tasks := [a, b, c]\<rparr>, ts3))
        else (s\<lparr>sv_stop := False, sv_tasks := [a, b]\<rparr>, ts2))"

definition stop_scheduler :: "scheduler_service service \<Rightarrow> scheduler_service service" where
  "stop_scheduler = (\<lambda>(s, ts). (s\<lparr>sv_stop := True, sv_tasks := [], sv_open := False\<rparr>, fold end_task (sv_tasks s) ts))"

text \<open>The loops: the flags say whether the stop event is set when it is looked at. A wait ends at once
  when the event is set, so the second flag of a repair follows the wait.\<close>

fun backup_loop :: "'s manager_api \<Rightarrow> bool list \<Rightarrow> sched \<Rightarrow> 's \<Rightarrow> time list \<times> sched \<times> 's" where
  "backup_loop a [] c s = ([], c, s)"
| "backup_loop a (stop # stops) c s =
     (if stop then ([], c, s)
      else (let (n, c1, s1) = run_backup_cycle a c s; (ds, c2, s2) = backup_loop a stops c1 s1
        in (backup_delay c1 n # ds, c2, s2)))"

fun heal_cycle_loop :: "'s manager_api \<Rightarrow> (bool \<times> bool \<times> time) list \<Rightarrow> sched \<Rightarrow> 's \<Rightarrow> string list \<times> sched \<times> 's" where
  "heal_cycle_loop a [] c s = ([], c, s)"
| "heal_cycle_loop a ((stop, stop_after, t) # wakes) c s =
     (if stop \<or> stop_after then ([], c, s)
      else (let (n, healed, c1, s1) = run_heal_cycle a t c s; (more, c2, s2) = heal_cycle_loop a wakes c1 s1
        in (healed @ more, c2, s2)))"

text \<open>The policies that are applied; an exception of fetching or applying one is only logged.\<close>

fun policy_loop :: "(bool \<times> policy option result) list \<Rightarrow> policy list" where
  "policy_loop [] = []"
| "policy_loop ((stop, fetched) # rounds) =
     (if stop then []
      else (case fetched of Inr (Some p) \<Rightarrow> [p] | _ \<Rightarrow> []) @ policy_loop rounds)"

definition scheduler_ok :: "scheduler_service service \<Rightarrow> bool" where
  "scheduler_ok = (\<lambda>(s, ts). set (active ts) \<subseteq> set (sv_tasks s) \<and> length (sv_tasks s) \<le> 3)"

lemma active_fold_end: "set (active (fold end_task is ts)) = set (active ts) - set is"
proof (induction "is" arbitrary: ts)
  case (Cons i "is")
  have "set (active (fold end_task (i # is) ts)) = set (active (end_task i ts)) - set is" using Cons.IH by simp
  also have "\<dots> = set (active ts) - set (i # is)" by (simp only: active_end) auto
  finally show ?case .
qed simp

interpretation scheduler: background_service start_scheduler stop_scheduler loop_ends "\<lambda>s. sv_tasks s = []"
  sv_tasks 3 scheduler_ok
proof
  fix st :: "scheduler_service service" and i
  obtain s ts where st: "st = (s, ts)" by (cases st)
  assume "scheduler_ok st"
  then have ok: "set (active ts) \<subseteq> set (sv_tasks s)" "length (sv_tasks s) \<le> 3" by (simp_all add: st scheduler_ok_def)
  show "set (active (snd st)) \<subseteq> set (sv_tasks (fst st))" "length (sv_tasks (fst st)) \<le> 3" using ok by (simp_all add: st)
  show "scheduler_ok (start_scheduler st)" if "sv_tasks (fst st) = []"
    using ok that st active_create [of ts] active_create [of "snd (create_task ts)"]
      active_create [of "snd (create_task (snd (create_task ts)))"]
    by (auto simp: start_scheduler_def create_task_def scheduler_ok_def simp del: set_active)
  have "set (active (snd (stop_scheduler st))) = {}"
    using ok(1) by (auto simp: st stop_scheduler_def active_fold_end simp del: set_active)
  then show "scheduler_ok (stop_scheduler st) \<and> active (snd (stop_scheduler st)) = []"
    by (simp add: st stop_scheduler_def scheduler_ok_def del: set_active)
  show "scheduler_ok (loop_ends i st)"
    using ok st active_end [of i ts] by (auto simp: loop_ends_def scheduler_ok_def simp del: set_active)
qed

text \<open>Started twice, the loops of the first start are lost: they are not cancelled, and they do not
  see the stop event if it is cleared before they look.\<close>

lemma second_start_orphans_loops:
  "active (snd (stop_scheduler (start_scheduler (start_scheduler (\<lparr>sv_policy = False, sv_stop = False, sv_tasks = [], sv_open = True\<rparr>, []))))) = [0, 1]"
  by code_simp

section \<open>The P2P server\<close>

text \<open>The routes: \<open>Inl\<close> a file operation, \<open>Inr\<close> one on the chunks of other users. A port that is in
  use leaves the server without a site.\<close>

definition p2p_routes :: "(string \<times> (file_op + replica_op)) list" where
  "p2p_routes = [(''/p2p/read'', Inl OpRead), (''/p2p/write'', Inl OpWrite), (''/p2p/delete'', Inl OpDelete),
     (''/p2p/list'', Inl OpList), (''/p2p/exists'', Inl OpExists), (''/p2p/mkdir'', Inl OpMkdir),
     (''/p2p/rmdir'', Inl OpRmdir), (''/p2p/space'', Inl OpSpace), (''/p2p/replica_store'', Inr RepStore),
     (''/p2p/replica_fetch'', Inr RepFetch), (''/p2p/replica_delete'', Inr RepDelete)]"

definition start_p2p :: "bool \<Rightarrow> (string \<times> (file_op + replica_op)) list option" where
  "start_p2p port_free = (if port_free then Some p2p_routes else None)"

text \<open>Every operation has its route, under the name by which the relay knows it.\<close>

lemma routes_are_relay_names:
  "map_of p2p_routes (''/p2p/'' @ n) = Some r \<longleftrightarrow>
     (case r of Inl f \<Rightarrow> map_of op_map n = Some f | Inr g \<Rightarrow> map_of replica_map n = Some g)"
  by (auto simp: p2p_routes_def op_map_def replica_map_def split: sum.split)

section \<open>All of them\<close>

definition new_device :: "device_manager \<Rightarrow> device_service service" where
  "new_device m = (\<lparr>dv_manager = m, dv_task = None, dv_open = True\<rparr>, [])"

definition new_recovery :: "recovery_service service" where
  "new_recovery = (\<lparr>rc_running = False, rc_recovered = False, rc_task = None\<rparr>, [])"

definition new_relay :: "relay_service service" where
  "new_relay = (\<lparr>rw_running = False, rw_task = None, rw_open = True\<rparr>, [])"

definition new_sync :: "sync_service service" where
  "new_sync = (\<lparr>sn_running = False, sn_task = None, sn_wait = None, sn_open = True\<rparr>, [])"

definition new_scheduler :: "bool \<Rightarrow> scheduler_service service" where
  "new_scheduler policy = (\<lparr>sv_policy = policy, sv_stop = False, sv_tasks = [], sv_open = True\<rparr>, [])"

text \<open>After \<open>es\<close> at most \<open>limit\<close> loops run, and none once it is stopped then.\<close>

definition stops_cleanly ::
  "('s service \<Rightarrow> 's service) \<Rightarrow> ('s service \<Rightarrow> 's service) \<Rightarrow> (nat \<Rightarrow> 's service \<Rightarrow> 's service) \<Rightarrow>
     nat \<Rightarrow> life list \<Rightarrow> 's service \<Rightarrow> bool" where
  "stops_cleanly start stop ends limit es st \<longleftrightarrow>
     length (active (snd (fold (live start stop ends) es st))) \<le> limit \<and>
     active (snd (fold (live start stop ends) (es @ [Stop_It]) st)) = []"



end
