(* ===== verification/CLI_Session.thy ===== *)
theory CLI_Session
  imports Commands Startup Auth_Client Device_Manager Key_Backup Replication_Manager
begin

text \<open>
  The sessions of the one-shot commands: \<^verbatim>\<open>stardustlib/cli/session.py\<close> assembles the volume, signs
  in with the stored tokens, finds the own device, mounts the other ones and synchronizes once;
  \<^verbatim>\<open>stardustlib/cli/dispatcher.py\<close> opens a session for a command and closes it again. The commands
  of \<^verbatim>\<open>stardustlib/cli/commands.py\<close> that need the session or the credentials are here: \<open>login\<close>,
  \<open>logout\<close>, \<open>backup\<close>, \<open>restore\<close> and \<open>heal\<close>.
\<close>

section \<open>State\<close>

text \<open>What a process has open: connections to the server and the database.\<close>

datatype open_handle = Auth_Http | Device_Http | Sync_Http | Replication_Http | Database

text \<open>
  The credential file with its lock, the key files, the files of the user and what is open.
\<close>

record process =
  pr_cred :: cred_file
  pr_lock :: bool
  pr_keys :: key_disk
  pr_files :: user_disk
  pr_open :: "open_handle list"

definition acquire :: "open_handle \<Rightarrow> process \<Rightarrow> process" where
  "acquire h w = w\<lparr>pr_open := h # pr_open w\<rparr>"

definition release :: "open_handle \<Rightarrow> process \<Rightarrow> process" where
  "release h w = w\<lparr>pr_open := remove1 h (pr_open w)\<rparr>"

record session =
  ss_state :: sync
  ss_online :: bool
  ss_auth :: "auth_client option"
  ss_manager :: bool
  ss_sync :: bool
  ss_url :: bool
  ss_devices :: "device_info list option"
  ss_self :: "string option"
  ss_name :: string

text \<open>
  What the server and the machine answer while a session is opened: \<open>se_key\<close> is the variable
  with the key, \<open>se_key_password\<close> the one with its password, \<open>se_key_reply\<close> and \<open>se_key_write\<close>
  the download of the key and an error of writing it, \<open>se_mount\<close> the outcome of mounting a
  device, \<open>se_script\<close> the answers to the sync client.
\<close>

record session_env =
  se_core :: core_env
  se_key :: "string \<Rightarrow> env_value option"
  se_key_password :: "string option"
  se_auth :: auth_env
  se_key_reply :: "bytes direct"
  se_key_write :: "(exn \<times> bytes option) option"
  se_devices :: "device_info list option direct result"
  se_os :: string
  se_mount :: "string \<Rightarrow> bool result"
  se_sync :: sync_env
  se_script :: "(ms_op list \<times> answer) list"
  se_seen :: "time option"

text \<open>\<open>CLISession(jbod, metadata)\<close>.\<close>

definition local_session :: "jbod \<Rightarrow> session" where
  "local_session j = \<lparr>ss_state = sync_init j None None [], ss_online = False, ss_auth = None, ss_manager = False,
     ss_sync = False, ss_url = False, ss_devices = None, ss_self = None, ss_name = []\<rparr>"

section \<open>Opening\<close>

text \<open>\<open>_build_core\<close> reads the key from the key files; the database that it hands over is open.\<close>

definition core_with_keys :: "session_env \<Rightarrow> key_disk \<Rightarrow> core_env" where
  "core_with_keys env keys =
     (se_core env)\<lparr>ce_key := \<lambda>f. load_encryption_key keys (se_key env) f ''STARDUST_KEY''\<rparr>"

definition open_volume :: "session_env \<Rightarrow> json dict \<Rightarrow> process \<Rightarrow> (jbod \<times> bytes) result \<times> process" where
  "open_volume env config w =
     (case build_core (core_with_keys env (pr_keys w)) config of
       Inl x \<Rightarrow> (Inl x, w)
     | Inr jk \<Rightarrow> (Inr jk, acquire Database w))"

definition open_local :: "session_env \<Rightarrow> json dict \<Rightarrow> process \<Rightarrow> session result \<times> process" where
  "open_local env config w =
     (case open_volume env config w of
       (Inl x, w1) \<Rightarrow> (Inl x, w1)
     | (Inr (j, k), w1) \<Rightarrow> (Inr (local_session j), w1))"

text \<open>\<open>ConfigLoader(path).load()\<close>, whose value is used as a dict.\<close>

definition load_dict :: "string \<Rightarrow> disk \<Rightarrow> json dict result" where
  "load_dict path d =
     (case load path d of
       Inl x \<Rightarrow> Inl x
     | Inr v \<Rightarrow> (case as_obj v of None \<Rightarrow> Inl AttributeError | Some config \<Rightarrow> Inr config))"

definition open_session :: "session_env \<Rightarrow> string \<Rightarrow> disk \<Rightarrow> process \<Rightarrow> session result \<times> process" where
  "open_session env path d w =
     (case load_dict path d of Inl x \<Rightarrow> (Inl x, w) | Inr config \<Rightarrow> open_local env config w)"

text \<open>The stored tokens: whether they are there and valid; \<open>AuthenticationError\<close> is caught.\<close>

definition sign_in :: "session_env \<Rightarrow> process \<Rightarrow> bool result \<times> auth_client \<times> process" where
  "sign_in env w =
     (case load_from_store (auth_init True) (pr_cred w) of
       (False, a) \<Rightarrow> (Inr False, a, w)
     | (True, a) \<Rightarrow>
         (case get_valid_token (se_auth env) a (pr_cred w) of
           (Inr _, a1, f1) \<Rightarrow> (Inr True, a1, w\<lparr>pr_cred := f1\<rparr>)
         | (Inl x, a1, f1) \<Rightarrow>
             (if x = AuthenticationError then Inr False else Inl x, a1, w\<lparr>pr_cred := f1\<rparr>)))"

text \<open>\<open>_restore_key_from_server\<close>, with a token of the client.\<close>

definition fetch_key :: "session_env \<Rightarrow> string \<Rightarrow> auth_client \<Rightarrow> process \<Rightarrow> unit result \<times> auth_client \<times> process" where
  "fetch_key env key_file a w =
     (let password = backup_password (ac_key_password a) (se_key_password env) in
      if password = [] then (Inl RuntimeError, a, w)
      else (let (t, a1, f1) = get_valid_token (se_auth env) a (pr_cred w);
                (r, keys) = restore_key (ce_crypto (se_core env)) password t (se_key_reply env)
                  (se_key_write env) (Some key_file) (pr_keys w)
        in (r, a1, w\<lparr>pr_cred := f1, pr_keys := keys\<rparr>)))"

definition key_if_missing ::
  "session_env \<Rightarrow> json dict \<Rightarrow> auth_client \<Rightarrow> process \<Rightarrow> unit result \<times> auth_client \<times> process" where
  "key_if_missing env config a w =
     (if \<not> json_truthy (get ''key_file'' config) then (Inr (), a, w)
      else (case get ''key_file'' config of
        JStr f \<Rightarrow> if pr_keys w f = None then fetch_key env f a w else (Inr (), a, w)
      | _ \<Rightarrow> (Inl TypeError, a, w)))"

text \<open>\<open>DeviceManager.list_devices\<close>, which asks for a token first and never raises.\<close>

definition my_devices :: "session_env \<Rightarrow> auth_client \<Rightarrow> process \<Rightarrow> device_info list \<times> auth_client \<times> process" where
  "my_devices env a w =
     (let (t, a1, f1) = get_valid_token (se_auth env) a (pr_cred w)
      in (list_devices (case t of Inl x \<Rightarrow> Inl x | Inr _ \<Rightarrow> se_devices env), a1, w\<lparr>pr_cred := f1\<rparr>))"

text \<open>The name of this device is a text; another value is the name of no device.\<close>

definition own_name :: "json dict \<Rightarrow> string" where
  "own_name config = (case get_or (JStr ''unknown'') ''device_name'' (config_section ''server'' config) of
     JStr n \<Rightarrow> n | _ \<Rightarrow> [])"

definition set_self :: "string option \<Rightarrow> jbod \<Rightarrow> jbod" where
  "set_self self j = (if self = None then j else j\<lparr>dev := self\<rparr>)"

text \<open>The sync client resolves conflicts under the name of the device.\<close>

definition client_env :: "session_env \<Rightarrow> string \<Rightarrow> sync_env" where
  "client_env env nm = (se_sync env)\<lparr>device_name := nm, has_jbod := True\<rparr>"

text \<open>\<open>_make_sync_client\<close>: an exception of the first synchronization is only logged.\<close>

definition make_sync_client ::
  "session_env \<Rightarrow> json dict \<Rightarrow> bytes \<Rightarrow> jbod \<Rightarrow> process \<Rightarrow> sync result \<times> process" where
  "make_sync_client env config db_key j w =
     (case section_of ''sync'' config of
       Inl x \<Rightarrow> (Inl x, w)
     | Inr _ \<Rightarrow> (Inr (snd (initial_sync (client_env env (own_name config))
           (sync_init j (Some db_key) (se_seen env) (se_script env)))), acquire Sync_Http w))"

text \<open>The part of \<open>open_online\<close> after the volume has been built.\<close>

definition connect ::
  "session_env \<Rightarrow> bool \<Rightarrow> json dict \<Rightarrow> auth_client \<Rightarrow> jbod \<Rightarrow> bytes \<Rightarrow> process \<Rightarrow> session result \<times> process" where
  "connect env sync config a j db_key w =
     (case section_of ''p2p'' config of
       Inl x \<Rightarrow> (Inl x, w)
     | Inr _ \<Rightarrow>
         (let (ds, a1, w1) = my_devices env a (acquire Device_Http w);
              self = identify_self ds (own_name config) (se_os env);
              (m, j1) = mount_remote_sources (se_mount env) config (map di_id ds) self (set_self self j)
          in case m of
               Inl x \<Rightarrow> (Inl x, w1)
             | Inr _ \<Rightarrow>
                 (case (if sync then make_sync_client env config db_key j1 w1
                        else (Inr (sync_init j1 None None []), w1)) of
                   (Inl x, w2) \<Rightarrow> (Inl x, w2)
                 | (Inr s, w2) \<Rightarrow>
                     (Inr \<lparr>ss_state = s, ss_online = True, ss_auth = Some a1, ss_manager = True, ss_sync = sync,
                        ss_url = True, ss_devices = Some ds, ss_self = self,
                        ss_name = own_name config\<rparr>, w2))))"

definition open_signed_in ::
  "session_env \<Rightarrow> bool \<Rightarrow> json dict \<Rightarrow> auth_client \<Rightarrow> process \<Rightarrow> session result \<times> process" where
  "open_signed_in env sync config a w =
     (case key_if_missing env config a w of
       (Inl x, a1, w1) \<Rightarrow> (Inl x, w1)
     | (Inr _, a1, w1) \<Rightarrow>
         (case open_volume env config w1 of
           (Inl x, w2) \<Rightarrow> (Inl x, w2)
         | (Inr (j, db_key), w2) \<Rightarrow> connect env sync config a1 j db_key w2))"

text \<open>The address of the server is used as a text.\<close>

abbreviation server_url :: "json dict \<Rightarrow> json" where
  "server_url config \<equiv> get ''url'' (config_section ''server'' config)"

definition open_online :: "session_env \<Rightarrow> bool \<Rightarrow> string \<Rightarrow> disk \<Rightarrow> process \<Rightarrow> session result \<times> process" where
  "open_online env sync path d w =
     (case load_dict path d of
       Inl x \<Rightarrow> (Inl x, w)
     | Inr config \<Rightarrow>
         if \<not> server_url_set config then open_local env config w
         else (case str_item ''metadata_db'' config of
             Inl x \<Rightarrow> (Inl x, w)
           | Inr _ \<Rightarrow>
               if \<not> is_str (server_url config) then (Inl AttributeError, w)
               else (case sign_in env (acquire Auth_Http w) of
                 (Inl x, a, w1) \<Rightarrow> (Inl x, w1)
               | (Inr ok, a, w1) \<Rightarrow>
                   if ok then open_signed_in env sync config a w1
                   else open_local env config (release Auth_Http w1))))"

text \<open>\<open>close\<close> and \<open>aclose\<close>; an exception while closing is only logged.\<close>

definition close_session :: "session \<Rightarrow> process \<Rightarrow> process" where
  "close_session s w = release Database w"

definition aclose :: "session \<Rightarrow> process \<Rightarrow> process" where
  "aclose s w =
     (let w1 = (if ss_sync s then release Sync_Http w else w);
          w2 = (if ss_manager s then release Device_Http w1 else w1);
          w3 = (if ss_auth s \<noteq> None then release Auth_Http w2 else w2)
      in release Database w3)"

section \<open>Signing in and out\<close>

text \<open>\<open>a or b or c\<close> on texts, the last one being what is typed.\<close>

definition first_given :: "string option \<Rightarrow> string option \<Rightarrow> string \<Rightarrow> string" where
  "first_given flag env typed = (if truthy flag then the flag else if truthy env then the env else typed)"

text \<open>What \<open>login\<close> is told: flags, variables of the environment and what is typed.\<close>

record login_args =
  la_email :: "string option \<times> string option \<times> string"
  la_password :: "string option \<times> string option \<times> string"
  la_key_password :: "string option \<times> string option"

definition login_email :: "login_args \<Rightarrow> string" where
  "login_email args = (case la_email args of (flag, env, typed) \<Rightarrow> first_given flag env (py_strip typed))"

definition login_password :: "login_args \<Rightarrow> string" where
  "login_password args = (case la_password args of (flag, env, typed) \<Rightarrow> first_given flag env typed)"

definition cmd_login :: "auth_env \<Rightarrow> login_args \<Rightarrow> string \<Rightarrow> disk \<Rightarrow> process \<Rightarrow> int result \<times> process" where
  "cmd_login e args path d w =
     (case load_dict path d of
       Inl x \<Rightarrow> (Inl x, w)
     | Inr config \<Rightarrow>
         if \<not> server_url_set config then (Inr 2, w)
         else (case str_item ''metadata_db'' config of
             Inl x \<Rightarrow> (Inl x, w)
           | Inr _ \<Rightarrow>
               if \<not> is_str (server_url config) then (Inl AttributeError, w)
               else (let w1 = acquire Auth_Http w in
                 case login e (login_email args) (login_password args) (auth_init True) (pr_cred w1) of
                   (Inl x, a, f) \<Rightarrow>
                     if x = AuthenticationError then (Inr 1, release Auth_Http (w1\<lparr>pr_cred := f\<rparr>))
                     else (Inl x, w1\<lparr>pr_cred := f\<rparr>)
                 | (Inr _, a, f) \<Rightarrow>
                     (let kp = first_given (fst (la_key_password args)) (snd (la_key_password args)) [];
                          f1 = (if kp \<noteq> [] then snd (set_key_password (Some kp) a f) else f)
                      in (Inr 0, release Auth_Http (w1\<lparr>pr_cred := f1\<rparr>))))))"

text \<open>The request to the server changes nothing here, whatever comes of it.\<close>

definition cmd_logout :: "string \<Rightarrow> disk \<Rightarrow> process \<Rightarrow> int result \<times> process" where
  "cmd_logout path d w =
     (case load_dict path d of
       Inl x \<Rightarrow> (Inl x, w)
     | Inr config \<Rightarrow>
         (case str_item ''metadata_db'' config of
           Inl x \<Rightarrow> (Inl x, w)
         | Inr _ \<Rightarrow>
             if pr_cred w = CredAbsent then (Inr 0, w)
             else if json_truthy (server_url config) \<and> \<not> is_str (server_url config) then (Inl AttributeError, w)
             else (let (f, lock) = cred_clear (pr_cred w, pr_lock w)
               in (Inr 0, w\<lparr>pr_cred := f, pr_lock := lock\<rparr>))))"

section \<open>Replication commands\<close>

text \<open>A command in a session returns its exit code or the exception that it lets through.\<close>

type_synonym cmd_handler = "session \<Rightarrow> process \<Rightarrow> int result \<times> session \<times> process"

definition make_replication_manager :: "session \<Rightarrow> manager result" where
  "make_replication_manager s =
     (if \<not> ss_online s \<or> ss_auth s = None \<or> \<not> ss_url s then Inl RuntimeError
      else Inr \<lparr>rm_chunk_size = Chunker.DEFAULT_CHUNK_SIZE, rm_min_replicas = DEFAULT_MIN_REPLICAS, rm_self = dev (vol (ss_state s))\<rparr>)"

text \<open>The manager of a command is closed whatever the command does. The requests sent to the
  other devices (\<open>event\<close>) are part of the result.\<close>

definition with_manager ::
  "(manager \<Rightarrow> jbod \<Rightarrow> 'a result \<times> event list \<times> jbod) \<Rightarrow> session \<Rightarrow> process \<Rightarrow>
     ('a result \<times> event list \<times> session) \<times> process" where
  "with_manager body s w =
     (case make_replication_manager s of
       Inl x \<Rightarrow> ((Inl x, [], s), w)
     | Inr m \<Rightarrow>
         (let (r, ev, j) = body m (vol (ss_state s))
          in ((r, ev, s\<lparr>ss_state := (ss_state s)\<lparr>vol := j\<rparr>\<rparr>), release Replication_Http (acquire Replication_Http w))))"

definition is_recovery_error :: "exn \<Rightarrow> bool" where
  "is_recovery_error x \<longleftrightarrow> (case x of RecoveryError _ \<Rightarrow> True | _ \<Rightarrow> False)"

definition cmd_backup :: "rep_env \<Rightarrow> jenv \<Rightarrow> string \<Rightarrow> cmd_handler" where
  "cmd_backup e env path s w =
     (let ((r, ev, s1), w1) = with_manager (\<lambda>m. replicate_file e env m (vpath (Some path))) s w in
      (case r of
        Inr rr \<Rightarrow> Inr (if rr_status rr = ''replicated'' then 0 else 4)
      | Inl x \<Rightarrow> if x = FileNotFoundError then Inr 3 else if x = ReplicationError then Inr 4 else Inl x,
       s1, w1))"

definition upload_session :: "sync_env \<Rightarrow> session \<Rightarrow> session" where
  "upload_session e s = s\<lparr>ss_state := upload_if_online e (ss_sync s) (ss_state s)\<rparr>"

definition cmd_restore :: "rep_env \<Rightarrow> sync_env \<Rightarrow> string \<Rightarrow> cmd_handler" where
  "cmd_restore e env path s w =
     (let ((r, ev, s1), w1) = with_manager (\<lambda>m j. let (n, j1) = recover e (je env) (vpath (Some path)) j in (n, [], j1)) s w in
      case r of
        Inr n \<Rightarrow> (Inr 0, upload_session env s1, w1)
      | Inl x \<Rightarrow> (if is_recovery_error x \<or> x = ReplicationError then Inr 4 else Inl x, s1, w1))"

definition cmd_heal :: "rep_env \<Rightarrow> string \<Rightarrow> cmd_handler" where
  "cmd_heal e path s w =
     (let ((r, ev, s1), w1) = with_manager (\<lambda>m. ensure_replicas e m (vpath (Some path))) s w in
      (case r of
        Inr hr \<Rightarrow> Inr (if hr_status hr = ''replicated'' then 0 else 4)
      | Inl x \<Rightarrow> if is_recovery_error x then Inr 4 else Inl x,
       s1, w1))"

section \<open>Dispatch\<close>

datatype command = Df | Ls "string option" | Status | Devices | Get string "string option"
  | Put string "string option" | Rm bool string | Mkdir string | Mv string string | Cp string string
  | Backup string | Restore string | Heal string

fun command_name :: "command \<Rightarrow> string" where
  "command_name Df = ''df''"
| "command_name (Ls p) = ''ls''"
| "command_name Status = ''status''"
| "command_name Devices = ''devices''"
| "command_name (Get r l) = ''get''"
| "command_name (Put l r) = ''put''"
| "command_name (Rm b p) = ''rm''"
| "command_name (Mkdir p) = ''mkdir''"
| "command_name (Mv s d) = ''mv''"
| "command_name (Cp s d) = ''cp''"
| "command_name (Backup p) = ''backup''"
| "command_name (Restore p) = ''restore''"
| "command_name (Heal p) = ''heal''"

text \<open>What a command meets: the session, the directory depth up to which it deletes, the files it
  can write, the other devices, and the printing of a listing, which is left out.\<close>

record cli_env =
  cl_session :: session_env
  cl_depth :: nat
  cl_writable :: "string \<Rightarrow> bool"
  cl_rep :: rep_env

definition env_of :: "cli_env \<Rightarrow> session \<Rightarrow> sync_env" where
  "env_of e s = client_env (cl_session e) (ss_name s)"

definition on_volume :: "session \<Rightarrow> process \<Rightarrow> int result \<times> sync \<Rightarrow> int result \<times> session \<times> process" where
  "on_volume s w r = (fst r, s\<lparr>ss_state := snd r\<rparr>, w)"

fun perform :: "cli_env \<Rightarrow> command \<Rightarrow> cmd_handler" where
  "perform e Df s w =
     (let (r, j) = cmd_df (je (env_of e s)) (vol (ss_state s))
      in on_volume s w (case r of Inl x \<Rightarrow> Inl x | Inr _ \<Rightarrow> Inr 0, (ss_state s)\<lparr>vol := j\<rparr>))"
| "perform e (Ls p) s w = (Inr 0, s, w)"
| "perform e Status s w = (Inr 0, s, w)"
| "perform e Devices s w = (Inr (fst (cmd_devices (ss_online s) (ss_devices s) (ss_self s))), s, w)"
| "perform e (Get r l) s w =
     (let (c, files, st) = cmd_get (env_of e s) (cl_writable e) (pr_files w) r l (ss_state s)
      in on_volume s (w\<lparr>pr_files := files\<rparr>) (c, st))"
| "perform e (Put l r) s w = on_volume s w (cmd_put (env_of e s) (ss_sync s) (pr_files w) l r (ss_state s))"
| "perform e (Rm b p) s w = on_volume s w (cmd_rm (env_of e s) (ss_sync s) (cl_depth e) b p (ss_state s))"
| "perform e (Mkdir p) s w = on_volume s w (cmd_mkdir (env_of e s) (ss_sync s) p (ss_state s))"
| "perform e (Mv a b) s w = on_volume s w (cmd_mv (env_of e s) (ss_sync s) a b (ss_state s))"
| "perform e (Cp a b) s w = on_volume s w (cmd_cp (env_of e s) (ss_sync s) a b (ss_state s))"
| "perform e (Backup p) s w = cmd_backup (cl_rep e) (je (env_of e s)) p s w"
| "perform e (Restore p) s w = cmd_restore (cl_rep e) (env_of e s) p s w"
| "perform e (Heal p) s w = cmd_heal (cl_rep e) p s w"

definition run_offline :: "cli_env \<Rightarrow> cmd_handler \<Rightarrow> string \<Rightarrow> disk \<Rightarrow> process \<Rightarrow> int result \<times> process" where
  "run_offline e h path d w =
     (case open_session (cl_session e) path d w of
       (Inl x, w1) \<Rightarrow> (Inl x, w1)
     | (Inr s, w1) \<Rightarrow> (let (r, s1, w2) = h s w1 in (r, close_session s1 w2)))"

definition run_online :: "cli_env \<Rightarrow> bool \<Rightarrow> cmd_handler \<Rightarrow> string \<Rightarrow> disk \<Rightarrow> process \<Rightarrow> int result \<times> process" where
  "run_online e needs_sync h path d w =
     (case open_online (cl_session e) needs_sync path d w of
       (Inl x, w1) \<Rightarrow> (Inl x, w1)
     | (Inr s, w1) \<Rightarrow>
         if \<not> ss_online s then (Inr 1, aclose s w1)
         else (let (r, s1, w2) = h s w1 in (r, aclose s1 w2)))"

text \<open>\<open>run_cli\<close> for a command that is not \<open>login\<close> or \<open>logout\<close>.\<close>

definition run_command :: "cli_env \<Rightarrow> command \<Rightarrow> string option \<Rightarrow> disk \<Rightarrow> process \<Rightarrow> int result \<times> process" where
  "run_command e c config d w =
     (if \<not> truthy config then (Inr 2, w)
      else (case map_of handlers (command_name c) of
          None \<Rightarrow> (Inr 2, w)
        | Some (needs_online, needs_sync) \<Rightarrow>
            if needs_online then run_online e needs_sync (perform e c) (the config) d w
            else run_offline e (perform e c) (the config) d w))"

section \<open>What is open\<close>

text \<open>The connections and the database that a session holds, in the order of opening.\<close>

definition session_handles :: "session \<Rightarrow> open_handle list" where
  "session_handles s =
     (if ss_sync s then [Sync_Http] else []) @ (if ss_manager s then [Device_Http] else []) @ [Database] @
     (if ss_auth s \<noteq> None then [Auth_Http] else [])"

lemma acquired [simp]:
  "pr_open (acquire h w) = h # pr_open w" "pr_open (release h w) = remove1 h (pr_open w)"
  "pr_cred (acquire h w) = pr_cred w" "pr_cred (release h w) = pr_cred w"
  "pr_files (acquire h w) = pr_files w" "pr_files (release h w) = pr_files w"
  by (simp_all add: acquire_def release_def)

lemma open_volume_handles:
  "open_volume env config w = (r, w1) \<Longrightarrow> pr_open w1 = (case r of Inl x \<Rightarrow> pr_open w | Inr _ \<Rightarrow> Database # pr_open w)"
  by (auto simp: open_volume_def split: sum.splits)

lemma open_local_handles:
  assumes "open_local env config w = (Inr s, w1)"
  shows "pr_open w1 = session_handles s @ pr_open w" "\<not> ss_online s" "\<not> ss_sync s" "\<not> ss_manager s" "ss_auth s = None"
  using assms
  by (auto simp: open_local_def open_volume_def local_session_def session_handles_def split: sum.splits prod.splits)

lemma sign_in_handles: "sign_in env w = (r, a, w1) \<Longrightarrow> pr_open w1 = pr_open w"
  by (auto simp: sign_in_def split: bool.splits prod.splits sum.splits if_splits)

lemma key_handles: "key_if_missing env config a w = (r, a1, w1) \<Longrightarrow> pr_open w1 = pr_open w"
  by (auto simp: key_if_missing_def fetch_key_def Let_def split: prod.splits if_splits json.splits)

lemma devices_handles: "my_devices env a w = (ds, a1, w1) \<Longrightarrow> pr_open w1 = pr_open w"
  by (auto simp: my_devices_def Let_def split: prod.splits)

lemma connect_handles:
  assumes "connect env sync config a j k w = (Inr s, w1)"
  shows "pr_open w1 = (if sync then [Sync_Http] else []) @ [Device_Http] @ pr_open w \<and> ss_online s \<and> ss_sync s = sync \<and>
    ss_manager s \<and> ss_auth s \<noteq> None \<and> ss_url s"
  using assms
  by (auto simp: connect_def make_sync_client_def Let_def dest!: devices_handles split: sum.splits prod.splits if_splits)

lemma open_online_handles:
  assumes "open_online env sync path d w = (Inr s, w1)"
  shows "pr_open w1 = session_handles s @ pr_open w \<and>
    (ss_online s \<longrightarrow> ss_sync s = sync \<and> ss_manager s \<and> ss_auth s \<noteq> None \<and> ss_url s)"
proof -
  obtain config where c: "load_dict path d = Inr config"
    using assms by (auto simp: open_online_def split: sum.splits)
  show ?thesis
  proof (cases "server_url_set config")
    case False
    then show ?thesis using assms c open_local_handles [of env config w s w1] by (simp add: open_online_def)
  next
    case True
    then obtain ok a w0 where si: "sign_in env (acquire Auth_Http w) = (Inr ok, a, w0)"
      using assms c by (auto simp: open_online_def split: sum.splits if_splits prod.splits)
    note h0 = sign_in_handles [OF si]
    show ?thesis
    proof (cases ok)
      case False
      then have "open_local env config (release Auth_Http w0) = (Inr s, w1)"
        using assms c True si by (auto simp: open_online_def split: sum.splits if_splits)
      from open_local_handles [OF this] h0 show ?thesis by simp
    next
      case ok: True
      then have o: "open_signed_in env sync config a w0 = (Inr s, w1)"
        using assms c True si by (auto simp: open_online_def split: sum.splits if_splits)
      obtain u a1 wk where ki: "key_if_missing env config a w0 = (Inr u, a1, wk)"
        using o by (auto simp: open_signed_in_def split: prod.splits sum.splits)
      obtain j k wv where ov: "open_volume env config wk = (Inr (j, k), wv)"
        and cn: "connect env sync config a1 j k wv = (Inr s, w1)"
        using o ki by (auto simp: open_signed_in_def split: prod.splits sum.splits)
      show ?thesis
        using connect_handles [OF cn] open_volume_handles [OF ov] key_handles [OF ki] h0
        by (simp add: session_handles_def)
    qed
  qed
qed

lemma session_handles_state [simp]: "session_handles (s\<lparr>ss_state := x\<rparr>) = session_handles s"
  by (simp add: session_handles_def)

lemma with_manager_handles:
  "with_manager body s w = ((r, ev, s1), w1) \<Longrightarrow> pr_open w1 = pr_open w \<and> session_handles s1 = session_handles s"
  by (auto simp: with_manager_def Let_def split: sum.splits prod.splits)

lemma on_volume_handles:
  "on_volume s w q = (r, s1, w1) \<Longrightarrow> w1 = w \<and> session_handles s1 = session_handles s"
  by (auto simp: on_volume_def)

lemma replication_handles:
  "cmd_backup e jn p s w = (r, s1, w1) \<Longrightarrow> pr_open w1 = pr_open w \<and> session_handles s1 = session_handles s"
  "cmd_heal e p s w = (r, s1, w1) \<Longrightarrow> pr_open w1 = pr_open w \<and> session_handles s1 = session_handles s"
  by (auto simp only: cmd_backup_def cmd_heal_def Let_def prod.case prod.inject dest!: with_manager_handles split: prod.splits)

lemma restore_handles:
  assumes "cmd_restore e en p s w = (r, s1, w1)"
  shows "pr_open w1 = pr_open w \<and> session_handles s1 = session_handles s"
proof -
  let ?body = "\<lambda>m j. let (n, j1) = recover e (je en) (vpath (Some p)) j in (n, [], j1)"
  obtain q ev s2 w2 where m: "with_manager ?body s w = ((q, ev, s2), w2)" by (metis surj_pair)
  from assms m have "w1 = w2 \<and> (s1 = s2 \<or> s1 = upload_session en s2)"
    by (auto simp only: cmd_restore_def Let_def prod.case prod.inject split: sum.splits)
  with with_manager_handles [OF m] show ?thesis by (auto simp: upload_session_def)
qed

lemma perform_handles:
  assumes "perform e c s w = (r, s1, w1)"
  shows "pr_open w1 = pr_open w \<and> session_handles s1 = session_handles s"
proof (cases c)
  case (Get x y)
  then show ?thesis using assms by (auto simp: Let_def dest!: on_volume_handles split: prod.splits)
next
  case Df
  then show ?thesis using assms by (auto simp: Let_def dest!: on_volume_handles split: prod.splits)
qed (use assms in \<open>auto dest: on_volume_handles replication_handles restore_handles\<close>)

lemma aclose_handles: "pr_open w = session_handles s @ l \<Longrightarrow> pr_open (aclose s w) = l"
  by (auto simp: aclose_def session_handles_def Let_def)

text \<open>The session that a command gets.\<close>

definition session_for :: "cli_env \<Rightarrow> command \<Rightarrow> string \<Rightarrow> disk \<Rightarrow> process \<Rightarrow> session result \<times> process" where
  "session_for e c path d w =
     (case the (map_of handlers (command_name c)) of (needs_online, needs_sync) \<Rightarrow>
       if needs_online then open_online (cl_session e) needs_sync path d w else open_session (cl_session e) path d w)"

lemma command_known: "map_of handlers (command_name c) \<noteq> None"
  by (cases c) (simp_all add: handlers_def)

definition needs_online :: "command \<Rightarrow> bool" where
  "needs_online c \<longleftrightarrow> fst (the (map_of handlers (command_name c)))"

lemma run_command_cases:
  assumes "truthy config"
  obtains (online) sy where "map_of handlers (command_name c) = Some (True, sy)" "needs_online c"
    "run_command e c config d w = run_online e sy (perform e c) (the config) d w"
    "session_for e c (the config) d w = open_online (cl_session e) sy (the config) d w"
  | (offline) "\<not> needs_online c" "run_command e c config d w = run_offline e (perform e c) (the config) d w"
    "session_for e c (the config) d w = open_session (cl_session e) (the config) d w"
proof -
  obtain on sy where h: "map_of handlers (command_name c) = Some (on, sy)" using command_known by fastforce
  show thesis
    using h assms that by (cases on) (auto simp: run_command_def session_for_def needs_online_def)
qed


section \<open>Exit codes\<close>

definition transfers :: "command \<Rightarrow> bool" where
  "transfers c \<longleftrightarrow> (case c of Get r l \<Rightarrow> True | Put l r \<Rightarrow> True | Rm b p \<Rightarrow> True | Mkdir p \<Rightarrow> True
     | Mv a b \<Rightarrow> True | Cp a b \<Rightarrow> True | _ \<Rightarrow> False)"

definition coded :: "int result \<Rightarrow> bool" where
  "coded r \<longleftrightarrow> (case r of Inr n \<Rightarrow> n \<in> {0, 3, 4, 5} | Inl x \<Rightarrow> \<not> is_os_error x)"

lemma finish_command_coded:
  "coded (fst (finish_command e on s q))"
  "fst (finish_command e on s q) \<noteq> Inr 0 \<Longrightarrow> sent (snd (finish_command e on s q)) = sent s"
  by (auto simp: finish_command_def not_found_or_io_def coded_def split: prod.splits sum.splits if_splits)

lemma cmd_put_coded:
  assumes "cmd_put e on disk l rm s = (r, s1)"
  shows "coded r \<and> (r \<noteq> Inr 0 \<longrightarrow> sent s1 = sent s)"
  using assms by (auto simp: cmd_put_def coded_def split: option.splits prod.splits sum.splits if_splits)

lemma cmd_get_coded:
  assumes "cmd_get e wr disk rm l s = (r, disk', s1)"
  shows "coded r \<and> sent s1 = sent s \<and> (r \<noteq> Inr 0 \<longrightarrow> disk' = disk)"
  using assms by (auto simp: cmd_get_def coded_def not_found_or_io_def split: prod.splits sum.splits if_splits)


text \<open>
  The replication commands catch less: \<open>backup\<close> lets the error of an unreachable source through,
  \<open>heal\<close> a missing token.
\<close>

definition idle_holders :: rep_env where
  "idle_holders = \<lparr>token = Inl AuthenticationError, user_id = None, sha = id, register_answer = \<lambda>x r i n. Inr (),
     placement_answer = \<lambda>n k xs. Inr [], record_answer = \<lambda>x y. Inr True, chunks_answer = \<lambda>x. Inr [],
     replicas_answer = \<lambda>x. Inr [], direct_store = \<lambda>x y z. Unreachable, relay_store = \<lambda>x y z. False,
     direct_fetch = \<lambda>x y. Unreachable, relay_fetch = \<lambda>x y. None\<rparr>"

definition online_session :: "jbod \<Rightarrow> session" where
  "online_session j = (local_session j)\<lparr>ss_online := True, ss_auth := Some (auth_init True), ss_manager := True, ss_url := True\<rparr>"

definition plain_process :: process where
  "plain_process = \<lparr>pr_cred = CredAbsent, pr_lock = False, pr_keys = Map.empty, pr_files = Map.empty, pr_open = []\<rparr>"

definition unplugged :: jbod where
  "unplugged = sample_full\<lparr>sources := map (\<lambda>x. x\<lparr>src_active := False\<rparr>) (sources sample_full)\<rparr>"

lemma backup_lets_io_error_through:
  "\<exists>b. fst (cmd_backup idle_holders sample_env ''/a'' (online_session unplugged) plain_process) = Inl (OSError b)"
  by code_simp

lemma heal_lets_missing_token_through:
  "fst (cmd_heal idle_holders ''/a'' (online_session sample_full) plain_process) = Inl ReplicationError"
  by code_simp

section \<open>Between login and logout\<close>

text \<open>An answer to the login with a token that is good for more than a minute.\<close>

definition grants :: "auth_env \<Rightarrow> login_args \<Rightarrow> bool" where
  "grants e args \<longleftrightarrow> (\<exists>access refr b ex sub. login_answer e (login_email args) (login_password args) = Answer 200 (access, refr) \<and>
     jwt_payload access = Inr b \<and> claims e b = Some (ex, sub) \<and> clock e < ex - 60)"

definition usable :: "auth_env \<Rightarrow> cred_file \<Rightarrow> bool" where
  "usable e f \<longleftrightarrow> (\<exists>c. f = CredData c \<and> cr_access c \<noteq> None \<and> clock e < cr_expires c - 60)"

lemma login_usable:
  assumes "grants e args" and "load_dict path d = Inr config" and "server_url_set config" and "is_str (server_url config)"
    and "map_of config ''metadata_db'' = Some (JStr db)" and "cmd_login e args path d w = (r, w1)"
  shows "r = Inr 0 \<and> usable e (pr_cred w1)"
  using assms
  by (auto simp: grants_def usable_def cmd_login_def login_def store_tokens_def persist_def persisted_def cred_save_def
      auth_init_def success_def str_item_def item_def set_key_password_def Let_def)

lemma usable_signs_in: "usable (se_auth env) (pr_cred w) \<Longrightarrow> fst (sign_in env w) = Inr True"
  by (auto simp: usable_def sign_in_def load_from_store_def cred_load_def auth_init_def get_valid_token_def expiring_def)

lemma absent_signs_out: "pr_cred w = CredAbsent \<Longrightarrow> sign_in env w = (Inr False, auth_init True, w)"
  by (simp add: sign_in_def load_from_store_def cred_load_def auth_init_def)

lemma signed_in_session_online:
  assumes "usable (se_auth env) (pr_cred w)" and "load_dict path d = Inr config" and "server_url_set config"
    and "open_online env sync path d w = (Inr s, w1)"
  shows "ss_online s"
proof -
  have "fst (sign_in env (acquire Auth_Http w)) = Inr True"
    using assms(1) by (intro usable_signs_in) simp
  then obtain a w0 where "sign_in env (acquire Auth_Http w) = (Inr True, a, w0)" by (metis prod.exhaust_sel)
  with assms(2-4) show ?thesis
    by (auto simp: open_online_def open_signed_in_def dest!: connect_handles split: sum.splits if_splits prod.splits)
qed

lemma signed_out_session:
  assumes "pr_cred w = CredAbsent" and "open_online env sync path d w = (r, w1)"
  shows "(\<forall>s. r = Inr s \<longrightarrow> \<not> ss_online s) \<and> pr_files w1 = pr_files w"
proof -
  have f: "open_local env config v = (q, v1) \<Longrightarrow> (\<forall>s. q = Inr s \<longrightarrow> \<not> ss_online s) \<and> pr_files v1 = pr_files v" for config v q v1
    by (auto simp: open_local_def open_volume_def local_session_def split: sum.splits prod.splits)
  have si: "sign_in env (acquire Auth_Http w) = (Inr False, auth_init True, acquire Auth_Http w)"
    using assms(1) by (intro absent_signs_out) simp
  from assms(2) si f show ?thesis
    by (auto simp: open_online_def split: sum.splits if_splits)
qed

lemma aclose_files [simp]: "pr_files (aclose s w) = pr_files w"
  by (simp add: aclose_def Let_def)


section \<open>Examples\<close>

definition shell_config :: "json dict" where
  "shell_config = [(''sources'', JArr [dir_cfg ''s'' ''/d'']), (''metadata_db'', JStr ''/m''),
     (''server'', JObj [(''url'', JStr ''https://h''), (''device_name'', JStr ''pc'')])]"

definition shell_disk :: disk where
  "shell_disk = [''/c'' \<mapsto> Parses (JObj shell_config), ''/k'' \<mapsto> Parses (JObj ((''key_file'', JStr ''/key'') # shell_config))]"

definition shell_auth :: auth_env where
  "shell_auth = (sample_auth_env ''r1'' (''a2'', ''r2''))\<lparr>login_answer := \<lambda>m p. if p = ''pw'' then Answer 200 (''h.e30.s'', ''r1'') else Answer 401 ([], [])\<rparr>"

definition shell_env :: session_env where
  "shell_env = \<lparr>se_core = plain_core, se_key = \<lambda>v. Some (Utf8 (replicate 32 1)), se_key_password = None,
     se_auth = shell_auth, se_key_reply = Answer 404 [], se_key_write = None,
     se_devices = Inr (Answer 200 (Some [\<lparr>di_id = Some ''d'', di_name = Some ''pc'', di_os = Some ''Linux'', di_online = True\<rparr>])),
     se_os = ''Linux'', se_mount = \<lambda>d. Inr True, se_sync = sample_sync_env, se_script = [], se_seen = None\<rparr>"

definition shell :: cli_env where
  "shell = \<lparr>cl_session = shell_env, cl_depth = 9, cl_writable = \<lambda>f. True, cl_rep = idle_holders\<rparr>"

definition shell_login :: login_args where
  "shell_login = \<lparr>la_email = (Some ''u@h'', None, []), la_password = (None, Some ''pw'', []), la_key_password = (None, None)\<rparr>"

definition shell_process :: process where
  "shell_process = plain_process\<lparr>pr_files := [''/x'' \<mapsto> [1, 2]]\<rparr>"

definition signed_in_process :: process where
  "signed_in_process = snd (cmd_login shell_auth shell_login ''/c'' shell_disk shell_process)"

lemma shell_file: "load_dict ''/c'' shell_disk = Inr shell_config"
  by (simp add: load_dict_def load_def shell_disk_def)

lemma shell_grants: "grants shell_auth shell_login"
proof -
  have "login_answer shell_auth (login_email shell_login) (login_password shell_login) = Answer 200 (''h.e30.s'', ''r1'')"
    by code_simp
  moreover have "jwt_payload ''h.e30.s'' = Inr [123, 125]" by code_simp
  moreover have "claims shell_auth [123, 125] = Some (1000, Some ''u'')" "clock shell_auth < 1000 - 60"
    by (simp_all add: shell_auth_def sample_auth_env_def)
  ultimately show ?thesis unfolding grants_def by blast
qed

lemma shell_opens: "isl (fst (session_for shell (Put ''/x'' None) ''/c'' shell_disk signed_in_process)) = False"
  by code_simp




text \<open>
  What an exception while opening leaves: on a device without its key file and without a
  password for the copy on the server the connection of the client is never closed.
\<close>

lemma opening_failure_leaks:
  "let (r, w) = run_command shell Devices (Some ''/k'') shell_disk signed_in_process
   in r = Inl RuntimeError \<and> pr_open w = [Auth_Http]"
  by code_simp

text \<open>A session falls back to the local volume if it cannot sign in, but only
  \<open>AuthenticationError\<close> is taken for that: any other refusal of a refresh ends the command.\<close>

definition late_auth :: "int \<Rightarrow> auth_env" where
  "late_auth code = shell_auth\<lparr>clock := 990, clock_locked := 990, refresh_answer := \<lambda>t. Answer code ([], [])\<rparr>"

lemma refused_refresh_ends_command:
  "case fst (open_online (shell_env\<lparr>se_auth := late_auth 429\<rparr>)
     False ''/c'' shell_disk signed_in_process) of Inl x \<Rightarrow> x = HTTPStatusError | Inr s \<Rightarrow> False"
  by code_simp

text \<open>A login without a password for the key erases the one that was stored.\<close>

lemma login_forgets_key_password:
  "let (_, w1) = cmd_login shell_auth (shell_login\<lparr>la_key_password := (Some ''k'', None)\<rparr>) ''/c'' shell_disk shell_process;
       (_, w2) = cmd_login shell_auth shell_login ''/c'' shell_disk w1
   in map_sum id (map_option cr_key_password) (cred_load (pr_cred w1)) = Inr (Some (Some ''k'')) \<and>
      map_sum id (map_option cr_key_password) (cred_load (pr_cred w2)) = Inr (Some None)"
  by code_simp

end
