(* ===== verification/Texts.thy ===== *)
theory Texts
  imports Models
begin

text \<open>
  Texts for the user: the tables of \<^verbatim>\<open>stardustlib/cli/format.py\<close>, the two dictionaries of
  \<^verbatim>\<open>stardustlib/gui/i18n.py\<close> with the formatting of their entries, and the sizes of
  \<^verbatim>\<open>stardustlib/gui/app.py\<close>.
\<close>

section \<open>Tables\<close>

text \<open>\<open>str.ljust\<close> and \<open>sep.join\<close>.\<close>

definition ljust :: "nat \<Rightarrow> string \<Rightarrow> string" where
  "ljust w s = s @ replicate (w - length s) CHR '' ''"

fun join_str :: "string \<Rightarrow> string list \<Rightarrow> string" where
  "join_str sep [] = []"
| "join_str sep [x] = x"
| "join_str sep (x # y # ys) = x @ sep @ join_str sep (y # ys)"

text \<open>The loop over the cells of a row, which raises on a row longer than the headers.\<close>

fun widen :: "nat list \<Rightarrow> string list \<Rightarrow> nat list result" where
  "widen ws [] = Inr ws"
| "widen [] (c # cs) = Inl IndexError"
| "widen (w # ws) (c # cs) = (case widen ws cs of Inl x \<Rightarrow> Inl x | Inr r \<Rightarrow> Inr (max w (length c) # r))"

fun column_widths :: "nat list \<Rightarrow> string list list \<Rightarrow> nat list result" where
  "column_widths ws [] = Inr ws"
| "column_widths ws (r # rs) = (case widen ws r of Inl x \<Rightarrow> Inl x | Inr ws1 \<Rightarrow> column_widths ws1 rs)"

definition table_line :: "nat list \<Rightarrow> string list \<Rightarrow> string" where
  "table_line ws cells = join_str ''  '' (map2 ljust ws cells)"

text \<open>The lines that are written; the cells are texts already.\<close>

definition print_table :: "string list list \<Rightarrow> string list \<Rightarrow> string list result" where
  "print_table rows headers =
     (case column_widths (map length headers) rows of
       Inl x \<Rightarrow> Inl x
     | Inr ws \<Rightarrow> Inr (map (table_line ws) (headers # rows)))"

lemma widen_fits:
  "widen ws r = Inr ws1 \<Longrightarrow> length ws1 = length ws \<and> list_all2 (\<le>) ws ws1 \<and>
    list_all2 (\<lambda>c w. length c \<le> w) r (take (length r) ws1)"
  by (induction ws r arbitrary: ws1 rule: widen.induct)
    (auto simp: list_all2_refl split: sum.splits)

lemma widths_fit:
  "column_widths ws rs = Inr ws1 \<Longrightarrow> length ws1 = length ws \<and> list_all2 (\<le>) ws ws1 \<and>
    (\<forall>r \<in> set rs. list_all2 (\<lambda>c w. length c \<le> w) r (take (length r) ws1))"
proof (induction rs arbitrary: ws)
  case Nil
  then show ?case by (simp add: list_all2_refl)
next
  case (Cons r rs)
  then obtain ws2 where w: "widen ws r = Inr ws2" and c: "column_widths ws2 rs = Inr ws1" by (auto split: sum.splits)
  note f = widen_fits [OF w] and g = Cons.IH [OF c]
  have n: "ws2 ! i \<le> ws1 ! i" if "i < length ws2" for i using g that by (auto dest: list_all2_nthD)
  have l: "length r \<le> length ws2" using f list_all2_lengthD by fastforce
  have "length (r ! i) \<le> ws1 ! i" if "i < length r" for i
  proof -
    have "length (r ! i) \<le> take (length r) ws2 ! i" using f that by (auto dest: list_all2_nthD)
    with n [of i] l that show ?thesis by simp
  qed
  then have "list_all2 (\<lambda>c w. length c \<le> w) r (take (length r) ws1)"
    using l conjunct1 [OF g] by (simp add: list_all2_conv_all_nth)
  moreover have "ws ! i \<le> ws1 ! i" if "i < length ws" for i
    using f n [of i] that list_all2_nthD [of "(\<le>)" ws ws2 i] by simp
  then have "list_all2 (\<le>) ws ws1" using conjunct1 [OF f] conjunct1 [OF g] by (simp add: list_all2_conv_all_nth)
  ultimately show ?case using f g by simp
qed

lemma widths_succeed: "\<forall>r \<in> set rs. length r \<le> length ws \<Longrightarrow> \<exists>ws1. column_widths ws rs = Inr ws1"
proof (induction rs arbitrary: ws)
  case (Cons r rs)
  have "length r \<le> length ws \<Longrightarrow> \<exists>ws2. widen ws r = Inr ws2" for ws
    by (induction ws r rule: widen.induct) auto
  with Cons.prems obtain ws2 where w: "widen ws r = Inr ws2" by auto
  with Cons.prems have "\<forall>r \<in> set rs. length r \<le> length ws2" using widen_fits [OF w] by simp
  from Cons.IH [OF this] w show ?case by simp
qed simp

text \<open>Where column \<open>k\<close> starts.\<close>

definition column_start :: "nat list \<Rightarrow> nat \<Rightarrow> nat" where
  "column_start ws k = sum_list (map (\<lambda>w. w + 2) (take k ws))"

lemma cell_at:
  "list_all2 (\<lambda>c w. length c \<le> w) cs ws \<Longrightarrow> k < length cs \<Longrightarrow>
    take (length (cs ! k)) (drop (column_start ws k) (table_line ws cs)) = cs ! k"
proof (induction cs ws arbitrary: k rule: list_all2_induct)
  case (Cons c cs w ws)
  have j: "table_line (w # ws) (c # cs) = ljust w c @ (if cs = [] then [] else ''  '' @ table_line ws cs)"
    using Cons.hyps by (cases cs; cases ws) (auto simp: table_line_def)
  show ?case
  proof (cases k)
    case 0
    then show ?thesis by (simp add: j column_start_def ljust_def)
  next
    case (Suc i)
    then have "cs \<noteq> []" using Cons.prems by auto
    with Suc Cons j show ?thesis by (simp add: column_start_def ljust_def)
  qed
qed simp

lemma zip_cut: "zip (take (length cs) ws) cs = zip ws cs"
proof (induction cs arbitrary: ws)
  case (Cons c cs)
  then show ?case by (cases ws) simp_all
qed simp

text \<open>A table that is printed has its columns aligned: there are places for the columns at
  which every line, the headers included, has its cell, whole; and a table whose rows are not
  longer than the headers is always printed.\<close>

lemma table_columns_align:
  "case print_table rows headers of
     Inl x \<Rightarrow> \<exists>r \<in> set rows. length headers < length r
   | Inr ls \<Rightarrow> length ls = Suc (length rows) \<and>
       (\<exists>start. \<forall>i < length ls. \<forall>k < length ((headers # rows) ! i).
          take (length ((headers # rows) ! i ! k)) (drop (start k) (ls ! i)) = (headers # rows) ! i ! k)"
proof (cases "column_widths (map length headers) rows")
  case (Inl x)
  then have "\<not> (\<forall>r \<in> set rows. length r \<le> length headers)" using widths_succeed [of rows "map length headers"] by auto
  with Inl show ?thesis by (auto simp: print_table_def not_le)
next
  case (Inr ws)
  note f = widths_fit [OF Inr]
  have h: "list_all2 (\<lambda>c w. length c \<le> w) cs (take (length cs) ws)" if "cs \<in> set (headers # rows)" for cs
  proof (cases "cs = headers")
    case True
    have "list_all2 (\<lambda>c w. length c \<le> w) headers ws" using f by (simp add: list_all2_map1)
    with True show ?thesis using list_all2_lengthD by fastforce
  next
    case False
    with f that show ?thesis by simp
  qed
  have "take (length (cs ! k)) (drop (column_start ws k) (table_line ws cs)) = cs ! k"
    if "cs \<in> set (headers # rows)" "k < length cs" for cs k
  proof -
    have "table_line (take (length cs) ws) cs = table_line ws cs"
      by (simp add: table_line_def zip_cut)
    moreover have "column_start (take (length cs) ws) k = column_start ws k"
      using that(2) by (simp add: column_start_def min_absorb1)
    ultimately show ?thesis using cell_at [OF h [OF that(1)] that(2)] by simp
  qed
  then have "\<forall>i < length (map (table_line ws) (headers # rows)). \<forall>k < length ((headers # rows) ! i).
      take (length ((headers # rows) ! i ! k)) (drop (column_start ws k) (map (table_line ws) (headers # rows) ! i)) =
      (headers # rows) ! i ! k"
    by (metis length_map nth_map nth_mem)
  then show ?thesis using Inr by (auto simp: print_table_def simp del: nth_Cons_Suc)
qed

section \<open>Messages\<close>

text \<open>A text is a list of ASCII characters and other code points.\<close>

datatype uchar = A char | U int

type_synonym message = "uchar list"

definition asc :: "string \<Rightarrow> message" where
  "asc s = map A s"

definition uni :: "int list \<Rightarrow> message" where
  "uni s = map U s"

fun ascii :: "uchar \<Rightarrow> char" where
  "ascii (A c) = c"
| "ascii (U i) = CHR 0x00"

text \<open>The two braces.\<close>

abbreviation LB :: uchar where "LB \<equiv> A CHR 0x7B"
abbreviation RB :: uchar where "RB \<equiv> A CHR 0x7D"

definition KO :: "(string \<times> message) list" where
  "KO = [
    (''app_title'', asc ''StardustFS''),
    (''ready'', uni [51456, 48708, 46120]),
    (''err'', uni [50724, 47448]),
    (''need_config'', uni [47676, 51200, 32, 49444, 51221, 32, 54028, 51068, 51012, 32, 49440, 53469, 54616, 49464, 50836, 46]),
    (''select_config_hint'', uni [49444, 51221, 32, 54028, 51068, 51012, 32, 49440, 53469, 54616, 49464, 50836, 32, 40, 49352, 32, 49444, 51221] @ asc ''... '' @ uni [46608, 45716, 32, 49444, 51221] @ asc ''...).''),
    (''login_required'', uni [47196, 44536, 51064, 32, 54980, 32, 54028, 51068, 51012, 32, 48380, 32, 49688, 32, 51080, 49845, 45768, 45796, 46]),
    (''new_config'', uni [49352, 32, 49444, 51221] @ asc ''...''),
    (''choose_config'', uni [49444, 51221] @ asc ''...''),
    (''login'', uni [47196, 44536, 51064]),
    (''logout'', uni [47196, 44536, 50500, 50883]),
    (''daemon_unknown'', asc ''daemon: ?''),
    (''daemon_running'', asc ''daemon: '' @ uni [49892, 54665, 32, 51473] @ asc '' (pid={pid})''),
    (''daemon_stale'', asc ''daemon: stale('' @ uni [48708, 51221, 49345, 32, 51333, 47308, 63, 41]),
    (''daemon_stopped'', asc ''daemon: '' @ uni [48120, 49892, 54665]),
    (''daemon_start'', asc ''daemon '' @ uni [49884, 51089]),
    (''daemon_stop'', asc ''daemon '' @ uni [51221, 51648]),
    (''daemon_starting'', asc ''daemon '' @ uni [51088, 46041, 32, 49884, 51089, 32, 51473] @ asc ''...''),
    (''daemon_started'', asc ''daemon '' @ uni [49884, 51089] @ asc ''(pid={pid})''),
    (''daemon_stop_req'', asc ''daemon '' @ uni [51221, 51648, 32, 50836, 52397]),
    (''daemon_start_busy'', asc ''daemon '' @ uni [49884, 51089, 32, 51473] @ asc ''...''),
    (''daemon_stop_busy'', asc ''daemon '' @ uni [51221, 51648, 32, 51473] @ asc ''...''),
    (''devices'', uni [46356, 48148, 51060, 49828]),
    (''storage'', uni [49828, 53664, 47532, 51648]),
    (''up'', uni [8593, 32, 49345, 50948]),
    (''go'', uni [51060, 46041]),
    (''refresh'', uni [49352, 47196, 44256, 52840]),
    (''col_type'', uni [51333, 47448]),
    (''col_name'', uni [51060, 47492]),
    (''col_size'', uni [53356, 44592]),
    (''col_owner'', uni [49548, 50976, 51088]),
    (''col_backup'', uni [48177, 50629]),
    (''bk_done'', uni [50756, 47308]),
    (''bk_pending'', uni [45824, 44592]),
    (''bk_none'', uni [8212]),
    (''upload'', uni [50629, 47196, 46300]),
    (''download'', uni [45796, 50868, 47196, 46300]),
    (''mkdir'', uni [49352, 32, 54260, 45908]),
    (''delete'', uni [49325, 51228]),
    (''move'', uni [51060, 46041, 47, 51060, 47492, 48320, 44221]),
    (''copy'', uni [48373, 49324]),
    (''busy_browse'', uni [51312, 54924, 32, 51473] @ asc ''...''),
    (''cap'', uni [50857, 47049, 58, 32, 49324, 50857] @ asc '' {used} / '' @ uni [52509] @ asc '' {total} ('' @ uni [44032, 50857] @ asc '' {avail}) '' @ uni [183, 32, 48372, 47448] @ asc '' {pending}''),
    (''err_status'', uni [50724, 47448] @ asc '': {msg}''),
    (''upload_pick'', uni [50629, 47196, 46300, 54624, 32, 54028, 51068]),
    (''uploading'', uni [50629, 47196, 46300, 32, 51473] @ asc '': {name}''),
    (''download_pick'', uni [45796, 50868, 47196, 46300, 54624, 32, 54028, 51068, 51012, 32, 49440, 53469, 54616, 49464, 50836, 46]),
    (''save_to'', uni [51200, 51109, 32, 50948, 52824]),
    (''downloading'', uni [45796, 50868, 47196, 46300, 32, 51473] @ asc '': {name}''),
    (''download_done'', uni [45796, 50868, 47196, 46300, 32, 50756, 47308] @ asc '': {path} ({size})''),
    (''mkdir_prompt'', uni [54260, 45908, 32, 51060, 47492, 58]),
    (''mkdir_busy'', uni [54260, 45908, 32, 49373, 49457, 32, 51473] @ asc ''...''),
    (''delete_confirm'', uni [39] @ asc ''{name}'' @ uni [39, 51012, 40, 47484, 41, 32, 49325, 51228, 54624, 44620, 50836, 63]),
    (''delete_confirm_many'', uni [49440, 53469, 54620] @ asc '' {count}'' @ uni [44060, 32, 54637, 47785, 51012, 32, 49325, 51228, 54624, 44620, 50836, 63]),
    (''delete_busy'', uni [49325, 51228, 32, 51473] @ asc ''...''),
    (''move_prompt'', uni [45824, 49345, 32, 44032, 49345, 32, 44221, 47196, 58]),
    (''move_busy'', uni [51060, 46041, 32, 51473] @ asc ''...''),
    (''copy_pick'', uni [48373, 49324, 54624, 32, 54028, 51068, 51012, 32, 49440, 53469, 54616, 49464, 50836, 46]),
    (''copy_prompt'', uni [45824, 49345, 32, 44032, 49345, 32, 44221, 47196, 58]),
    (''copy_busy'', uni [48373, 49324, 32, 51473] @ asc ''...''),
    (''devices_title'', uni [45236, 32, 46356, 48148, 51060, 49828]),
    (''devices_busy'', uni [46356, 48148, 51060, 49828, 32, 51312, 54924, 32, 51473] @ asc ''...''),
    (''online'', uni [50728, 46972, 51064]),
    (''offline'', uni [50724, 54532, 46972, 51064]),
    (''this_device'', uni [54788, 51116]),
    (''sources_title'', uni [49828, 53664, 47532, 51648, 32, 49548, 49828]),
    (''src_add_dir'', uni [46356, 47113, 53664, 47532, 32, 52628, 44032]),
    (''src_add_loop'', uni [47336, 54532, 48177, 32, 52628, 44032]),
    (''src_remove'', uni [51228, 44144]),
    (''close'', uni [45803, 44592]),
    (''src_pick_dir'', uni [46356, 47113, 53664, 47532, 32, 49548, 49828, 47196, 32, 52628, 44032, 54624, 32, 54260, 45908]),
    (''src_loop_path'', uni [47336, 54532, 48177, 32, 51060, 48120, 51648, 32, 44221, 47196]),
    (''src_loop_size_prompt'', uni [53356, 44592] @ asc ''(MB):''),
    (''src_remove_confirm'', uni [49548, 49828, 32, 39] @ asc ''{id}'' @ uni [39, 47484, 32, 49444, 51221, 50640, 49436, 32, 51228, 44144, 54624, 44620, 50836, 63, 10, 47932, 47532, 32, 45936, 51060, 53552, 45716, 32, 49325, 51228, 46104, 51648, 32, 50506, 51004, 45208, 32, 54644, 45817, 32, 49548, 49828, 51032, 32, 54028, 51068, 51008, 32, 51217, 44540, 32, 48520, 44032, 44032, 32, 46104, 47728, 44, 32, 49892, 54665, 32, 51473, 51064] @ asc '' daemon'' @ uni [51008, 32, 51116, 49884, 51089, 54644, 50556, 32, 48152, 50689, 46121, 45768, 45796, 46]),
    (''login_email'', uni [51060, 47700, 51068, 58]),
    (''login_password'', uni [48708, 48128, 48264, 54840, 58]),
    (''login_keypw'', uni [47560, 49828, 53552, 53412, 32, 48177, 50629, 32, 50516, 54840, 40, 49440, 53469, 44, 32, 50630, 51004, 47732, 32, 48708, 50880, 41, 58]),
    (''login_busy'', uni [47196, 44536, 51064, 32, 51473] @ asc ''...''),
    (''login_ok'', uni [47196, 44536, 51064, 32, 49457, 44277] @ asc '': {email}''),
    (''logout_busy'', uni [47196, 44536, 50500, 50883, 32, 51473] @ asc ''...''),
    (''logout_ok'', uni [47196, 44536, 50500, 50883, 32, 50756, 47308]),
    (''nc_pick_dir'', uni [49444, 51221, 47, 51200, 51109, 32, 54260, 45908, 32, 49440, 53469, 32, 40, 48708, 50612, 32, 51080, 45716, 32, 54260, 45908, 32, 44428, 51109, 41]),
    (''nc_server'', uni [49436, 48260] @ asc '' URL ('' @ uni [48708, 50864, 47732, 32, 50724, 54532, 46972, 51064, 32, 51204, 50857, 41, 58]),
    (''nc_device'', uni [46356, 48148, 51060, 49828, 32, 51060, 47492, 58]),
    (''nc_key_title'', uni [50516, 54840, 54868, 32, 53412]),
    (''nc_key_q'', uni [51060, 32, 46356, 48148, 51060, 49828, 50640, 49436, 32, 49352, 32, 50516, 54840, 54868, 32, 53412, 47484, 32, 49373, 49457, 54624, 44620, 50836, 63, 10, 10, 50696] @ asc '' = '' @ uni [52395, 32, 46356, 48148, 51060, 49828, 40, 49352, 32, 53412, 32, 49373, 49457, 41, 10, 50500, 45768, 50724] @ asc '' = '' @ uni [44592, 51316, 32, 44228, 51221, 40, 47196, 44536, 51064, 32, 54980, 32, 49436, 48260, 32, 48177, 50629, 50640, 49436, 32, 48373, 50896, 41]),
    (''nc_busy'', uni [49444, 51221, 32, 49373, 49457, 32, 51473] @ asc ''...''),
    (''nc_done_new'', uni [49444, 51221, 44284, 32, 49352, 32, 53412, 47484, 32, 49373, 49457, 54664, 49845, 45768, 45796, 46, 32, 47196, 44536, 51064, 32, 54980, 32, 49324, 50857, 54616, 49464, 50836, 46]),
    (''nc_done_restore'', uni [49444, 51221, 51012, 32, 49373, 49457, 54664, 49845, 45768, 45796, 46, 32, 39, 47196, 44536, 51064, 39, 50640, 49436, 32, 53412, 32, 48177, 50629, 32, 50516, 54840, 44620, 51648, 32, 51077, 47141, 54616, 47732, 32, 49436, 48260, 32, 48177, 50629, 50640, 49436, 32, 53412, 44032, 32, 48373, 50896, 46121, 45768, 45796, 46]),
    (''menu_language'', uni [50616, 50612]),
    (''lang_ko'', uni [54620, 44397, 50612]),
    (''lang_en'', asc ''English''),
    (''tray_open'', uni [50676, 44592]),
    (''tray_quit'', uni [51333, 47308]),
    (''tray_minimised'', uni [53944, 47112, 51060, 47196, 32, 52572, 49548, 54868, 46104, 50632, 49845, 45768, 45796, 46]),
    (''tray_disabled_hint'', uni [53944, 47112, 51060, 32, 48708, 54876, 49457] @ asc ''(pystray '' @ uni [48120, 49444, 52824] @ asc ''): '' @ uni [52285, 32, 45803, 44592] @ asc '' = '' @ uni [51333, 47308, 46, 32, 49444, 52824] @ asc '': pip install -r requirements.txt'')]"

definition EN :: "(string \<times> message) list" where
  "EN = [
    (''app_title'', asc ''StardustFS''),
    (''ready'', asc ''Ready''),
    (''err'', asc ''Error''),
    (''need_config'', asc ''Select a config file first.''),
    (''select_config_hint'', asc ''Select a config file (New Config... or Open Config...).''),
    (''login_required'', asc ''Sign in to view your files.''),
    (''new_config'', asc ''New Config...''),
    (''choose_config'', asc ''Open Config...''),
    (''login'', asc ''Sign In''),
    (''logout'', asc ''Sign Out''),
    (''daemon_unknown'', asc ''daemon: ?''),
    (''daemon_running'', asc ''daemon: running (pid={pid})''),
    (''daemon_stale'', asc ''daemon: stale (crashed?)''),
    (''daemon_stopped'', asc ''daemon: stopped''),
    (''daemon_start'', asc ''Start daemon''),
    (''daemon_stop'', asc ''Stop daemon''),
    (''daemon_starting'', asc ''Auto-starting daemon...''),
    (''daemon_started'', asc ''daemon started (pid={pid})''),
    (''daemon_stop_req'', asc ''daemon stop requested''),
    (''daemon_start_busy'', asc ''Starting daemon...''),
    (''daemon_stop_busy'', asc ''Stopping daemon...''),
    (''devices'', asc ''Devices''),
    (''storage'', asc ''Storage''),
    (''up'', uni [8593] @ asc '' Up''),
    (''go'', asc ''Go''),
    (''refresh'', asc ''Refresh''),
    (''col_type'', asc ''type''),
    (''col_name'', asc ''name''),
    (''col_size'', asc ''size''),
    (''col_owner'', asc ''owner''),
    (''col_backup'', asc ''backup''),
    (''bk_done'', asc ''backed up''),
    (''bk_pending'', asc ''pending''),
    (''bk_none'', uni [8212]),
    (''upload'', asc ''Upload''),
    (''download'', asc ''Download''),
    (''mkdir'', asc ''New Folder''),
    (''delete'', asc ''Delete''),
    (''move'', asc ''Move/Rename''),
    (''copy'', asc ''Copy''),
    (''busy_browse'', asc ''Loading...''),
    (''cap'', asc ''Storage: {used} used / {total} total ({avail} free) '' @ uni [183] @ asc '' pending {pending}''),
    (''err_status'', asc ''Error: {msg}''),
    (''upload_pick'', asc ''File to upload''),
    (''uploading'', asc ''Uploading: {name}''),
    (''download_pick'', asc ''Select a file to download.''),
    (''save_to'', asc ''Save as''),
    (''downloading'', asc ''Downloading: {name}''),
    (''download_done'', asc ''Downloaded: {path} ({size})''),
    (''mkdir_prompt'', asc ''Folder name:''),
    (''mkdir_busy'', asc ''Creating folder...''),
    (''delete_confirm'', asc ''Delete '' @ uni [39] @ asc ''{name}'' @ uni [39, 63]),
    (''delete_confirm_many'', asc ''Delete {count} selected items?''),
    (''delete_busy'', asc ''Deleting...''),
    (''move_prompt'', asc ''Destination virtual path:''),
    (''move_busy'', asc ''Moving...''),
    (''copy_pick'', asc ''Select a file to copy.''),
    (''copy_prompt'', asc ''Destination virtual path:''),
    (''copy_busy'', asc ''Copying...''),
    (''devices_title'', asc ''My Devices''),
    (''devices_busy'', asc ''Loading devices...''),
    (''online'', asc ''online''),
    (''offline'', asc ''offline''),
    (''this_device'', asc ''this''),
    (''sources_title'', asc ''Storage Sources''),
    (''src_add_dir'', asc ''Add Directory''),
    (''src_add_loop'', asc ''Add Loopback''),
    (''src_remove'', asc ''Remove''),
    (''close'', asc ''Close''),
    (''src_pick_dir'', asc ''Folder to add as a directory source''),
    (''src_loop_path'', asc ''Loopback image path''),
    (''src_loop_size_prompt'', asc ''Size (MB):''),
    (''src_remove_confirm'', asc ''Remove source '' @ uni [39] @ asc ''{id}'' @ uni [39] @ asc '' from the config?'' @ uni [10] @ asc ''The physical data is not deleted, but its files become inaccessible, and a running daemon must be restarted.''),
    (''login_email'', asc ''Email:''),
    (''login_password'', asc ''Password:''),
    (''login_keypw'', asc ''Master-key backup password (optional, leave blank to skip):''),
    (''login_busy'', asc ''Signing in...''),
    (''login_ok'', asc ''Signed in: {email}''),
    (''logout_busy'', asc ''Signing out...''),
    (''logout_ok'', asc ''Signed out''),
    (''nc_pick_dir'', asc ''Choose a config/storage folder (an empty folder is recommended)''),
    (''nc_server'', asc ''Server URL (leave blank for offline-only):''),
    (''nc_device'', asc ''Device name:''),
    (''nc_key_title'', asc ''Encryption key''),
    (''nc_key_q'', asc ''Generate a new encryption key on this device?'' @ uni [10, 10] @ asc ''Yes = first device (create new key)'' @ uni [10] @ asc ''No = existing account (restore from server backup after sign-in)''),
    (''nc_busy'', asc ''Creating config...''),
    (''nc_done_new'', asc ''Created the config and a new key. Sign in to continue.''),
    (''nc_done_restore'', asc ''Config created. Sign in (including the key backup password) and the key will be restored from the server backup.''),
    (''menu_language'', asc ''Language''),
    (''lang_ko'', uni [54620, 44397, 50612]),
    (''lang_en'', asc ''English''),
    (''tray_open'', asc ''Open''),
    (''tray_quit'', asc ''Quit''),
    (''tray_minimised'', asc ''Minimised to tray.''),
    (''tray_disabled_hint'', asc ''Tray disabled (pystray not installed): closing the window quits. Install: pip install -r requirements.txt'')]"

definition DEFAULT_LANG :: string where "DEFAULT_LANG = ''ko''"

definition TRANSLATIONS :: "(string \<times> (string \<times> message) list) list" where
  "TRANSLATIONS = [(''ko'', KO), (''en'', EN)]"

definition get_text :: "string \<Rightarrow> (string \<times> message) list" where
  "get_text lang = (case map_of TRANSLATIONS lang of Some d \<Rightarrow> d | None \<Rightarrow> KO)"

text \<open>\<open>str.lower\<close> for ASCII letters; other letters keep their case here.\<close>

definition lower_char :: "char \<Rightarrow> char" where
  "lower_char c = (if 65 \<le> (of_char c :: nat) \<and> (of_char c :: nat) \<le> 90 then char_of ((of_char c :: nat) + 32) else c)"

text \<open>The language of the system, \<open>locale\<close> being what the operating system reports.\<close>

definition detect_lang :: "string option result \<Rightarrow> string" where
  "detect_lang locale =
     (case locale of
       Inl x \<Rightarrow> DEFAULT_LANG
     | Inr code \<Rightarrow> (let c = map lower_char (get_str code) in
         if prefix ''ko'' c then ''ko'' else if prefix ''en'' c then ''en'' else DEFAULT_LANG))"

lemma rest_shorter: "dropWhile P cs = d # rest \<Longrightarrow> length rest < Suc (length cs)"
  by (metis length_dropWhile_le length_Cons less_Suc_eq_le order_trans le_SucI less_imp_le lessI)

text \<open>\<open>str.format\<close> with named fields: the name up to the closing brace is replaced by its value.
  The texts have no doubled braces.\<close>

function format_text :: "(string \<rightharpoonup> message) \<Rightarrow> message \<Rightarrow> message result" where
  "format_text args [] = Inr []"
| "format_text args (c # cs) =
     (if c = RB then Inl ValueError
      else if c \<noteq> LB then (case format_text args cs of Inl x \<Rightarrow> Inl x | Inr r \<Rightarrow> Inr (c # r))
      else (case dropWhile (\<lambda>d. d \<noteq> RB) cs of
          [] \<Rightarrow> Inl ValueError
        | d # rest \<Rightarrow>
            (case args (map ascii (takeWhile (\<lambda>d. d \<noteq> RB) cs)) of
              None \<Rightarrow> Inl KeyError
            | Some v \<Rightarrow> (case format_text args rest of Inl x \<Rightarrow> Inl x | Inr r \<Rightarrow> Inr (v @ r)))))"
  by pat_completeness auto

termination
  by (relation "measure (\<lambda>(a, t). length t)") (auto dest: rest_shorter)

text \<open>The fields of a text, and whether its braces match.\<close>

function text_names :: "message \<Rightarrow> string list option" where
  "text_names [] = Some []"
| "text_names (c # cs) =
     (if c = RB then None
      else if c \<noteq> LB then text_names cs
      else (case dropWhile (\<lambda>d. d \<noteq> RB) cs of
          [] \<Rightarrow> None
        | d # rest \<Rightarrow> map_option ((#) (map ascii (takeWhile (\<lambda>d. d \<noteq> RB) cs))) (text_names rest)))"
  by pat_completeness auto

termination
  by (relation "measure length") (auto dest: rest_shorter)

lemma format_succeeds: "text_names t = Some ns \<Longrightarrow> set ns \<subseteq> dom args \<Longrightarrow> \<exists>r. format_text args t = Inr r"
proof (induction t arbitrary: ns rule: text_names.induct)
  case (2 c cs)
  show ?case
  proof (cases "c = LB")
    case False
    then show ?thesis using 2 by (fastforce split: if_splits)
  next
    case True
    then obtain d rest where d: "dropWhile (\<lambda>d. d \<noteq> RB) cs = d # rest" using "2.prems"(1) by (auto split: list.splits)
    let ?name = "map ascii (takeWhile (\<lambda>d. d \<noteq> RB) cs)"
    obtain ns' where n: "text_names rest = Some ns'" "ns = ?name # ns'" using "2.prems"(1) True d by auto
    then obtain v r where "args ?name = Some v" "format_text args rest = Inr r"
      using "2.IH"(2) [OF _ _ d n(1)] "2.prems"(2) True by auto
    then show ?thesis using True d by simp
  qed
qed simp

text \<open>The fields that the interface fills in for each entry.\<close>

definition text_fields :: "(string \<times> string list) list" where
  "text_fields = [
    (''app_title'', []),
    (''ready'', []),
    (''err'', []),
    (''need_config'', []),
    (''select_config_hint'', []),
    (''login_required'', []),
    (''new_config'', []),
    (''choose_config'', []),
    (''login'', []),
    (''logout'', []),
    (''daemon_unknown'', []),
    (''daemon_running'', [''pid'']),
    (''daemon_stale'', []),
    (''daemon_stopped'', []),
    (''daemon_start'', []),
    (''daemon_stop'', []),
    (''daemon_starting'', []),
    (''daemon_started'', [''pid'']),
    (''daemon_stop_req'', []),
    (''daemon_start_busy'', []),
    (''daemon_stop_busy'', []),
    (''devices'', []),
    (''storage'', []),
    (''up'', []),
    (''go'', []),
    (''refresh'', []),
    (''col_type'', []),
    (''col_name'', []),
    (''col_size'', []),
    (''col_owner'', []),
    (''col_backup'', []),
    (''bk_done'', []),
    (''bk_pending'', []),
    (''bk_none'', []),
    (''upload'', []),
    (''download'', []),
    (''mkdir'', []),
    (''delete'', []),
    (''move'', []),
    (''copy'', []),
    (''busy_browse'', []),
    (''cap'', [''avail'', ''pending'', ''total'', ''used'']),
    (''err_status'', [''msg'']),
    (''upload_pick'', []),
    (''uploading'', [''name'']),
    (''download_pick'', []),
    (''save_to'', []),
    (''downloading'', [''name'']),
    (''download_done'', [''path'', ''size'']),
    (''mkdir_prompt'', []),
    (''mkdir_busy'', []),
    (''delete_confirm'', [''name'']),
    (''delete_confirm_many'', [''count'']),
    (''delete_busy'', []),
    (''move_prompt'', []),
    (''move_busy'', []),
    (''copy_pick'', []),
    (''copy_prompt'', []),
    (''copy_busy'', []),
    (''devices_title'', []),
    (''devices_busy'', []),
    (''online'', []),
    (''offline'', []),
    (''this_device'', []),
    (''sources_title'', []),
    (''src_add_dir'', []),
    (''src_add_loop'', []),
    (''src_remove'', []),
    (''close'', []),
    (''src_pick_dir'', []),
    (''src_loop_path'', []),
    (''src_loop_size_prompt'', []),
    (''src_remove_confirm'', [''id'']),
    (''login_email'', []),
    (''login_password'', []),
    (''login_keypw'', []),
    (''login_busy'', []),
    (''login_ok'', [''email'']),
    (''logout_busy'', []),
    (''logout_ok'', []),
    (''nc_pick_dir'', []),
    (''nc_server'', []),
    (''nc_device'', []),
    (''nc_key_title'', []),
    (''nc_key_q'', []),
    (''nc_busy'', []),
    (''nc_done_new'', []),
    (''nc_done_restore'', []),
    (''menu_language'', []),
    (''lang_ko'', []),
    (''lang_en'', []),
    (''tray_open'', []),
    (''tray_quit'', []),
    (''tray_minimised'', []),
    (''tray_disabled_hint'', [])]"

definition entry_fits :: "string \<times> message \<Rightarrow> string \<times> string list \<Rightarrow> bool" where
  "entry_fits e f \<longleftrightarrow> fst e = fst f \<and> (case text_names (snd e) of None \<Rightarrow> False | Some ns \<Rightarrow> list_all (\<lambda>n. n \<in> set (snd f)) ns)"

lemma entries_fit: "list_all2 entry_fits KO text_fields" "list_all2 entry_fits EN text_fields"
  by code_simp+

lemma fitting_entry:
  assumes "list_all2 entry_fits d fs" and "map_of fs k = Some names"
  shows "\<exists>t ns. map_of d k = Some t \<and> text_names t = Some ns \<and> set ns \<subseteq> set names"
  using assms
  by (induction d fs rule: list_all2_induct)
    (auto simp: entry_fits_def list_all_iff split: if_splits option.splits)

lemma message_formats:
  assumes "map_of text_fields k = Some names" and "set names \<subseteq> dom args"
  shows "\<exists>t s. map_of (get_text lang) k = Some t \<and> format_text args t = Inr s"
proof -
  have "list_all2 entry_fits (get_text lang) text_fields"
    using entries_fit by (simp add: get_text_def TRANSLATIONS_def)
  from fitting_entry [OF this assms(1)] assms(2) show ?thesis using format_succeeds by blast
qed

text \<open>In every language, also one that is not supported, every message of the interface is
  there and is formatted without an exception when its fields are filled in.\<close>

lemma every_message_formats:
  assumes "map_of text_fields k = Some names" and "set names \<subseteq> dom args"
  shows "\<exists>t s. map_of (get_text lang) k = Some t \<and> format_text args t = Inr s"
  using assms by (rule message_formats)

section \<open>Sizes\<close>

text \<open>\<open>_human\<close>: the unit is the first one with a number below 1024. The numbers are exact here, and
  \<open>f"{size:.1f}"\<close> rounds them to tenths, a tie to the even one.\<close>

definition show_int :: "int \<Rightarrow> string" where
  "show_int n = (if n < 0 then ''-'' @ show_nat (nat (- n)) else show_nat (nat n))"

definition tenths :: "int \<Rightarrow> int \<Rightarrow> int" where
  "tenths n unit =
     (let q = 10 * n div unit; r = 10 * n mod unit
      in if unit < 2 * r \<or> unit = 2 * r \<and> odd q then q + 1 else q)"

definition show_tenths :: "int \<Rightarrow> string" where
  "show_tenths t = show_int (t div 10) @ ''.'' @ show_int (t mod 10)"

fun human_loop :: "int \<Rightarrow> int \<Rightarrow> string list \<Rightarrow> string" where
  "human_loop n unit [] = show_int n @ '' B''"
| "human_loop n unit (u # us) =
     (if n < 1024 * unit \<or> us = []
      then (if unit = 1 then show_int n else show_tenths (tenths n unit)) @ '' '' @ u
      else human_loop n (1024 * unit) us)"

definition human :: "int \<Rightarrow> string" where
  "human n = human_loop n 1 [''B'', ''KiB'', ''MiB'', ''GiB'', ''TiB'']"

lemma human_examples:
  "human 0 = ''0 B''" "human 1023 = ''1023 B''" "human 1536 = ''1.5 KiB''" "human 1048576 = ''1.0 MiB''"
  by (simp_all add: human_def tenths_def show_tenths_def show_int_def show_nat.simps char_of_def bit_Suc_0_iff)

text \<open>Just below the next unit the number is rounded up to 1024.\<close>

lemma human_rounds_past_unit: "human 1048575 = ''1024.0 KiB''"
  by (simp add: human_def tenths_def show_tenths_def show_int_def show_nat.simps char_of_def bit_Suc_0_iff)

end
