(* ===== verification/Gui_Actions.thy ===== *)
theory Gui_Actions
  imports CLI_Session Daemon Texts "HOL-Library.Char_ord" "HOL-Library.List_Lexorder" "HOL-Library.Product_Lexorder"
begin

text \<open>
  What the desktop interface does, \<^verbatim>\<open>stardustlib/gui/actions.py\<close>: it creates and edits
  configurations, looks at the volume through a cached local session, and changes it in online
  sessions of its own. The state is that of the process, the configuration files, and the cache.
\<close>

section \<open>Creating a configuration\<close>

record gui =
  g_disk :: disk
  g_proc :: process
  g_cache :: "session dict"

text \<open>\<open>os.path.abspath\<close> for the working directory \<open>cwd\<close>.\<close>

definition abspath :: "string \<Rightarrow> string \<Rightarrow> string" where
  "abspath cwd p = normpath (path_join cwd p)"

text \<open>What can fail: creating the folder, writing the key (with what is left), writing the file.\<close>

record create_env =
  ct_cwd :: string
  ct_makedirs :: "unit result"
  ct_key_write :: "(exn \<times> bytes option) option"
  ct_random :: bytes
  ct_write :: outcome

definition new_config_data :: "string \<Rightarrow> string option \<Rightarrow> string \<Rightarrow> int \<Rightarrow> json dict" where
  "new_config_data base url name port =
     [(''version'', JInt 2),
      (''server'', JObj [(''url'', if truthy url then JStr (the url) else JNull), (''device_name'', JStr name)]),
      (''sources'', JArr [JObj [(''type'', JStr ''directory''), (''id'', JStr ''local-1''),
         (''path'', JStr (path_join base ''storage''))]]),
      (''metadata_db'', JStr (path_join base ''metadata.db'')),
      (''key_file'', JStr (path_join base ''master.key'')),
      (''sync'', JObj [(''interval_seconds'', JInt 30), (''conflict_strategy'', JStr ''copy'')]),
      (''p2p'', JObj [(''port'', JInt port), (''enabled'', JBool True)])]"

definition create_config ::
  "create_env \<Rightarrow> string \<Rightarrow> string option \<Rightarrow> string \<Rightarrow> bool \<Rightarrow> int \<Rightarrow> gui \<Rightarrow> string result \<times> gui" where
  "create_config e base_dir url name generate_key port g =
     (let base = abspath (ct_cwd e) base_dir; key_path = path_join base ''master.key'';
          cfg_path = path_join base ''config.json''; keys = pr_keys (g_proc g)
      in case ct_makedirs e of
           Inl x \<Rightarrow> (Inl x, g)
         | Inr _ \<Rightarrow>
             (case (if generate_key \<and> keys key_path = None
                    then (case ct_key_write e of
                        Some (x, left) \<Rightarrow> (Inl x, keys(key_path := left))
                      | None \<Rightarrow> (Inr (), keys(key_path \<mapsto> ct_random e)))
                    else (Inr (), keys)) of
               (Inl x, keys1) \<Rightarrow> (Inl x, g\<lparr>g_proc := (g_proc g)\<lparr>pr_keys := keys1\<rparr>\<rparr>)
             | (Inr _, keys1) \<Rightarrow>
                 (let g1 = g\<lparr>g_proc := (g_proc g)\<lparr>pr_keys := keys1\<rparr>\<rparr>;
                      (ok, d) = put_text (ct_write e) cfg_path (Parses (JObj (new_config_data base url name port))) (g_disk g1)
                  in (if ok then Inr cfg_path else Inl (OSError False), g1\<lparr>g_disk := d\<rparr>))))"

section \<open>Editing the sources\<close>

text \<open>\<open>list(v)\<close> on a JSON value.\<close>

fun py_list :: "json \<Rightarrow> json list result" where
  "py_list (JArr xs) = Inr xs"
| "py_list (JStr s) = Inr (map (\<lambda>c. JStr [c]) s)"
| "py_list (JObj d) = Inr (map (\<lambda>(k, v). JStr k) d)"
| "py_list _ = Inl TypeError"

definition list_sources :: "string \<Rightarrow> disk \<Rightarrow> json list result" where
  "list_sources path d =
     (case load_dict path d of
       Inl x \<Rightarrow> Inl x
     | Inr config \<Rightarrow> py_list (get_or (JArr []) ''sources'' config))"

text \<open>The file is read again and all of it written; \<open>w\<close> is the fate of the write.\<close>

definition save_sources :: "outcome \<Rightarrow> string \<Rightarrow> json list \<Rightarrow> disk \<Rightarrow> unit result \<times> disk" where
  "save_sources w path xs d =
     (case load path d of
       Inl x \<Rightarrow> (Inl x, d)
     | Inr v \<Rightarrow>
         (case as_obj v of
           None \<Rightarrow> (Inl TypeError, d)
         | Some data \<Rightarrow>
             (case put_text w path (Parses (JObj (AList.update ''sources'' (JArr xs) data))) d of
               (True, d1) \<Rightarrow> (Inr (), d1)
             | (False, d1) \<Rightarrow> (Inl (OSError False), d1))))"

definition source_entry :: "string \<Rightarrow> string \<Rightarrow> string \<Rightarrow> int option \<Rightarrow> json result" where
  "source_entry stype sid path sz =
     (let entry = [(''type'', JStr stype), (''id'', JStr sid), (''path'', JStr path)] in
      if stype = ''loopback'' then
        (if sz = None \<or> sz = Some 0 then Inl ValueError else Inr (JObj (entry @ [(''size'', JInt (the sz))])))
      else Inr (JObj entry))"

text \<open>\<open>hex\<close> is what the random generator of the id returns.\<close>

definition gui_add_source ::
  "string \<Rightarrow> string \<Rightarrow> outcome \<Rightarrow> string \<Rightarrow> string \<Rightarrow> string \<Rightarrow> int option \<Rightarrow> disk \<Rightarrow> string result \<times> disk" where
  "gui_add_source cwd hex w cfg stype path sz d =
     (if stype \<notin> {''directory'', ''loopback''} then (Inl ValueError, d)
      else (case list_sources cfg d of
          Inl x \<Rightarrow> (Inl x, d)
        | Inr xs \<Rightarrow>
            (let sid = stype @ ''-'' @ take 6 hex in
             case source_entry stype sid (abspath cwd path) sz of
               Inl x \<Rightarrow> (Inl x, d)
             | Inr entry \<Rightarrow>
                 (case save_sources w cfg (xs @ [entry]) d of
                   (Inl x, d1) \<Rightarrow> (Inl x, d1)
                 | (Inr _, d1) \<Rightarrow> (Inr sid, d1)))))"

definition has_id :: "string \<Rightarrow> json \<Rightarrow> bool" where
  "has_id sid s \<longleftrightarrow> (case as_obj s of None \<Rightarrow> False | Some d \<Rightarrow> get ''id'' d = JStr sid)"

definition remove_source :: "outcome \<Rightarrow> string \<Rightarrow> string \<Rightarrow> disk \<Rightarrow> unit result \<times> disk" where
  "remove_source w cfg sid d =
     (case list_sources cfg d of
       Inl x \<Rightarrow> (Inl x, d)
     | Inr xs \<Rightarrow>
         if \<exists>s \<in> set xs. as_obj s = None then (Inl AttributeError, d)
         else save_sources w cfg (filter (\<lambda>s. \<not> has_id sid s) xs) d)"

subsection \<open>What editing keeps\<close>

lemma load_dict_Parses [simp]: "d p = Some (Parses (JObj config)) \<Longrightarrow> load_dict p d = Inr config"
  by (simp add: load_dict_def load_def)

lemma load_dict_iff: "load_dict p d = Inr config \<longleftrightarrow> d p = Some (Parses (JObj config))"
  by (auto simp: load_dict_def load_def split: option.splits file_text.splits sum.splits)

lemma save_sources_works:
  assumes "load_dict p d = Inr config" and "save_sources Works p xs d = (r, d1)"
  shows "r = Inr () \<and> d1 = d(p \<mapsto> Parses (JObj (AList.update ''sources'' (JArr xs) config))) \<and> list_sources p d1 = Inr xs"
  using assms
  by (auto simp: save_sources_def load_dict_iff load_def put_text_def list_sources_def get_or_def)

text \<open>Adding a source and removing it again: the entry is appended under the id that is
  returned, every other field of the configuration and every other file stay as they are, and
  removing a fresh id gives back the very list of sources there was.\<close>

lemma added_source_can_be_removed:
  assumes "load_dict p d = Inr config" and "list_sources p d = Inr xs" and "\<forall>x \<in> set xs. as_obj x \<noteq> None"
    and "gui_add_source cwd hex Works p stype path sz d = (Inr sid, d1)" and "\<forall>x \<in> set xs. \<not> has_id sid x"
    and "remove_source Works p sid d1 = (r, d2)"
  shows "(\<exists>entry. has_id sid entry \<and> list_sources p d1 = Inr (xs @ [entry])) \<and> r = Inr () \<and> list_sources p d2 = Inr xs \<and>
    (\<forall>q. q \<noteq> p \<longrightarrow> d1 q = d q \<and> d2 q = d q) \<and>
    (\<exists>c1 c2. load_dict p d1 = Inr c1 \<and> load_dict p d2 = Inr c2 \<and>
       (\<forall>k. k \<noteq> ''sources'' \<longrightarrow> map_of c1 k = map_of config k \<and> map_of c2 k = map_of config k))"
proof -
  obtain entry where e: "source_entry stype sid (abspath cwd path) sz = Inr entry"
      and s1: "save_sources Works p (xs @ [entry]) d = (Inr (), d1)"
    using assms(2,4) by (auto simp: gui_add_source_def Let_def split: sum.splits prod.splits if_splits)
  have i: "has_id sid entry" "as_obj entry \<noteq> None"
    using e by (auto simp: source_entry_def has_id_def get_or_def Let_def split: if_splits)
  note w1 = save_sources_works [OF assms(1) s1]
  then have l1: "load_dict p d1 = Inr (AList.update ''sources'' (JArr (xs @ [entry])) config)" by (simp add: load_dict_iff)
  have "filter (\<lambda>s. \<not> has_id sid s) (xs @ [entry]) = xs"
    using assms(5) i(1) by (simp add: filter_id_conv)
  then have s2: "save_sources Works p xs d1 = (r, d2)"
    using assms(3,6) w1 i(2) by (auto simp: remove_source_def split: if_splits)
  from save_sources_works [OF l1 s2] w1 i(1) l1 show ?thesis
    by (auto simp: load_dict_iff update_conv)
qed

subsection \<open>A new configuration is valid\<close>

lemma normpath_rooted: "prefix ''/'' p \<Longrightarrow> prefix ''/'' (normpath p)"
proof -
  assume r: "prefix ''/'' p"
  then have "0 < initial_slashes p" "p \<noteq> []" by auto
  then obtain k where "initial_slashes p = Suc k" using gr0_implies_Suc by blast
  with \<open>p \<noteq> []\<close> show ?thesis by (auto simp: normpath_def Let_def initial_slashes_def norm_parts_def norm_step_def split: if_splits)
qed

lemma path_join_rooted: "prefix ''/'' a \<Longrightarrow> prefix ''/'' (path_join a b)"
  by (auto simp: path_join_def prefix_append)

lemma abspath_rooted: "prefix ''/'' cwd \<Longrightarrow> prefix ''/'' (abspath cwd p)"
  by (simp add: abspath_def normpath_rooted path_join_rooted)

text \<open>Whatever folder is chosen, with a device name of at most 64 characters, a port in the
  range, and no server or one with an https address, the configuration that is created passes
  all checks, provided that its folder is there and that there is a key or a server to restore
  it from; and a new key of 32 bytes is the key that the configuration is used with.\<close>

lemma created_config_is_valid:
  assumes "create_config e base_dir url name generate_key port g = (Inr path, g')"
    and "1 \<le> length name" and "length name \<le> 64" and "1024 \<le> port" and "port \<le> 65535"
    and "truthy url \<longrightarrow> (\<exists>host. host \<noteq> [] \<and> the url = ''https://'' @ host)" and "prefix ''/'' (ct_cwd e)"
    and "has_dir fs (path_join (abspath (ct_cwd e) base_dir) ''storage'')"
    and "\<forall>k. pr_keys (g_proc g') k \<noteq> None \<longrightarrow> exists_path fs k" and "generate_key \<or> truthy url"
  shows "\<exists>config key_path. load path (g_disk g') = Inr (JObj config) \<and> validate fs (JObj config) = Inr [] \<and>
    get ''key_file'' config = JStr key_path \<and>
    (generate_key \<and> pr_keys (g_proc g) key_path = None \<and> length (ct_random e) = 32 \<longrightarrow>
       load_encryption_key (pr_keys (g_proc g')) env (Some key_path) v = Inr (ct_random e))"
proof -
  let ?base = "abspath (ct_cwd e) base_dir"
  let ?config = "new_config_data ?base url name port"
  let ?key = "path_join ?base ''master.key''"
  have d: "load path (g_disk g') = Inr (JObj ?config)"
    and k: "generate_key \<longrightarrow> pr_keys (g_proc g') ?key \<noteq> None"
    and k': "generate_key \<and> pr_keys (g_proc g) ?key = None \<longrightarrow> pr_keys (g_proc g') ?key = Some (ct_random e)"
    using assms(1)
    by (auto simp: create_config_def Let_def put_text_def load_def split: sum.splits if_splits option.splits outcome.splits)
  have b: "prefix ''/'' (path_join ?base ''storage'')" by (intro path_join_rooted abspath_rooted assms(7))
  have src: "sources_ok (\<lambda>s. remote_source_ok s \<or> local_source_ok fs s) ?config"
    using b assms(8) by (auto simp: sources_ok_def new_config_data_def get_or_def local_source_ok_def)
  have key: "get ''key_file'' ?config = JStr ?key" by (simp add: new_config_data_def get_or_def)
  have "\<exists>server sync p2p. get ''server'' ?config = JObj server \<and> server_ok server \<and> get ''sync'' ?config = JObj sync \<and>
      sync_ok sync \<and> get ''p2p'' ?config = JObj p2p \<and> p2p_ok p2p \<and>
      sources_ok (\<lambda>s. remote_source_ok s \<or> local_source_ok fs s) ?config \<and>
      (\<forall>k. get ''key_file'' ?config = JStr k \<longrightarrow> get ''url'' server \<noteq> JNull \<or> exists_path fs k)"
    using assms(2-6,9,10) k src key
    by (auto simp: new_config_data_def get_or_def server_ok_def url_ok_def sync_ok_def p2p_ok_def)
  then have "validate fs (JObj ?config) = Inr []"
    unfolding v2_checked [symmetric] by (simp add: validate_def new_config_data_def get_or_def)
  moreover have "generate_key \<and> pr_keys (g_proc g) ?key = None \<and> length (ct_random e) = 32 \<longrightarrow>
      load_encryption_key (pr_keys (g_proc g')) env (Some ?key) v = Inr (ct_random e)"
    using k' by (simp add: load_encryption_key_def REQUIRED_KEY_LENGTH_def)
  ultimately show ?thesis using d key by blast
qed

section \<open>Looking at the volume\<close>

record file_line =
  fl_dir :: bool
  fl_name :: string
  fl_size :: int
  fl_owner :: string
  fl_backup :: string

definition line_of :: "string \<Rightarrow> mstore \<Rightarrow> entry_info \<Rightarrow> file_line" where
  "line_of base m en =
     (let vp = join_name base (ei_name en); status = get_replication_status vp m in
      \<lparr>fl_dir = ei_is_directory en, fl_name = ei_name en, fl_size = ei_file_size en,
        fl_owner = (if ei_is_directory en then []
          else (case lookup vp m of None \<Rightarrow> [] | Some f \<Rightarrow> if truthy (device_id f) then take 8 (the (device_id f)) else [])),
        fl_backup = (if ei_is_directory en then [] else if truthy status then the status else ''none'')\<rparr>)"

definition line_key :: "file_line \<Rightarrow> bool \<times> string" where
  "line_key r = (\<not> fl_dir r, map lower_char (fl_name r))"

definition rows_for :: "string \<Rightarrow> jbod \<Rightarrow> file_line list" where
  "rows_for base j = sort_key line_key (map (line_of base (md j)) (list_directory base j))"

text \<open>The cache of local sessions, a dict.\<close>

definition offline_session :: "session_env \<Rightarrow> string \<Rightarrow> gui \<Rightarrow> session result \<times> gui" where
  "offline_session env path g =
     (case map_of (g_cache g) path of
       Some s \<Rightarrow> (Inr s, g)
     | None \<Rightarrow>
         (case open_session env path (g_disk g) (g_proc g) of
           (Inl x, w) \<Rightarrow> (Inl x, g\<lparr>g_proc := w\<rparr>)
         | (Inr s, w) \<Rightarrow> (Inr s, g\<lparr>g_proc := w, g_cache := g_cache g @ [(path, s)]\<rparr>)))"

definition drop_session :: "string \<Rightarrow> gui \<Rightarrow> gui" where
  "drop_session path g =
     (case map_of (g_cache g) path of
       None \<Rightarrow> g
     | Some s \<Rightarrow> g\<lparr>g_cache := AList.delete path (g_cache g), g_proc := close_session s (g_proc g)\<rparr>)"

definition invalidate :: "string option \<Rightarrow> gui \<Rightarrow> gui" where
  "invalidate path g = fold drop_session (if truthy path then [the path] else map fst (g_cache g)) g"

record browsed =
  br_rows :: "file_line list"
  br_total :: int
  br_used :: int
  br_available :: int
  br_pending :: nat

definition keep_volume :: "string \<Rightarrow> jbod \<Rightarrow> gui \<Rightarrow> gui" where
  "keep_volume path j g = g\<lparr>g_cache := map (\<lambda>(q, s). (q, if q = path then s\<lparr>ss_state := (ss_state s)\<lparr>vol := j\<rparr>\<rparr> else s)) (g_cache g)\<rparr>"

text \<open>A cached session reads the database again, \<open>db\<close> being what it holds now; the sources are
  those of the time when the session was opened.\<close>

definition browse :: "session_env \<Rightarrow> jenv \<Rightarrow> string \<Rightarrow> string option \<Rightarrow> mstore \<Rightarrow> gui \<Rightarrow> browsed result \<times> gui" where
  "browse env jn path vp db g =
     (case offline_session env path g of
       (Inl x, g1) \<Rightarrow> (Inl x, g1)
     | (Inr s, g1) \<Rightarrow>
         (let j = set_md db (vol (ss_state s)) in
          case total_space jn j of
            (Inl x, j1) \<Rightarrow> (Inl x, keep_volume path j1 g1)
          | (Inr capacity, j1) \<Rightarrow>
              (case available_space jn j1 of
                (Inl x, j2) \<Rightarrow> (Inl x, keep_volume path j2 g1)
              | (Inr avail, j2) \<Rightarrow>
                  (Inr \<lparr>br_rows = rows_for (vpath vp) j, br_total = capacity, br_used = capacity - avail, br_available = avail,
                     br_pending = length (get_pending_files db)\<rparr>, keep_volume path j2 g1))))"

text \<open>When the metadata last changed, for the times \<open>mtime\<close> of the files.\<close>

definition metadata_mtime :: "string \<Rightarrow> disk \<Rightarrow> (string \<Rightarrow> real option) \<Rightarrow> real result" where
  "metadata_mtime path d mtime =
     (case load_dict path d of
       Inl x \<Rightarrow> Inl x
     | Inr config \<Rightarrow>
         if \<not> json_truthy (get ''metadata_db'' config) then Inr 0
         else (case get ''metadata_db'' config of
             JStr db \<Rightarrow> Inr (fold (\<lambda>suffix latest. case mtime (db @ suffix) of None \<Rightarrow> latest | Some t \<Rightarrow> max latest t)
                 [[], ''-wal''] 0)
           | _ \<Rightarrow> Inl TypeError))"

text \<open>What is shown of a directory is its listing in the database as it is now, however old
  the cached session is: every entry once, with its size and state, directories before files and
  each group by name without regard to case.\<close>

lemma browse_shows_current_listing:
  assumes "browse env jn path vp db g = (Inr b, g')"
  shows "mset (br_rows b) = mset (map (line_of (vpath vp) db) (list_entries (vpath vp) db)) \<and>
    sorted (map line_key (br_rows b)) \<and>
    (\<forall>i k. i < k \<and> k < length (br_rows b) \<and> fl_dir (br_rows b ! k) \<longrightarrow> fl_dir (br_rows b ! i)) \<and>
    br_used b + br_available b = br_total b \<and> br_pending b = length (get_pending_files db)"
proof -
  have "\<exists>j c a. md j = db \<and> b = \<lparr>br_rows = rows_for (vpath vp) j, br_total = c, br_used = c - a, br_available = a,
      br_pending = length (get_pending_files db)\<rparr>"
  proof (cases "offline_session env path g")
    case (Pair q g1)
    then obtain s where q: "offline_session env path g = (Inr s, g1)" using assms by (cases q) (simp_all add: browse_def)
    let ?j = "set_md db (vol (ss_state s))"
    have m: "md ?j = db" by (simp add: set_md_def)
    obtain t j1 where t: "total_space jn ?j = (t, j1)" by (metis surj_pair)
    obtain a j2 where a: "available_space jn j1 = (a, j2)" by (metis surj_pair)
    have "\<exists>c f. b = \<lparr>br_rows = rows_for (vpath vp) ?j, br_total = c, br_used = c - f, br_available = f,
        br_pending = length (get_pending_files db)\<rparr>"
      using assms q t a by (cases t; cases a) (auto simp: browse_def Let_def)
    with m show ?thesis by blast
  qed
  then have r: "br_rows b = sort_key line_key (map (line_of (vpath vp) db) (list_entries (vpath vp) db))"
    and u: "br_used b + br_available b = br_total b" "br_pending b = length (get_pending_files db)"
    by (auto simp: rows_for_def list_directory_def)
  have "fl_dir (br_rows b ! i)" if "i < k" "k < length (br_rows b)" "fl_dir (br_rows b ! k)" for i k
  proof -
    have "sorted (map line_key (br_rows b))" unfolding r by (rule sorted_sort_key)
    then have "line_key (br_rows b ! i) \<le> line_key (br_rows b ! k)"
      using that(1,2) sorted_nth_mono [of "map line_key (br_rows b)" i k] by simp
    then show ?thesis using that(3) by (auto simp: line_key_def less_eq_prod_def)
  qed
  then show ?thesis using u by (auto simp: r)
qed

section \<open>Online actions\<close>

definition gui_online ::
  "session_env \<Rightarrow> string \<Rightarrow> bool \<Rightarrow> (session \<Rightarrow> 'a result \<times> session) \<Rightarrow> gui \<Rightarrow> 'a result \<times> gui" where
  "gui_online env path sync aop g =
     (case open_online env sync path (g_disk g) (g_proc g) of
       (Inl x, w) \<Rightarrow> (Inl x, g\<lparr>g_proc := w\<rparr>)
     | (Inr s, w) \<Rightarrow>
         if \<not> ss_online s then (Inl RuntimeError, g\<lparr>g_proc := aclose s w\<rparr>)
         else (let (r, s1) = aop s in (r, g\<lparr>g_proc := aclose s1 w\<rparr>)))"

definition device_lines :: "session \<Rightarrow> (string \<times> string option \<times> bool \<times> bool) list result \<times> session" where
  "device_lines s =
     (Inr (map (\<lambda>d. (take 8 (get_str (di_id d)), di_name d, di_online d, di_id d = ss_self s))
        (case ss_devices s of None \<Rightarrow> [] | Some ds \<Rightarrow> ds)), s)"

definition devices_list ::
  "session_env \<Rightarrow> string \<Rightarrow> gui \<Rightarrow> (string \<times> string option \<times> bool \<times> bool) list result \<times> gui" where
  "devices_list env path = gui_online env path False device_lines"

text \<open>The bodies of the actions that change the volume: the change, then the upload.\<close>

definition change_volume :: "sync_env \<Rightarrow> 'a result \<times> jbod \<Rightarrow> session \<Rightarrow> 'a result \<times> session" where
  "change_volume e q s =
     (let s1 = s\<lparr>ss_state := (ss_state s)\<lparr>vol := snd q\<rparr>\<rparr>
      in case fst q of Inl x \<Rightarrow> (Inl x, s1) | Inr v \<Rightarrow> (Inr v, upload_session e s1))"

abbreviation session_volume :: "session \<Rightarrow> jbod" where
  "session_volume s \<equiv> vol (ss_state s)"

abbreviation gui_env :: "session_env \<Rightarrow> session \<Rightarrow> sync_env" where
  "gui_env env s \<equiv> client_env env (ss_name s)"

definition put_body :: "session_env \<Rightarrow> string \<Rightarrow> bytes \<Rightarrow> session \<Rightarrow> nat result \<times> session" where
  "put_body env vp data s =
     change_volume (gui_env env s) (map_prod (map_sum id (\<lambda>u. length data)) id
       (write_file (je (gui_env env s)) vp data (session_volume s))) s"

definition get_body :: "session_env \<Rightarrow> string \<Rightarrow> session \<Rightarrow> bytes result \<times> session" where
  "get_body env vp s =
     (let (r, j) = read_file (je (gui_env env s)) vp (session_volume s)
      in (r, s\<lparr>ss_state := (ss_state s)\<lparr>vol := j\<rparr>\<rparr>))"

definition mkdir_body :: "session_env \<Rightarrow> string \<Rightarrow> session \<Rightarrow> unit result \<times> session" where
  "mkdir_body env vp s =
     change_volume (gui_env env s) (Inr (), create_directory (je (gui_env env s)) vp (session_volume s)) s"

definition delete_one :: "sync_env \<Rightarrow> nat \<Rightarrow> string \<Rightarrow> bool \<Rightarrow> jbod \<Rightarrow> unit result \<times> jbod" where
  "delete_one e depth vp recursive j =
     (if recursive then delete_directory depth (je e) vp j else delete_file (je e) vp j)"

definition remove_body :: "session_env \<Rightarrow> nat \<Rightarrow> string \<Rightarrow> bool \<Rightarrow> session \<Rightarrow> unit result \<times> session" where
  "remove_body env depth vp recursive s =
     change_volume (gui_env env s) (delete_one (gui_env env s) depth vp recursive (session_volume s)) s"

fun remove_loop :: "sync_env \<Rightarrow> nat \<Rightarrow> (string \<times> bool) list \<Rightarrow> nat \<Rightarrow> jbod \<Rightarrow> nat result \<times> jbod" where
  "remove_loop e depth [] n j = (Inr n, j)"
| "remove_loop e depth ((vp, r) # xs) n j =
     (case delete_one e depth vp r j of
       (Inr _, j1) \<Rightarrow> remove_loop e depth xs (Suc n) j1
     | (Inl x, j1) \<Rightarrow> if x = FileNotFoundError then remove_loop e depth xs n j1 else (Inl x, j1))"

definition remove_many_body :: "session_env \<Rightarrow> nat \<Rightarrow> (string \<times> bool) list \<Rightarrow> session \<Rightarrow> nat result \<times> session" where
  "remove_many_body env depth items s =
     change_volume (gui_env env s) (remove_loop (gui_env env s) depth items 0 (session_volume s)) s"

definition move_body :: "session_env \<Rightarrow> string \<Rightarrow> string \<Rightarrow> session \<Rightarrow> unit result \<times> session" where
  "move_body env src dst s =
     change_volume (gui_env env s)
       (if file_exists src (session_volume s) then move_file src dst (session_volume s)
        else move_directory (je (gui_env env s)) src dst (session_volume s)) s"

definition copy_body :: "session_env \<Rightarrow> string \<Rightarrow> string \<Rightarrow> session \<Rightarrow> unit result \<times> session" where
  "copy_body env src dst s =
     change_volume (gui_env env s) (copy_file (je (gui_env env s)) src dst (session_volume s)) s"

text \<open>The actions. The local file is read before the session is opened, and written after it has
  been closed.\<close>

definition put_file :: "session_env \<Rightarrow> string \<Rightarrow> string \<Rightarrow> string option \<Rightarrow> gui \<Rightarrow> nat result \<times> gui" where
  "put_file env path local remote g =
     (case pr_files (g_proc g) local of
       None \<Rightarrow> (Inl FileNotFoundError, g)
     | Some data \<Rightarrow> gui_online env path True (put_body env (vpath remote) data) g)"

definition get_file :: "session_env \<Rightarrow> (string \<Rightarrow> bool) \<Rightarrow> string \<Rightarrow> string option \<Rightarrow> string \<Rightarrow> gui \<Rightarrow> nat result \<times> gui" where
  "get_file env writable path remote local g =
     (case gui_online env path True (get_body env (vpath remote)) g of
       (Inl x, g1) \<Rightarrow> (Inl x, g1)
     | (Inr data, g1) \<Rightarrow>
         if writable local
         then (Inr (length data), g1\<lparr>g_proc := (g_proc g1)\<lparr>pr_files := (pr_files (g_proc g1))(local \<mapsto> data)\<rparr>\<rparr>)
         else (Inl (OSError False), g1))"

definition gui_mkdir :: "session_env \<Rightarrow> string \<Rightarrow> string option \<Rightarrow> gui \<Rightarrow> unit result \<times> gui" where
  "gui_mkdir env path vp = gui_online env path True (mkdir_body env (vpath vp))"

definition gui_remove :: "session_env \<Rightarrow> nat \<Rightarrow> string \<Rightarrow> string option \<Rightarrow> bool \<Rightarrow> gui \<Rightarrow> unit result \<times> gui" where
  "gui_remove env depth path vp recursive = gui_online env path True (remove_body env depth (vpath vp) recursive)"

definition remove_many :: "session_env \<Rightarrow> nat \<Rightarrow> string \<Rightarrow> (string option \<times> bool) list \<Rightarrow> gui \<Rightarrow> nat result \<times> gui" where
  "remove_many env depth path items =
     gui_online env path True (remove_many_body env depth (map (\<lambda>(p, r). (vpath p, r)) items))"

definition gui_move :: "session_env \<Rightarrow> string \<Rightarrow> string option \<Rightarrow> string option \<Rightarrow> gui \<Rightarrow> unit result \<times> gui" where
  "gui_move env path src dst = gui_online env path True (move_body env (vpath src) (vpath dst))"

definition gui_copy :: "session_env \<Rightarrow> string \<Rightarrow> string option \<Rightarrow> string option \<Rightarrow> gui \<Rightarrow> unit result \<times> gui" where
  "gui_copy env path src dst = gui_online env path True (copy_body env (vpath src) (vpath dst))"

section \<open>The same as the commands\<close>

datatype change = Upload string string | New_Folder string | Delete string bool | Rename string string | Duplicate string string

fun as_command :: "change \<Rightarrow> command" where
  "as_command (Upload l r) = Put l (Some r)"
| "as_command (New_Folder p) = Mkdir p"
| "as_command (Delete p r) = Rm r p"
| "as_command (Rename a b) = Mv a b"
| "as_command (Duplicate a b) = Cp a b"

fun body_of :: "session_env \<Rightarrow> nat \<Rightarrow> user_disk \<Rightarrow> change \<Rightarrow> session \<Rightarrow> unit result \<times> session" where
  "body_of env depth uf (Upload l r) s =
     (case uf l of
       None \<Rightarrow> (Inl FileNotFoundError, s)
     | Some data \<Rightarrow> map_prod (map_sum id (\<lambda>n. ())) id (put_body env (vpath (Some r)) data s))"
| "body_of env depth uf (New_Folder p) s = mkdir_body env (vpath (Some p)) s"
| "body_of env depth uf (Delete p r) s = remove_body env depth (vpath (Some p)) r s"
| "body_of env depth uf (Rename a b) s = move_body env (vpath (Some a)) (vpath (Some b)) s"
| "body_of env depth uf (Duplicate a b) s = copy_body env (vpath (Some a)) (vpath (Some b)) s"

lemma change_as_command:
  "on_volume s w (finish_command (client_env env (ss_name s)) (ss_sync s) (ss_state s) q) =
     (case change_volume (gui_env env s) q s of
       (Inr u, s1) \<Rightarrow> (Inr 0, s1, w) | (Inl x, s1) \<Rightarrow> (not_found_or_io x, s1, w))"
  by (cases q; cases "fst q")
    (auto simp: on_volume_def finish_command_def change_volume_def upload_session_def Let_def)

lemma put_as_command:
  assumes "pr_files w l = Some data"
  shows "\<exists>r'. perform e (Put l (Some r)) s w = (r', snd (put_body (cl_session e) (put_target l (Some r)) data s), w) \<and>
    (case fst (put_body (cl_session e) (put_target l (Some r)) data s) of
      Inr n \<Rightarrow> r' = Inr 0
    | Inl x \<Rightarrow> r' = (if x = InsufficientStorageError then Inr 5 else if is_os_error x then Inr 4 else Inl x))"
proof -
  let ?q = "write_file (je (gui_env (cl_session e) s)) (put_target l (Some r)) data (session_volume s)"
  show ?thesis
    using assms
    by (cases ?q; cases "fst ?q")
      (auto simp: cmd_put_def put_body_def change_volume_def on_volume_def env_of_def upload_session_def Let_def)
qed

lemma upload_as_command:
  assumes "perform e (as_command (Upload l q)) s w = (r, s1, w1)" and "q \<noteq> []"
    and "body_of (cl_session e) (cl_depth e) (pr_files w) (Upload l q) s = (r', s1')"
  shows "s1' = s1 \<and> w1 = w \<and> (case r' of Inr u \<Rightarrow> r = Inr 0 | Inl x \<Rightarrow> r = Inl x \<or> r \<in> Inr ` {3, 4, 5})"
proof (cases "pr_files w l")
  case None
  then show ?thesis using assms(1,3) by (auto simp: cmd_put_def on_volume_def)
next
  case (Some data)
  have t: "put_target l (Some q) = vpath (Some q)" using assms(2) by (simp add: put_target_def truthy_def)
  obtain b v where pb: "put_body (cl_session e) (vpath (Some q)) data s = (b, v)" by (metis surj_pair)
  obtain r2 where r2: "perform e (Put l (Some q)) s w = (r2, v, w)"
      "case b of Inr n \<Rightarrow> r2 = Inr 0 | Inl x \<Rightarrow> r2 = (if x = InsufficientStorageError then Inr 5 else if is_os_error x then Inr 4 else Inl x)"
    using put_as_command [OF Some, of e q s] pb t by auto
  have "r' = map_sum id (\<lambda>n. ()) b" "s1' = v" using assms(3) Some pb by simp_all
  with assms(1) r2 show ?thesis by (cases b) (auto split: if_splits)
qed

text \<open>C23: Every action of the desktop interface that changes the volume does to its session
  exactly what the command of the same kind does: the same volume and the same requests, success
  for exit code 0, and an exception where the command has the code that stands for it.\<close>

theorem actions_equal_commands:
  assumes "perform e (as_command c) s w = (r, s1, w1)" and "body_of (cl_session e) (cl_depth e) (pr_files w) c s = (r', s1')"
    and "\<And>l q. c = Upload l q \<Longrightarrow> q \<noteq> []"
  shows "s1' = s1 \<and> w1 = w \<and> (case r' of Inr u \<Rightarrow> r = Inr 0 | Inl x \<Rightarrow> r = Inl x \<or> r \<in> Inr ` {3, 4, 5})"
proof (cases c)
  case (Upload l q)
  with assms show ?thesis using upload_as_command [of e l q s w] by blast
next
  case (New_Folder p)
  then show ?thesis using assms(1,2)
    by (auto simp: mkdir_body_def cmd_mkdir_def change_volume_def on_volume_def env_of_def upload_session_def Let_def)
next
  case (Delete p b)
  then have "perform e (as_command c) s w = on_volume s w (finish_command (client_env (cl_session e) (ss_name s)) (ss_sync s)
      (ss_state s) (delete_one (gui_env (cl_session e) s) (cl_depth e) (vpath (Some p)) b (session_volume s)))"
    by (simp add: cmd_rm_def delete_one_def env_of_def)
  with assms(1,2) Delete show ?thesis
    by (auto simp: change_as_command remove_body_def not_found_or_io_def split: prod.splits sum.splits if_splits)
next
  case (Rename a b)
  then have "perform e (as_command c) s w = on_volume s w (finish_command (client_env (cl_session e) (ss_name s)) (ss_sync s)
      (ss_state s) (if file_exists (vpath (Some a)) (session_volume s)
        then move_file (vpath (Some a)) (vpath (Some b)) (session_volume s)
        else move_directory (je (gui_env (cl_session e) s)) (vpath (Some a)) (vpath (Some b)) (session_volume s)))"
    by (simp add: cmd_mv_def env_of_def)
  with assms(1,2) Rename show ?thesis
    by (auto simp: change_as_command move_body_def not_found_or_io_def split: prod.splits sum.splits if_splits)
next
  case (Duplicate a b)
  then have "perform e (as_command c) s w = on_volume s w (finish_command (client_env (cl_session e) (ss_name s)) (ss_sync s)
      (ss_state s) (copy_file (je (gui_env (cl_session e) s)) (vpath (Some a)) (vpath (Some b)) (session_volume s)))"
    by (simp add: cmd_cp_def env_of_def)
  with assms(1,2) Duplicate show ?thesis
    by (auto simp: change_as_command copy_body_def not_found_or_io_def split: prod.splits sum.splits if_splits)
qed

section \<open>Counting copies\<close>

definition count_copies :: "rep_env \<Rightarrow> manager \<Rightarrow> string \<Rightarrow> string list \<Rightarrow> (string \<times> nat \<times> nat \<times> nat) list" where
  "count_copies e m base ns =
     List.map_filter (\<lambda>n. case replication_health e m (join_name base n) of
         Inl x \<Rightarrow> None
       | Inr h \<Rightarrow> if 0 < hs_chunks h then Some (n, hs_min_online h, hs_chunks h, rm_min_replicas m) else None) ns"

text \<open>Online holders, chunks and the goal for each file that has copies. Everything that fails
  after the local session is there counts as no result.\<close>

definition replica_counts ::
  "session_env \<Rightarrow> rep_env \<Rightarrow> string \<Rightarrow> string option \<Rightarrow> string list \<Rightarrow> gui \<Rightarrow>
     (string \<times> nat \<times> nat \<times> nat) list result \<times> gui" where
  "replica_counts env e path vp ns g =
     (if ns = [] then (Inr [], g)
      else (case load_dict path (g_disk g) of
          Inl x \<Rightarrow> (Inl x, g)
        | Inr config \<Rightarrow>
            if \<not> server_url_set config then (Inr [], g)
            else (case offline_session env path g of
                (Inl x, g1) \<Rightarrow> (Inl x, g1)
              | (Inr s, g1) \<Rightarrow>
                  if isl (str_item ''metadata_db'' config) \<or> \<not> is_str (server_url config) then (Inr [], g1)
                  else (case sign_in env (acquire Auth_Http (g_proc g1)) of
                      (Inl x, a, w) \<Rightarrow> (Inr [], g1\<lparr>g_proc := w\<rparr>)
                    | (Inr ok, a, w) \<Rightarrow>
                        if \<not> ok then (Inr [], g1\<lparr>g_proc := release Auth_Http w\<rparr>)
                        else (Inr (count_copies e \<lparr>rm_chunk_size = Chunker.DEFAULT_CHUNK_SIZE, rm_min_replicas = DEFAULT_MIN_REPLICAS,
                                rm_self = dev (session_volume s)\<rparr> (vpath vp) ns),
                              g1\<lparr>g_proc := release Auth_Http (release Replication_Http (acquire Replication_Http w))\<rparr>)))))"

section \<open>Signing in and out\<close>

text \<open>Unlike the command, the interface closes the client also if the login is refused with
  another error.\<close>

definition gui_login ::
  "auth_env \<Rightarrow> string \<Rightarrow> string \<Rightarrow> string \<Rightarrow> string option \<Rightarrow> gui \<Rightarrow> unit result \<times> gui" where
  "gui_login e path mail password key_password g =
     (case load_dict path (g_disk g) of
       Inl x \<Rightarrow> (Inl x, g)
     | Inr config \<Rightarrow>
         if \<not> server_url_set config then (Inl RuntimeError, g)
         else (case str_item ''metadata_db'' config of
             Inl x \<Rightarrow> (Inl x, g)
           | Inr _ \<Rightarrow>
               if \<not> is_str (server_url config) then (Inl AttributeError, g)
               else (let w = acquire Auth_Http (g_proc g);
                         (r, a, f) = login e mail password (auth_init True) (pr_cred w);
                         f1 = (if \<not> isl r \<and> truthy key_password then snd (set_key_password key_password a f) else f)
                 in (r, g\<lparr>g_proc := release Auth_Http (w\<lparr>pr_cred := f1\<rparr>)\<rparr>))))"

definition gui_logout :: "string \<Rightarrow> gui \<Rightarrow> unit result \<times> gui" where
  "gui_logout path g =
     (case cmd_logout path (g_disk g) (g_proc g) of
       (Inl x, w) \<Rightarrow> (Inl x, g\<lparr>g_proc := w\<rparr>) | (Inr n, w) \<Rightarrow> (Inr (), g\<lparr>g_proc := w\<rparr>))"

definition is_logged_in :: "string \<Rightarrow> gui \<Rightarrow> bool result" where
  "is_logged_in path g =
     (case load_dict path (g_disk g) of
       Inl x \<Rightarrow> Inl x
     | Inr config \<Rightarrow>
         (case str_item ''metadata_db'' config of Inl x \<Rightarrow> Inl x | Inr _ \<Rightarrow> Inr (pr_cred (g_proc g) \<noteq> CredAbsent)))"

section \<open>The daemon\<close>

text \<open>The control files of the daemon of a database.\<close>

definition with_daemon :: "string \<Rightarrow> disk \<Rightarrow> (string \<Rightarrow> 'a) \<Rightarrow> 'a result" where
  "with_daemon path d f =
     (case load_dict path d of
       Inl x \<Rightarrow> Inl x
     | Inr config \<Rightarrow> (case str_item ''metadata_db'' config of Inl x \<Rightarrow> Inl x | Inr db \<Rightarrow> Inr (f db)))"

definition gui_daemon_status :: "string \<Rightarrow> disk \<Rightarrow> (string \<Rightarrow> Daemon.world) \<Rightarrow> daemon_status result" where
  "gui_daemon_status path d worlds = with_daemon path d (\<lambda>db. read_status (worlds db))"

definition gui_daemon_stop ::
  "string \<Rightarrow> disk \<Rightarrow> (string \<Rightarrow> time \<Rightarrow> bool) \<Rightarrow> (string \<Rightarrow> Daemon.world) \<Rightarrow> (stop_result \<times> (string \<Rightarrow> Daemon.world)) result" where
  "gui_daemon_stop path d gone worlds =
     with_daemon path d (\<lambda>db. let (r, w) = request_stop (gone db) (worlds db) in (r, worlds(db := w)))"

definition gui_daemon_signal ::
  "string \<Rightarrow> disk \<Rightarrow> (string \<Rightarrow> Daemon.world) \<Rightarrow> (bool \<times> (string \<Rightarrow> Daemon.world)) result" where
  "gui_daemon_signal path d worlds = with_daemon path d (\<lambda>db. let (r, w) = signal_stop (worlds db) in (r, worlds(db := w)))"

text \<open>The command line of the process that is started, its working directory and its log file;
  \<open>popen\<close> is what starting it returns.\<close>

definition daemon_command :: "bool \<Rightarrow> string \<Rightarrow> string \<Rightarrow> string \<Rightarrow> string list \<times> string option" where
  "daemon_command frozen exe repo path =
     (if frozen then ([exe, ''daemon'', ''--config'', path], None)
      else ([exe, ''stardustfs.py'', ''daemon'', ''--config'', path], Some repo))"

definition gui_daemon_start ::
  "bool \<Rightarrow> string \<Rightarrow> string \<Rightarrow> (string \<Rightarrow> unit result) \<Rightarrow> (string list \<times> string option \<Rightarrow> string \<Rightarrow> int result) \<Rightarrow>
     string \<Rightarrow> disk \<Rightarrow> int result" where
  "gui_daemon_start frozen exe cwd open_log popen path d =
     (case with_daemon path d (\<lambda>db. db @ ''.daemon.log'') of
       Inl x \<Rightarrow> Inl x
     | Inr lg \<Rightarrow> (case open_log lg of Inl x \<Rightarrow> Inl x | Inr _ \<Rightarrow> popen (daemon_command frozen exe cwd path) lg))"

section \<open>Examples\<close>

definition plain_gui :: gui where
  "plain_gui = \<lparr>g_disk = shell_disk, g_proc = shell_process, g_cache = []\<rparr>"

definition plain_create :: create_env where
  "plain_create = \<lparr>ct_cwd = ''/home'', ct_makedirs = Inr (), ct_key_write = None, ct_random = replicate 32 7, ct_write = Works\<rparr>"

theorem actions_equal_commands_witness:
  "fst (snd (perform shell (as_command (New_Folder ''/n'')) (online_session sample_full) shell_process)) =
   snd (body_of (cl_session shell) (cl_depth shell) (pr_files shell_process) (New_Folder ''/n'') (online_session sample_full))"
  using actions_equal_commands [of shell "New_Folder ''/n''" "online_session sample_full" shell_process,
      OF _ surjective_pairing, of "fst p" "fst (snd p)" "snd (snd p)" for p]
  by (metis change.distinct(1) prod.collapse)

text \<open>
  The last source can be removed, after which the configuration does not pass its own checks and
  the daemon does not start with it.
\<close>

lemma removing_last_source_invalidates:
  "list_sources ''/c'' (snd (remove_source Works ''/c'' ''s'' shell_disk)) = Inr []"
  "validate_sources f (AList.update ''sources'' (JArr []) config) = Inr [(''sources'', NoSources)]"
  by code_simp (simp add: validate_sources_def get_or_def)

text \<open>Editing the sources leaves the cached session: what is shown next is still the capacity of
  the sources before the edit.\<close>

lemma cached_session_survives_edit:
  "map_of (g_cache g) path = Some s \<Longrightarrow> offline_session env path (g\<lparr>g_disk := d\<rparr>) = (Inr s, g\<lparr>g_disk := d\<rparr>)"
  by (simp add: offline_session_def)

text \<open>A refresh token that the server has revoked: all tokens are cleared, but the file stays, so
  that the interface goes on to show the user as logged in and offers no login.\<close>

lemma revoked_user_counts_as_logged_in:
  "let g = plain_gui\<lparr>g_proc := signed_in_process\<rparr>;
       (r, g1) = gui_mkdir (shell_env\<lparr>se_auth := late_auth 401\<rparr>) ''/c'' (Some ''/n'') g
   in r = Inl RuntimeError \<and> is_logged_in ''/c'' g1 = Inr True"
  by code_simp

end
