(* ===== verification/Gui_App.thy ===== *)
theory Gui_App
  imports Gui_Actions
begin

text \<open>
  The desktop interface: \<^verbatim>\<open>stardustlib/gui/worker.py\<close> runs jobs one after the other on a thread and
  hands their results to the main thread, \<^verbatim>\<open>stardustlib/gui/app.py\<close> is the window. The model is a
  machine whose steps are the events of the window (a click with what is entered in its
  dialogs, a timer), a turn of the worker, and the delivery of a result. Widgets are the values
  they show; a message is the key of its text with the values of its fields.
\<close>

section \<open>The worker\<close>

record ('t, 'p) worker =
  wk_tasks :: "'t list"
  wk_results :: "('t \<times> 'p result) list"
  wk_alive :: bool

definition worker_init :: "('t, 'p) worker" where
  "worker_init = \<lparr>wk_tasks = [], wk_results = [], wk_alive = True\<rparr>"

definition submit_task :: "'t \<Rightarrow> ('t, 'p) worker \<Rightarrow> ('t, 'p) worker" where
  "submit_task t w = w\<lparr>wk_tasks := wk_tasks w @ [t]\<rparr>"

text \<open>One turn of \<open>_run\<close>. Every \<open>Exception\<close> becomes a result; \<open>SystemExit\<close> is not one, and ends
  the thread.\<close>

definition work :: "('t \<Rightarrow> 's \<Rightarrow> 'p result \<times> 's) \<Rightarrow> ('t, 'p) worker \<times> 's \<Rightarrow> ('t, 'p) worker \<times> 's" where
  "work run ws =
     (case ws of (w, s) \<Rightarrow>
       if \<not> wk_alive w then (w, s)
       else (case wk_tasks w of
           [] \<Rightarrow> (w, s)
         | t # ts \<Rightarrow>
             (case run t s of
               (r, s1) \<Rightarrow>
                 if r = Inl SystemExit then (w\<lparr>wk_tasks := ts, wk_alive := False\<rparr>, s1)
                 else (w\<lparr>wk_tasks := ts, wk_results := wk_results w @ [(t, r)]\<rparr>, s1))))"

text \<open>One turn of the loop of \<open>poll\<close>: the oldest result is taken from the queue.\<close>

definition take_result :: "('t, 'p) worker \<Rightarrow> ('t \<times> 'p result) option \<times> ('t, 'p) worker" where
  "take_result w =
     (case wk_results w of [] \<Rightarrow> (None, w) | x # xs \<Rightarrow> (Some x, w\<lparr>wk_results := xs\<rparr>))"

text \<open>A history of a worker: tasks submitted, turns of the thread, and results taken.\<close>

datatype 't worker_event = Submit 't | Turn | Take

fun worker_run ::
  "('t \<Rightarrow> 's \<Rightarrow> 'p result \<times> 's) \<Rightarrow> 't worker_event list \<Rightarrow> ('t, 'p) worker \<times> 's \<Rightarrow>
     ('t \<times> 'p result) list \<times> ('t, 'p) worker \<times> 's" where
  "worker_run run [] ws = ([], ws)"
| "worker_run run (Submit t # es) ws = worker_run run es (submit_task t (fst ws), snd ws)"
| "worker_run run (Turn # es) ws = worker_run run es (work run ws)"
| "worker_run run (Take # es) ws =
     (let (x, w) = take_result (fst ws); (xs, q) = worker_run run es (w, snd ws)
      in (case x of None \<Rightarrow> xs | Some y \<Rightarrow> y # xs, q))"

text \<open>Running the tasks one after the other: the results, and the state that is left. The
  sequence stops at a task that ends the thread.\<close>

fun in_sequence :: "('t \<Rightarrow> 's \<Rightarrow> 'p result \<times> 's) \<Rightarrow> 't list \<Rightarrow> 's \<Rightarrow> ('t \<times> 'p result) list" where
  "in_sequence run [] s = []"
| "in_sequence run (t # ts) s =
     (case run t s of (r, s1) \<Rightarrow> if r = Inl SystemExit then [] else (t, r) # in_sequence run ts s1)"

definition submitted :: "'t worker_event list \<Rightarrow> 't list" where
  "submitted es = List.map_filter (\<lambda>e. case e of Submit t \<Rightarrow> Some t | _ \<Rightarrow> None) es"

lemma submitted_simps [simp]:
  "submitted [] = []" "submitted (Submit t # es) = t # submitted es" "submitted (Turn # es) = submitted es"
  "submitted (Take # es) = submitted es"
  by (simp_all add: submitted_def List.map_filter_simps)

text \<open>What is still to come: the results that wait, then those of the tasks that wait.\<close>

definition outlook :: "('t \<Rightarrow> 's \<Rightarrow> 'p result \<times> 's) \<Rightarrow> 't list \<Rightarrow> ('t, 'p) worker \<times> 's \<Rightarrow> ('t \<times> 'p result) list" where
  "outlook run later ws = wk_results (fst ws) @ (if wk_alive (fst ws) then in_sequence run (wk_tasks (fst ws) @ later) (snd ws) else [])"

lemma outlook_work: "outlook run later (work run ws) = outlook run later ws"
  by (cases ws) (auto simp: outlook_def work_def split: list.splits prod.splits)

lemma run_outlook:
  "worker_run run es ws = (taken, q) \<Longrightarrow> prefix taken (outlook run (submitted es) ws) \<and>
    outlook run (submitted es) ws = taken @ outlook run [] q"
proof (induction run es ws arbitrary: taken q rule: worker_run.induct)
  case (2 run t es ws)
  have "outlook run (t # later) ws = outlook run later (submit_task t (fst ws), snd ws)" for later
    by (simp add: outlook_def submit_task_def)
  with 2 show ?case by simp
next
  case (3 run es ws)
  then show ?case by (simp add: outlook_work)
next
  case (4 run es ws)
  obtain x w where t: "take_result (fst ws) = (x, w)" by (metis surj_pair)
  obtain xs q' where r: "worker_run run es (w, snd ws) = (xs, q')" by (metis surj_pair)
  have o: "outlook run later ws = (case x of None \<Rightarrow> [] | Some y \<Rightarrow> [y]) @ outlook run later (w, snd ws)" for later
    using t by (auto simp: outlook_def take_result_def split: list.splits)
  from "4.IH" [OF t [symmetric] refl r] "4.prems" t r o show ?case by (cases x) auto
qed simp_all

text \<open>However the turns of the thread and of the window interleave, the results that the
  window has seen are those of running the tasks one after the other in the order in which they
  were submitted, each task once and with its own result; and when nothing waits, all of them.\<close>

lemma results_in_order:
  assumes "worker_run run es (worker_init, s) = (taken, w, s1)"
  shows "prefix taken (in_sequence run (submitted es) s) \<and>
    (wk_alive w \<and> wk_tasks w = [] \<and> wk_results w = [] \<longrightarrow> taken = in_sequence run (submitted es) s)"
  using run_outlook [OF assms] by (auto simp: outlook_def worker_init_def)

text \<open>A job that exits the process, as building the volume does when something is wrong with the
  configuration, ends the thread silently: nothing that is submitted later is ever run.\<close>

lemma dead_worker_answers_nothing:
  assumes "\<not> wk_alive w" and "worker_run run es (w, s) = (taken, w1, s1)"
  shows "prefix taken (wk_results w) \<and> s1 = s"
proof -
  have "prefix taken (wk_results w)" using run_outlook [OF assms(2)] assms(1) by (auto simp: outlook_def)
  moreover have "\<not> wk_alive (fst ws) \<Longrightarrow> snd (snd (worker_run run es ws)) = snd ws" for ws
    by (induction run es ws rule: worker_run.induct)
      (auto simp: work_def submit_task_def take_result_def Let_def split: list.splits prod.splits)
  ultimately show ?thesis using assms by (metis fst_conv snd_conv)
qed

section \<open>Jobs\<close>

text \<open>A job with what its callback has captured. The first argument is the configuration.\<close>

datatype job =
    J_browse string string bool
  | J_counts string string "string list"
  | J_invalidate "string option"
  | J_status string
  | J_start string
  | J_stop string
  | J_put string string string
  | J_get string string string
  | J_mkdir string string
  | J_remove string "(string \<times> bool) list"
  | J_move string string string
  | J_copy string string string
  | J_devices string
  | J_login string string string "string option"
  | J_logout string
  | J_create string "string option" string bool

datatype payload =
    P_none
  | P_browse browsed
  | P_counts "(string \<times> nat \<times> nat \<times> nat) list"
  | P_status daemon_status
  | P_number int
  | P_devices "(string \<times> string option \<times> bool \<times> bool) list"
  | P_path string

text \<open>
  What the jobs work on: the state of the actions, the databases as they are now with the times
  of their files, and the daemons with those that were started from here. Other processes change
  it as well.
\<close>

record desk =
  dk_gui :: gui
  dk_db :: "string \<Rightarrow> mstore"
  dk_mtime :: "string \<Rightarrow> real option"
  dk_daemons :: "string \<Rightarrow> Daemon.world"
  dk_spawned :: "string list"

record app_env =
  ae_session :: session_env
  ae_jenv :: jenv
  ae_rep :: rep_env
  ae_depth :: nat
  ae_writable :: "string \<Rightarrow> bool"
  ae_create :: create_env
  ae_gone :: "string \<Rightarrow> time \<Rightarrow> bool"
  ae_frozen :: bool
  ae_exe :: string
  ae_repo :: string
  ae_open_log :: "string \<Rightarrow> unit result"
  ae_popen :: "string list \<times> string option \<Rightarrow> string \<Rightarrow> int result"
  ae_str :: "exn \<Rightarrow> string"

definition with_gui :: "('a \<Rightarrow> payload) \<Rightarrow> (gui \<Rightarrow> 'a result \<times> gui) \<Rightarrow> desk \<Rightarrow> payload result \<times> desk" where
  "with_gui p f d = (let (r, g) = f (dk_gui d) in (map_sum id p r, d\<lparr>dk_gui := g\<rparr>))"

abbreviation disk_of :: "desk \<Rightarrow> disk" where
  "disk_of d \<equiv> g_disk (dk_gui d)"

fun run_job :: "app_env \<Rightarrow> job \<Rightarrow> desk \<Rightarrow> payload result \<times> desk" where
  "run_job e (J_browse c vp counts) d = with_gui P_browse (browse (ae_session e) (ae_jenv e) c (Some vp) (dk_db d c)) d"
| "run_job e (J_counts c vp ns) d = with_gui P_counts (replica_counts (ae_session e) (ae_rep e) c (Some vp) ns) d"
| "run_job e (J_invalidate c) d = (Inr P_none, d\<lparr>dk_gui := invalidate c (dk_gui d)\<rparr>)"
| "run_job e (J_status c) d = (map_sum id P_status (gui_daemon_status c (disk_of d) (dk_daemons d)), d)"
| "run_job e (J_start c) d =
     (case gui_daemon_start (ae_frozen e) (ae_exe e) (ae_repo e) (ae_open_log e) (ae_popen e) c (disk_of d) of
       Inl x \<Rightarrow> (Inl x, d) | Inr n \<Rightarrow> (Inr (P_number n), d\<lparr>dk_spawned := c # dk_spawned d\<rparr>))"
| "run_job e (J_stop c) d =
     (case gui_daemon_stop c (disk_of d) (ae_gone e) (dk_daemons d) of
       Inl x \<Rightarrow> (Inl x, d) | Inr (r, ws) \<Rightarrow> (Inr P_none, d\<lparr>dk_daemons := ws\<rparr>))"
| "run_job e (J_put c local remote) d = with_gui (\<lambda>n. P_number (int n)) (put_file (ae_session e) c local (Some remote)) d"
| "run_job e (J_get c remote local) d =
     with_gui (\<lambda>n. P_number (int n)) (get_file (ae_session e) (ae_writable e) c (Some remote) local) d"
| "run_job e (J_mkdir c p) d = with_gui (\<lambda>u. P_none) (gui_mkdir (ae_session e) c (Some p)) d"
| "run_job e (J_remove c items) d =
     with_gui (\<lambda>n. P_number (int n)) (remove_many (ae_session e) (ae_depth e) c (map (\<lambda>(p, r). (Some p, r)) items)) d"
| "run_job e (J_move c src dst) d = with_gui (\<lambda>u. P_none) (gui_move (ae_session e) c (Some src) (Some dst)) d"
| "run_job e (J_copy c src dst) d = with_gui (\<lambda>u. P_none) (gui_copy (ae_session e) c (Some src) (Some dst)) d"
| "run_job e (J_devices c) d = with_gui P_devices (devices_list (ae_session e) c) d"
| "run_job e (J_login c mail pw kp) d = with_gui (\<lambda>u. P_none) (gui_login (se_auth (ae_session e)) c mail pw kp) d"
| "run_job e (J_logout c) d = with_gui (\<lambda>u. P_none) (gui_logout c) d"
| "run_job e (J_create base url name key) d = with_gui P_path (create_config (ae_create e) base url name key 9090) d"

section \<open>The window\<close>

text \<open>A message: the key of its text and the values of its fields.\<close>

type_synonym caption = "string \<times> (string \<times> string) list"

text \<open>
  A line of the list: the row, its size as text, the key of its backup label, and the copies.
  \<open>ap_rows\<close> are the rows the window remembers, \<open>ap_lines\<close> the lines its list shows; the listing
  of the devices has the keys of the two last columns. \<open>ap_ticking\<close> tells whether the timer
  that polls the worker is still armed.
\<close>

type_synonym shown_line = "file_line \<times> string \<times> string \<times> (nat \<times> nat) option"

record app =
  ap_config :: "string option"
  ap_vpath :: string
  ap_path :: string
  ap_rows :: "file_line list"
  ap_lines :: "shown_line list"
  ap_status :: caption
  ap_daemon :: caption
  ap_dialogs :: "caption list"
  ap_devices :: "(string \<times> string option \<times> string \<times> string) list"
  ap_started :: bool
  ap_seen :: real
  ap_lang :: string
  ap_login :: bool
  ap_logout :: bool
  ap_start :: bool
  ap_stop :: bool
  ap_ticking :: bool
  ap_timers :: nat
  ap_visible :: bool
  ap_open :: bool
  ap_tray :: bool
  ap_worker :: "(job, payload) worker"
  ap_desk :: desk

definition set_status :: "string \<Rightarrow> (string \<times> string) list \<Rightarrow> app \<Rightarrow> app" where
  "set_status k fs u = u\<lparr>ap_status := (k, fs)\<rparr>"

definition dialog :: "string \<Rightarrow> app \<Rightarrow> app" where
  "dialog k u = u\<lparr>ap_dialogs := (k, []) # ap_dialogs u\<rparr>"

definition submit_job :: "job \<Rightarrow> app \<Rightarrow> app" where
  "submit_job j u = u\<lparr>ap_worker := submit_task j (ap_worker u)\<rparr>"

text \<open>\<open>_submit\<close>: \<open>j\<close> is given the configuration, \<open>busy\<close> is shown until the result arrives.\<close>

definition submit_busy :: "(string \<Rightarrow> job) \<Rightarrow> caption \<Rightarrow> app \<Rightarrow> app" where
  "submit_busy j busy u =
     (if \<not> truthy (ap_config u) then dialog ''need_config'' u
      else submit_job (j (the (ap_config u))) (set_status (fst busy) (snd busy) u))"

definition backup_label :: "string \<Rightarrow> string" where
  "backup_label status =
     (if status = ''replicated'' then ''bk_done'' else if status = ''pending'' then ''bk_pending'' else ''bk_none'')"

definition shown_as :: "file_line \<Rightarrow> shown_line" where
  "shown_as r = (if fl_dir r then (r, [], [], None) else (r, human (fl_size r), backup_label (fl_backup r), None))"

definition populate :: "file_line list \<Rightarrow> app \<Rightarrow> app" where
  "populate rows u = u\<lparr>ap_rows := rows, ap_lines := map shown_as rows\<rparr>"

definition app_logged_in :: "app \<Rightarrow> bool" where
  "app_logged_in u \<longleftrightarrow> truthy (ap_config u) \<and> is_logged_in (the (ap_config u)) (dk_gui (ap_desk u)) = Inr True"

definition refresh_login_state :: "app \<Rightarrow> app" where
  "refresh_login_state u =
     (if \<not> truthy (ap_config u) then u\<lparr>ap_login := False, ap_logout := False\<rparr>
      else (case is_logged_in (the (ap_config u)) (dk_gui (ap_desk u)) of
          Inl x \<Rightarrow> u\<lparr>ap_login := False, ap_logout := False\<rparr>
        | Inr b \<Rightarrow> u\<lparr>ap_login := \<not> b, ap_logout := b\<rparr>))"

definition set_daemon_buttons :: "bool option \<Rightarrow> app \<Rightarrow> app" where
  "set_daemon_buttons r u =
     (case r of
       None \<Rightarrow> u\<lparr>ap_start := False, ap_stop := False\<rparr>
     | Some b \<Rightarrow> u\<lparr>ap_start := \<not> b, ap_stop := b\<rparr>)"

definition refresh_view :: "bool \<Rightarrow> app \<Rightarrow> app" where
  "refresh_view counts u =
     (let vp = (if ap_path u \<noteq> [] then ap_path u else ''/''); u1 = u\<lparr>ap_vpath := vp\<rparr>
      in if \<not> truthy (ap_config u1) then set_status ''select_config_hint'' [] (populate [] u1)
         else if \<not> app_logged_in u1 then set_status ''login_required'' [] (populate [] u1)
         else submit_busy (\<lambda>c. J_browse c vp counts) (''busy_browse'', []) u1)"

definition seen_now :: "app \<Rightarrow> real result" where
  "seen_now u = metadata_mtime (the (ap_config u)) (disk_of (ap_desk u)) (dk_mtime (ap_desk u))"

definition mark_meta_seen :: "app \<Rightarrow> app" where
  "mark_meta_seen u =
     (if \<not> truthy (ap_config u) then u
      else (case seen_now u of Inl x \<Rightarrow> u | Inr m \<Rightarrow> u\<lparr>ap_seen := m\<rparr>))"

definition show_browse :: "bool \<Rightarrow> browsed \<Rightarrow> app \<Rightarrow> app" where
  "show_browse counts b u =
     (let u1 = mark_meta_seen (set_status ''cap''
            [(''used'', human (br_used b)), (''total'', human (br_total b)), (''avail'', human (br_available b)),
             (''pending'', show_nat (br_pending b))] (populate (br_rows b) u));
          ns = map fl_name (filter (\<lambda>r. \<not> fl_dir r \<and> fl_backup r \<in> {''pending'', ''replicated''}) (br_rows b))
      in if counts \<and> ns \<noteq> [] \<and> app_logged_in u1
         then submit_job (J_counts (the (ap_config u1)) (ap_vpath u1) ns) u1 else u1)"

text \<open>Setting a column of a line that the list does not have raises an error of the toolkit; it ends the
  call of the timer before that is armed again.\<close>

definition apply_counts :: "string \<Rightarrow> (string \<times> nat \<times> nat \<times> nat) list \<Rightarrow> app \<Rightarrow> app" where
  "apply_counts vp counts u =
     (if vp \<noteq> ap_vpath u \<or> counts = [] then u
      else if ap_lines u = [] \<and> (\<exists>r \<in> set (ap_rows u). \<not> fl_dir r \<and> map_of counts (fl_name r) \<noteq> None)
        then u\<lparr>ap_ticking := False\<rparr>
      else u\<lparr>ap_lines := map (\<lambda>(r, size_text, label, n).
          (r, size_text, label, if fl_dir r then n
             else (case map_of counts (fl_name r) of None \<Rightarrow> n | Some (up, chunks, goal) \<Rightarrow> Some (up, goal))))
        (ap_lines u)\<rparr>)"

definition after_write :: "app \<Rightarrow> app" where
  "after_write u =
     refresh_view True (if truthy (ap_config u) then submit_job (J_invalidate (ap_config u)) u else u)"

definition start_daemon :: "app \<Rightarrow> app" where
  "start_daemon = submit_busy J_start (''daemon_start_busy'', [])"

definition show_pid :: "int option \<Rightarrow> string" where
  "show_pid p = (case p of None \<Rightarrow> ''None'' | Some n \<Rightarrow> show_int n)"

definition on_daemon :: "payload result \<Rightarrow> app \<Rightarrow> app" where
  "on_daemon r u =
     (case r of
       Inr (P_status st) \<Rightarrow>
         if running st then
           set_daemon_buttons (Some True) (u\<lparr>ap_daemon := (''daemon_running'', [(''pid'', show_pid (status_pid st))])\<rparr>)
         else if stale st then set_daemon_buttons (Some False) (u\<lparr>ap_daemon := (''daemon_stale'', [])\<rparr>)
         else (let u1 = set_daemon_buttons (Some False) (u\<lparr>ap_daemon := (''daemon_stopped'', [])\<rparr>)
           in if truthy (ap_config u1) \<and> \<not> ap_started u1
              then start_daemon (set_status ''daemon_starting'' [] (u1\<lparr>ap_started := True\<rparr>)) else u1)
     | _ \<Rightarrow> set_daemon_buttons None (u\<lparr>ap_daemon := (''daemon_unknown'', [])\<rparr>))"

text \<open>\<open>_refresh_daemon\<close> asks for the status and arms a timer for its next call.\<close>

definition refresh_daemon :: "app \<Rightarrow> app" where
  "refresh_daemon u =
     (let u1 = (if truthy (ap_config u) then submit_job (J_status (the (ap_config u))) u else u)
      in u1\<lparr>ap_timers := Suc (ap_timers u1)\<rparr>)"

definition take_config :: "string \<Rightarrow> app \<Rightarrow> app" where
  "take_config path u =
     refresh_login_state (refresh_daemon (refresh_view True (submit_job (J_invalidate None)
       (u\<lparr>ap_config := Some path, ap_vpath := ''/'', ap_path := ''/'', ap_started := False\<rparr>))))"

text \<open>The new widgets of \<open>_build_body\<close>: an empty list, no status, and the buttons of both pairs.\<close>

definition build_body :: "app \<Rightarrow> app" where
  "build_body u =
     set_daemon_buttons None (refresh_login_state
       (u\<lparr>ap_path := ap_vpath u, ap_lines := [], ap_status := ([], []), ap_daemon := (''daemon_unknown'', [])\<rparr>))"

section \<open>Results\<close>

definition show_devices :: "(string \<times> string option \<times> bool \<times> bool) list \<Rightarrow> app \<Rightarrow> app" where
  "show_devices ds u =
     dialog ''devices_title'' (u\<lparr>ap_devices := map (\<lambda>(sid, nm, on, self).
       (sid, nm, if on then ''online'' else ''offline'', if self then ''this_device'' else [])) ds\<rparr>)"

definition after_login :: "string \<Rightarrow> app \<Rightarrow> app" where
  "after_login mail u = refresh_view True (refresh_login_state (set_status ''login_ok'' [(''email'', mail)] u))"

definition after_logout :: "app \<Rightarrow> app" where
  "after_logout u = refresh_view True (refresh_login_state (set_status ''logout_ok'' [] u))"

definition config_made :: "payload result \<Rightarrow> app \<Rightarrow> app" where
  "config_made r u = (case r of
     Inr (P_path path) \<Rightarrow> dialog ''new_config'' (take_config path u) | _ \<Rightarrow> dialog ''err'' u)"

fun on_ok :: "app_env \<Rightarrow> job \<Rightarrow> payload \<Rightarrow> app \<Rightarrow> app" where
  "on_ok e (J_browse c vp counts) p u = (case p of P_browse b \<Rightarrow> show_browse counts b u | _ \<Rightarrow> u)"
| "on_ok e (J_put c l r) p u = after_write u"
| "on_ok e (J_mkdir c q) p u = after_write u"
| "on_ok e (J_remove c items) p u = after_write u"
| "on_ok e (J_move c a b) p u = after_write u"
| "on_ok e (J_copy c a b) p u = after_write u"
| "on_ok e (J_get c r l) p u = (case p of
     P_number n \<Rightarrow> set_status ''download_done'' [(''path'', l), (''size'', human n)] u | _ \<Rightarrow> u)"
| "on_ok e (J_start c) p u = (case p of P_number n \<Rightarrow> set_status ''daemon_started'' [(''pid'', show_pid (Some n))] u | _ \<Rightarrow> u)"
| "on_ok e (J_stop c) p u = set_status ''daemon_stop_req'' [] u"
| "on_ok e (J_devices c) p u = (case p of P_devices ds \<Rightarrow> show_devices ds u | _ \<Rightarrow> u)"
| "on_ok e (J_login c mail pw kp) p u = after_login mail u"
| "on_ok e (J_logout c) p u = after_logout u"
| "on_ok e _ p u = u"

text \<open>\<open>done\<close> of \<open>_submit\<close>.\<close>

definition finish_busy :: "app_env \<Rightarrow> job \<Rightarrow> payload result \<Rightarrow> app \<Rightarrow> app" where
  "finish_busy e j r u =
     (case r of
       Inr p \<Rightarrow> on_ok e j p (set_status ''ready'' [] u)
     | Inl x \<Rightarrow> dialog ''err'' (set_status ''err_status'' [(''msg'', ae_str e x)] u))"

fun callback :: "app_env \<Rightarrow> job \<Rightarrow> payload result \<Rightarrow> app \<Rightarrow> app" where
  "callback e (J_counts c vp ns) r u = (case r of Inr (P_counts cs) \<Rightarrow> apply_counts vp cs u | _ \<Rightarrow> u)"
| "callback e (J_invalidate c) r u = u"
| "callback e (J_status c) r u = on_daemon r u"
| "callback e (J_create base url name key) r u = config_made r u"
| "callback e j r u = finish_busy e j r u"

section \<open>Events\<close>

text \<open>
  What can happen: the worker takes a turn, a result is delivered, a timer fires, the user acts
  (with the entries of the dialogs; a dialog that is cancelled is no event), another process
  changes what the jobs work on. Rows are selected by their place in the list.
\<close>

datatype ui_event =
    Work_Turn
  | Deliver
  | Daemon_Timer
  | Meta_Timer
  | Hint_Timer
  | New_Config string string string bool
  | Choose_Config string
  | Type_Path string
  | Refresh
  | Go_Up
  | Double_Click nat
  | Do_Upload string
  | Do_Download nat string
  | Do_Mkdir string
  | Do_Delete "nat list"
  | Do_Move nat string
  | Do_Copy nat string
  | Devices_Clicked
  | Login_Clicked string string "string option"
  | Logout_Clicked
  | Start_Clicked
  | Stop_Clicked
  | Sources_Clicked
  | Add_Directory string string
  | Add_Loopback string string int
  | Remove_Source string
  | Language string
  | Close_Window
  | Tray_Open
  | Quit
  | World desk

definition row_at :: "app \<Rightarrow> nat \<Rightarrow> file_line option" where
  "row_at u i = (if i < length (ap_lines u) then Some (fst (ap_lines u ! i)) else None)"

definition app_join :: "app \<Rightarrow> string \<Rightarrow> string" where
  "app_join u nm = join_name (ap_vpath u) nm"

definition parent_path :: "string \<Rightarrow> string" where
  "parent_path vp =
     (let s = rstrip CHR ''/'' vp; i = rfind CHR ''/'' s; p = (if i < 0 then s else take (nat i) s)
      in if p = [] then ''/'' else p)"

definition deliver :: "app_env \<Rightarrow> app \<Rightarrow> app" where
  "deliver e u =
     (if \<not> ap_ticking u then u
      else (case take_result (ap_worker u) of
        (None, w) \<Rightarrow> u | (Some (j, r), w) \<Rightarrow> callback e j r (u\<lparr>ap_worker := w\<rparr>)))"

definition poll_meta :: "app \<Rightarrow> app" where
  "poll_meta u =
     (if app_logged_in u then
        (case seen_now u of
          Inl x \<Rightarrow> u
        | Inr m \<Rightarrow> if ap_seen u < m then refresh_view False (u\<lparr>ap_seen := m\<rparr>) else u)
      else u)"

text \<open>The jobs of the buttons.\<close>

definition upload :: "string \<Rightarrow> app \<Rightarrow> app" where
  "upload local u =
     (if local = [] then u
      else submit_busy (\<lambda>c. J_put c local (app_join u (basename local))) (''uploading'', [(''name'', basename local)]) u)"

definition download :: "nat \<Rightarrow> string \<Rightarrow> app \<Rightarrow> app" where
  "download i local u =
     (case row_at u i of
       None \<Rightarrow> dialog ''download_pick'' u
     | Some r \<Rightarrow>
         if fl_dir r then dialog ''download_pick'' u
         else if local = [] then u
         else submit_busy (\<lambda>c. J_get c (app_join u (fl_name r)) local) (''downloading'', [(''name'', fl_name r)]) u)"

definition delete_rows :: "nat list \<Rightarrow> app \<Rightarrow> app" where
  "delete_rows is u =
     (let rows = List.map_filter (row_at u) is in
      if rows = [] then u
      else submit_busy (\<lambda>c. J_remove c (map (\<lambda>r. (app_join u (fl_name r), fl_dir r)) rows)) (''delete_busy'', []) u)"

definition move_row :: "nat \<Rightarrow> string \<Rightarrow> app \<Rightarrow> app" where
  "move_row i dst u =
     (case row_at u i of
       None \<Rightarrow> u
     | Some r \<Rightarrow> if dst = [] \<or> dst = app_join u (fl_name r) then u
         else submit_busy (\<lambda>c. J_move c (app_join u (fl_name r)) dst) (''move_busy'', []) u)"

definition copy_row :: "nat \<Rightarrow> string \<Rightarrow> app \<Rightarrow> app" where
  "copy_row i dst u =
     (case row_at u i of
       None \<Rightarrow> dialog ''copy_pick'' u
     | Some r \<Rightarrow> if fl_dir r then dialog ''copy_pick'' u
         else if dst = [] then u
         else submit_busy (\<lambda>c. J_copy c (app_join u (fl_name r)) dst) (''copy_busy'', []) u)"

definition make_dir :: "string \<Rightarrow> app \<Rightarrow> app" where
  "make_dir nm u = (if nm = [] then u else submit_busy (\<lambda>c. J_mkdir c (app_join u nm)) (''mkdir_busy'', []) u)"

definition go_up :: "app \<Rightarrow> app" where
  "go_up u = refresh_view True (u\<lparr>ap_path := parent_path (ap_vpath u)\<rparr>)"

definition on_double :: "nat \<Rightarrow> app \<Rightarrow> app" where
  "on_double i u =
     (case row_at u i of
       None \<Rightarrow> u | Some r \<Rightarrow> if fl_dir r then refresh_view True (u\<lparr>ap_path := app_join u (fl_name r)\<rparr>) else u)"

definition ask_devices :: "app \<Rightarrow> app" where
  "ask_devices = submit_busy J_devices (''devices_busy'', [])"

definition ask_login :: "string \<Rightarrow> string \<Rightarrow> string option \<Rightarrow> app \<Rightarrow> app" where
  "ask_login mail pw kp u =
     (if \<not> truthy (ap_config u) then dialog ''need_config'' u
      else if mail = [] then u
      else submit_busy (\<lambda>c. J_login c mail pw (if truthy kp then kp else None)) (''login_busy'', []) u)"

definition ask_logout :: "app \<Rightarrow> app" where
  "ask_logout = submit_busy J_logout (''logout_busy'', [])"

definition stop_daemon :: "app \<Rightarrow> app" where
  "stop_daemon = submit_busy J_stop (''daemon_stop_busy'', [])"

text \<open>The dialogs of a new configuration: an empty name is as good as none.\<close>

definition new_config :: "string \<Rightarrow> string \<Rightarrow> string \<Rightarrow> bool \<Rightarrow> app \<Rightarrow> app" where
  "new_config base url name key u =
     (if base = [] \<or> name = [] then u
      else submit_job (J_create base (if py_strip url = [] then None else Some (py_strip url)) (py_strip name) key)
        (set_status ''nc_busy'' [] u))"

definition choose_config :: "string \<Rightarrow> app \<Rightarrow> app" where
  "choose_config path u = (if path = [] then u else take_config path u)"

text \<open>
  The window of the sources edits the configuration on the main thread. \<open>hex\<close> is the random part
  of the id; a size is given in megabytes. An error of adding is shown, one of removing or of
  reading the list again only ends the call. The sizes in the list are taken to be integers.
\<close>

definition open_sources :: "app \<Rightarrow> app" where
  "open_sources u = (if truthy (ap_config u) then dialog ''sources_title'' u else dialog ''need_config'' u)"

definition set_disk :: "disk \<Rightarrow> app \<Rightarrow> app" where
  "set_disk d u = u\<lparr>ap_desk := (ap_desk u)\<lparr>dk_gui := (dk_gui (ap_desk u))\<lparr>g_disk := d\<rparr>\<rparr>\<rparr>"

definition reload :: "app \<Rightarrow> bool" where
  "reload u =
     (case list_sources (the (ap_config u)) (disk_of (ap_desk u)) of
       Inl x \<Rightarrow> False | Inr xs \<Rightarrow> list_all (\<lambda>s. as_obj s \<noteq> None) xs)"

definition edit_sources :: "bool \<Rightarrow> (disk \<Rightarrow> 'a result \<times> disk) \<Rightarrow> app \<Rightarrow> app" where
  "edit_sources tell f u =
     (case f (disk_of (ap_desk u)) of
       (Inl x, d) \<Rightarrow> if tell then dialog ''err'' (set_disk d u) else set_disk d u
     | (Inr v, d) \<Rightarrow> if reload (set_disk d u) then refresh_view True (set_disk d u) else set_disk d u)"

definition add_dir :: "app_env \<Rightarrow> string \<Rightarrow> string \<Rightarrow> app \<Rightarrow> app" where
  "add_dir e hex path u =
     (if path = [] then u
      else edit_sources True (gui_add_source (ct_cwd (ae_create e)) hex Works (the (ap_config u)) ''directory'' path None) u)"

definition add_loop :: "app_env \<Rightarrow> string \<Rightarrow> string \<Rightarrow> int \<Rightarrow> app \<Rightarrow> app" where
  "add_loop e hex path mb u =
     (if path = [] \<or> mb = 0 then u
      else edit_sources True (gui_add_source (ct_cwd (ae_create e)) hex Works (the (ap_config u)) ''loopback'' path
        (Some (mb * 1024 * 1024))) u)"

definition drop_source :: "string \<Rightarrow> app \<Rightarrow> app" where
  "drop_source sid u = edit_sources False (remove_source Works (the (ap_config u)) sid) u"

definition set_language :: "string \<Rightarrow> app \<Rightarrow> app" where
  "set_language lang u =
     (if lang = ap_lang u then u
      else (let u1 = build_body (u\<lparr>ap_lang := lang\<rparr>)
        in if truthy (ap_config u1) then refresh_view True u1 else set_status ''select_config_hint'' [] u1))"

definition quit_app :: "app \<Rightarrow> app" where
  "quit_app u =
     (let u1 = (if truthy (ap_config u) then
            (case gui_daemon_signal (the (ap_config u)) (disk_of (ap_desk u)) (dk_daemons (ap_desk u)) of
              Inl x \<Rightarrow> u | Inr (b, ws) \<Rightarrow> u\<lparr>ap_desk := (ap_desk u)\<lparr>dk_daemons := ws\<rparr>\<rparr>)
          else u)
      in u1\<lparr>ap_open := False\<rparr>)"

definition hide_window :: "app \<Rightarrow> app" where
  "hide_window u = set_status ''tray_minimised'' [] (u\<lparr>ap_visible := False\<rparr>)"

text \<open>What closing the window does, and the hint that is shown once if there is no tray.\<close>

definition close_window :: "app \<Rightarrow> app" where
  "close_window u = (if ap_tray u then hide_window u else quit_app u)"

definition tray_hint :: "app \<Rightarrow> app" where
  "tray_hint u = (if ap_tray u then u else set_status ''tray_disabled_hint'' [] u)"

fun handle_event :: "app_env \<Rightarrow> ui_event \<Rightarrow> app \<Rightarrow> app" where
  "handle_event e Work_Turn u = (let (w, d) = work (run_job e) (ap_worker u, ap_desk u) in u\<lparr>ap_worker := w, ap_desk := d\<rparr>)"
| "handle_event e Deliver u = deliver e u"
| "handle_event e Daemon_Timer u =
     (if ap_timers u = 0 then u else refresh_daemon (u\<lparr>ap_timers := ap_timers u - 1\<rparr>))"
| "handle_event e Meta_Timer u = poll_meta u"
| "handle_event e Hint_Timer u = tray_hint u"
| "handle_event e (New_Config base url name key) u = new_config base url name key u"
| "handle_event e (Choose_Config path) u = choose_config path u"
| "handle_event e (Type_Path p) u = u\<lparr>ap_path := p\<rparr>"
| "handle_event e Refresh u = refresh_view True u"
| "handle_event e Go_Up u = go_up u"
| "handle_event e (Double_Click i) u = on_double i u"
| "handle_event e (Do_Upload local) u = upload local u"
| "handle_event e (Do_Download i local) u = download i local u"
| "handle_event e (Do_Mkdir nm) u = make_dir nm u"
| "handle_event e (Do_Delete is) u = delete_rows is u"
| "handle_event e (Do_Move i dst) u = move_row i dst u"
| "handle_event e (Do_Copy i dst) u = copy_row i dst u"
| "handle_event e Devices_Clicked u = ask_devices u"
| "handle_event e (Login_Clicked mail pw kp) u = ask_login mail pw kp u"
| "handle_event e Logout_Clicked u = ask_logout u"
| "handle_event e Start_Clicked u = start_daemon u"
| "handle_event e Stop_Clicked u = stop_daemon u"
| "handle_event e Sources_Clicked u = open_sources u"
| "handle_event e (Add_Directory hex path) u = add_dir e hex path u"
| "handle_event e (Add_Loopback hex path mb) u = add_loop e hex path mb u"
| "handle_event e (Remove_Source sid) u = drop_source sid u"
| "handle_event e (Language lang) u = set_language lang u"
| "handle_event e Close_Window u = close_window u"
| "handle_event e Tray_Open u = u\<lparr>ap_visible := True\<rparr>"
| "handle_event e Quit u = quit_app u"
| "handle_event e (World d) u = u\<lparr>ap_desk := d\<rparr>"

lemmas handler_defs = new_config_def choose_config_def go_up_def on_double_def make_dir_def ask_devices_def ask_login_def
  ask_logout_def stop_daemon_def open_sources_def add_dir_def add_loop_def drop_source_def hide_window_def close_window_def
  tray_hint_def after_login_def after_logout_def config_made_def show_devices_def

text \<open>The window at the start, with the timer of the first \<open>_refresh_daemon\<close>.\<close>

definition app_init :: "string option \<Rightarrow> string \<Rightarrow> bool \<Rightarrow> desk \<Rightarrow> app" where
  "app_init config lang tray d =
     (let u = build_body
          \<lparr>ap_config = config, ap_vpath = ''/'', ap_path = [], ap_rows = [], ap_lines = [], ap_status = ([], []),
            ap_daemon = ([], []), ap_dialogs = [], ap_devices = [], ap_started = False, ap_seen = 0, ap_lang = lang,
            ap_login = False, ap_logout = False, ap_start = False, ap_stop = False, ap_ticking = True, ap_timers = 1,
            ap_visible = True, ap_open = True, ap_tray = tray, ap_worker = worker_init, ap_desk = d\<rparr>
      in if truthy config then refresh_view True u else set_status ''select_config_hint'' [] u)"

text \<open>What may happen in a state: the buttons that are off are not clicked, the window of the sources
  needs a configuration, and other processes start no daemon from here.\<close>

definition enabled :: "ui_event \<Rightarrow> app \<Rightarrow> bool" where
  "enabled ev u \<longleftrightarrow> ap_open u \<and> (case ev of
     Login_Clicked m p k \<Rightarrow> ap_login u
   | Logout_Clicked \<Rightarrow> ap_logout u
   | Start_Clicked \<Rightarrow> ap_start u
   | Stop_Clicked \<Rightarrow> ap_stop u
   | Add_Directory h p \<Rightarrow> truthy (ap_config u)
   | Add_Loopback h p m \<Rightarrow> truthy (ap_config u)
   | Remove_Source i \<Rightarrow> truthy (ap_config u)
   | Language l \<Rightarrow> l \<in> {''ko'', ''en''}
   | World d \<Rightarrow> dk_spawned d = dk_spawned (ap_desk u)
   | _ \<Rightarrow> True)"

inductive app_step :: "app_env \<Rightarrow> ui_event \<Rightarrow> app \<Rightarrow> app \<Rightarrow> bool" for e where
  event: "enabled ev u \<Longrightarrow> app_step e ev u (handle_event e ev u)"

inductive app_run :: "app_env \<Rightarrow> app \<Rightarrow> ui_event list \<Rightarrow> app \<Rightarrow> bool" for e u0 where
  start: "app_run e u0 [] u0"
| continue: "app_run e u0 evs u \<Longrightarrow> app_step e ev u v \<Longrightarrow> app_run e u0 (evs @ [ev]) v"

inductive_cases app_stepE: "app_step e ev u v"

section \<open>Starting the daemon\<close>

text \<open>The daemons that were started, and the starts that can still happen on their own: queued
  ones, one for a configuration not yet seen stopped, one for each configuration being made.\<close>

fun job_weight :: "job \<Rightarrow> nat" where
  "job_weight (J_start c) = 1"
| "job_weight (J_create b u n k) = 1"
| "job_weight _ = 0"

fun result_weight :: "job \<times> payload result \<Rightarrow> nat" where
  "result_weight (J_create b u n k, r) = 1"
| "result_weight _ = 0"

definition queue_weight :: "(job, payload) worker \<Rightarrow> nat" where
  "queue_weight w = sum_list (map job_weight (wk_tasks w)) + sum_list (map result_weight (wk_results w))"

definition starts_due :: "app \<Rightarrow> nat" where
  "starts_due u = length (dk_spawned (ap_desk u)) + queue_weight (ap_worker u) + (if ap_started u then 0 else 1)"

fun event_weight :: "ui_event \<Rightarrow> nat" where
  "event_weight (New_Config b u n k) = 1"
| "event_weight (Choose_Config p) = 1"
| "event_weight Start_Clicked = 1"
| "event_weight _ = 0"

lemma queue_weight_submit [simp]: "queue_weight (submit_task j w) = queue_weight w + job_weight j"
  by (simp add: queue_weight_def submit_task_def)

lemma due_submit [simp]: "starts_due (submit_job j u) = starts_due u + job_weight j"
  by (simp add: starts_due_def submit_job_def)

lemma due_frames [simp]:
  "starts_due (set_status k fs u) = starts_due u" "starts_due (dialog k u) = starts_due u"
  "starts_due (populate rows u) = starts_due u" "starts_due (mark_meta_seen u) = starts_due u"
  "starts_due (apply_counts vp cs u) = starts_due u" "starts_due (refresh_login_state u) = starts_due u"
  "starts_due (set_daemon_buttons b u) = starts_due u" "starts_due (u\<lparr>ap_vpath := p\<rparr>) = starts_due u"
  "starts_due (u\<lparr>ap_path := p\<rparr>) = starts_due u" "starts_due (u\<lparr>ap_seen := m\<rparr>) = starts_due u"
  "starts_due (u\<lparr>ap_daemon := c\<rparr>) = starts_due u" "starts_due (u\<lparr>ap_timers := t\<rparr>) = starts_due u"
  "starts_due (u\<lparr>ap_visible := b2\<rparr>) = starts_due u" "starts_due (u\<lparr>ap_open := b2\<rparr>) = starts_due u"
  "starts_due (u\<lparr>ap_devices := ds\<rparr>) = starts_due u" "starts_due (u\<lparr>ap_lang := lang\<rparr>) = starts_due u"
  "starts_due (build_body u) = starts_due u" "starts_due (set_disk dd u) = starts_due u"
  by (simp_all add: starts_due_def set_status_def dialog_def populate_def mark_meta_seen_def apply_counts_def
      refresh_login_state_def set_daemon_buttons_def build_body_def set_disk_def split: sum.split option.split)

lemma due_submit_busy: "(\<And>c. job_weight (j c) = n) \<Longrightarrow> starts_due (submit_busy j b u) \<le> starts_due u + n"
  by (simp add: submit_busy_def)

lemma due_refresh [simp]: "starts_due (refresh_view b u) = starts_due u"
  by (simp add: refresh_view_def submit_busy_def Let_def)

lemma due_show_browse [simp]: "starts_due (show_browse b br u) = starts_due u"
  by (simp add: show_browse_def Let_def)

lemma due_after_write [simp]: "starts_due (after_write u) = starts_due u"
  by (simp add: after_write_def)

lemma due_refresh_daemon [simp]: "starts_due (refresh_daemon u) = starts_due u"
  by (simp add: refresh_daemon_def Let_def)

lemma due_on_daemon: "starts_due (on_daemon r u) \<le> starts_due u"
proof -
  let ?u = "set_daemon_buttons (Some False) (u\<lparr>ap_daemon := (''daemon_stopped'', [])\<rparr>)"
  have s: "ap_started ?u = ap_started u" by (simp add: set_daemon_buttons_def)
  have "starts_due (start_daemon (set_status k [] (v\<lparr>ap_started := True\<rparr>))) \<le> starts_due v" if "\<not> ap_started v" for v k
    using that by (simp add: start_daemon_def submit_busy_def starts_due_def set_status_def dialog_def submit_job_def)
  from this [of ?u] s show ?thesis
    by (auto simp: on_daemon_def Let_def split: sum.split payload.split)
qed

lemma due_take_config: "starts_due (take_config p u) \<le> Suc (starts_due u)"
proof -
  have "starts_due (u\<lparr>ap_config := c, ap_vpath := v, ap_path := q, ap_started := False\<rparr>) \<le> Suc (starts_due u)" for c v q
    by (simp add: starts_due_def)
  then show ?thesis by (simp add: take_config_def)
qed

lemma due_on_ok: "job_weight j = 0 \<or> (\<exists>c. j = J_start c) \<Longrightarrow> starts_due (on_ok e j p u) \<le> starts_due u"
  by (cases j) (auto simp: handler_defs split: payload.split)

lemma due_callback: "starts_due (callback e j r u) \<le> starts_due u + result_weight (j, r)"
proof (cases j)
  case (J_create b l n k)
  then show ?thesis using due_take_config [of _ u]
    by (auto simp: handler_defs split: sum.split payload.split)
qed (use due_on_daemon due_on_ok in \<open>auto simp: finish_busy_def handler_defs split: sum.split payload.split intro: order_trans\<close>)

lemma due_deliver: "starts_due (deliver e u) \<le> starts_due u"
proof (cases "if ap_ticking u then wk_results (ap_worker u) else []")
  case Nil
  then show ?thesis by (simp add: deliver_def take_result_def split: if_splits)
next
  case (Cons x xs)
  then have t: "ap_ticking u" "wk_results (ap_worker u) = x # xs" by (simp_all split: if_splits)
  obtain j r where x: "x = (j, r)" by (cases x)
  let ?v = "u\<lparr>ap_worker := (ap_worker u)\<lparr>wk_results := xs\<rparr>\<rparr>"
  have "starts_due u = starts_due ?v + result_weight (j, r)" using t x by (simp add: starts_due_def queue_weight_def)
  moreover have "deliver e u = callback e j r ?v" using t x by (simp add: deliver_def take_result_def)
  ultimately show ?thesis using due_callback [of e j r ?v] by simp
qed

lemma job_spawns: "run_job e j d = (r, d1) \<Longrightarrow> length (dk_spawned d1) + result_weight (j, r) \<le> length (dk_spawned d) + job_weight j"
  by (cases j) (auto simp: with_gui_def Let_def split: sum.splits prod.splits)

lemma due_work:
  assumes "work (run_job e) (ap_worker u, ap_desk u) = (w, d)"
  shows "starts_due (u\<lparr>ap_worker := w, ap_desk := d\<rparr>) \<le> starts_due u"
proof (cases "wk_alive (ap_worker u) \<and> wk_tasks (ap_worker u) \<noteq> []")
  case False
  then have "w = ap_worker u" "d = ap_desk u" using assms by (auto simp: work_def split: list.splits)
  then show ?thesis by simp
next
  case True
  then obtain j ts where j: "wk_tasks (ap_worker u) = j # ts" by (cases "wk_tasks (ap_worker u)") auto
  obtain r d1 where r: "run_job e j (ap_desk u) = (r, d1)" by (metis surj_pair)
  show ?thesis
    using True assms j r job_spawns [OF r]
    by (auto simp: work_def starts_due_def queue_weight_def split: if_splits)
qed

lemma due_edit: "starts_due (edit_sources b f u) \<le> starts_due u"
  by (auto simp: edit_sources_def split: prod.split sum.split)

lemma due_language: "starts_due (set_language l u) = starts_due u"
  by (simp add: set_language_def Let_def)

lemma due_quit: "starts_due (quit_app u) = starts_due u"
proof -
  have "starts_due (u\<lparr>ap_desk := (ap_desk u)\<lparr>dk_daemons := ws\<rparr>\<rparr>) = starts_due u" for ws by (simp add: starts_due_def)
  then show ?thesis by (simp add: quit_app_def Let_def split: sum.split)
qed

lemma due_poll: "starts_due (poll_meta u) = starts_due u"
  by (simp add: poll_meta_def split: sum.split)

lemma due_buttons:
  "starts_due (upload l u) \<le> starts_due u" "starts_due (download i l u) \<le> starts_due u"
  "starts_due (delete_rows ks u) \<le> starts_due u" "starts_due (move_row i p u) \<le> starts_due u"
  "starts_due (copy_row i p u) \<le> starts_due u" "starts_due (start_daemon u) \<le> Suc (starts_due u)"
  by (auto simp: upload_def download_def delete_rows_def move_row_def copy_row_def start_daemon_def submit_busy_def Let_def
      split: option.split)

lemma due_handle:
  assumes "enabled ev u"
  shows "starts_due (handle_event e ev u) \<le> starts_due u + event_weight ev"
proof (cases ev)
  case Work_Turn
  then show ?thesis using due_work [of e u] by (auto split: prod.split)
next
  case (World d)
  then show ?thesis using assms by (simp add: enabled_def starts_due_def)
next
  case (Choose_Config p)
  then show ?thesis using due_take_config [of p u] by (simp add: handler_defs)
qed (use due_deliver due_edit due_language due_quit due_poll due_buttons in
    \<open>auto simp: handler_defs submit_busy_def split: option.split intro: order_trans\<close>)

lemma due_run:
  assumes "app_run e u0 evs u"
  shows "starts_due u \<le> starts_due u0 + sum_list (map event_weight evs)"
  using assms
proof induction
  case (continue evs u ev v)
  then have "starts_due v \<le> starts_due u + event_weight ev" using due_handle by (blast elim: app_stepE)
  with continue.IH show ?case by simp
qed simp

lemma due_init: "dk_spawned d = [] \<Longrightarrow> starts_due (app_init c l t d) = 1"
proof -
  assume d: "dk_spawned d = []"
  have "starts_due \<lparr>ap_config = c, ap_vpath = v, ap_path = p, ap_rows = [], ap_lines = [], ap_status = a, ap_daemon = b,
      ap_dialogs = [], ap_devices = [], ap_started = False, ap_seen = 0, ap_lang = l, ap_login = False, ap_logout = False,
      ap_start = False, ap_stop = False, ap_ticking = True, ap_timers = 1, ap_visible = True, ap_open = True, ap_tray = t, ap_worker = worker_init, ap_desk = d\<rparr> = 1" for a b v p
    using d by (simp add: starts_due_def queue_weight_def worker_init_def)
  then show ?thesis by (simp add: app_init_def Let_def)
qed


text \<open>A sequence of events that are enabled one after the other is a run.\<close>

fun all_enabled :: "app_env \<Rightarrow> ui_event list \<Rightarrow> app \<Rightarrow> bool" where
  "all_enabled e [] u = True"
| "all_enabled e (ev # evs) u = (enabled ev u \<and> all_enabled e evs (handle_event e ev u))"

definition after_events :: "app_env \<Rightarrow> ui_event list \<Rightarrow> app \<Rightarrow> app" where
  "after_events e evs u = fold (handle_event e) evs u"

lemma app_run_from: "app_run e u0 evs u \<Longrightarrow> all_enabled e evs2 u \<Longrightarrow> app_run e u0 (evs @ evs2) (after_events e evs2 u)"
proof (induction evs2 arbitrary: evs u)
  case (Cons ev evs2)
  have "app_run e u0 (evs @ [ev]) (handle_event e ev u)"
    using Cons.prems by (auto intro: app_run.continue app_step.event)
  from Cons.IH [OF this] Cons.prems show ?case by (simp add: after_events_def)
qed (simp add: after_events_def)

lemma events_run: "all_enabled e evs u \<Longrightarrow> app_run e u evs (after_events e evs u)"
  using app_run_from [OF app_run.start] by fastforce

section \<open>What the window shows\<close>

definition good_key :: "string \<Rightarrow> string list \<Rightarrow> bool" where
  "good_key k given \<longleftrightarrow> k = [] \<or>
     (case map_of text_fields k of None \<Rightarrow> False | Some ns \<Rightarrow> list_all (\<lambda>n. n \<in> set given) ns)"

definition good_caption :: "caption \<Rightarrow> bool" where
  "good_caption c \<longleftrightarrow> good_key (fst c) (map fst (snd c))"

definition app_ok :: "app \<Rightarrow> bool" where
  "app_ok u \<longleftrightarrow> good_caption (ap_status u) \<and> good_caption (ap_daemon u) \<and> list_all good_caption (ap_dialogs u) \<and>
     \<not> (ap_login u \<and> ap_logout u) \<and> \<not> (ap_start u \<and> ap_stop u)"

lemma good_keys:
  "good_key ''select_config_hint'' []"
  "good_key ''login_required'' []"
  "good_key ''busy_browse'' []"
  "good_key ''daemon_start_busy'' []"
  "good_key ''daemon_running'' [''pid'']"
  "good_key ''daemon_stale'' []"
  "good_key ''daemon_stopped'' []"
  "good_key ''daemon_starting'' []"
  "good_key ''daemon_unknown'' []"
  "good_key ''download_done'' [''path'', ''size'']"
  "good_key ''daemon_started'' [''pid'']"
  "good_key ''daemon_stop_req'' []"
  "good_key ''login_ok'' [''email'']"
  "good_key ''logout_ok'' []"
  "good_key ''ready'' []"
  "good_key ''err_status'' [''msg'']"
  "good_key ''uploading'' [''name'']"
  "good_key ''downloading'' [''name'']"
  "good_key ''delete_busy'' []"
  "good_key ''move_busy'' []"
  "good_key ''copy_busy'' []"
  "good_key ''nc_busy'' []"
  "good_key ''mkdir_busy'' []"
  "good_key ''devices_busy'' []"
  "good_key ''login_busy'' []"
  "good_key ''logout_busy'' []"
  "good_key ''daemon_stop_busy'' []"
  "good_key ''tray_minimised'' []"
  "good_key ''tray_disabled_hint'' []"
  "good_key [] []"
  "good_key ''cap'' [''used'', ''total'', ''avail'', ''pending'']"
  "good_key ''need_config'' []"
  "good_key ''devices_title'' []"
  "good_key ''err'' []"
  "good_key ''new_config'' []"
  "good_key ''download_pick'' []"
  "good_key ''copy_pick'' []"
  "good_key ''sources_title'' []"
  by code_simp+

lemma good_captions [simp]:
  "good_caption (''select_config_hint'', [])" "good_caption (''login_required'', [])" "good_caption (''busy_browse'', [])"
  "good_caption (''daemon_start_busy'', [])" "good_caption (''daemon_running'', [(''pid'', x)])"
  "good_caption (''daemon_stale'', [])" "good_caption (''daemon_stopped'', [])" "good_caption (''daemon_starting'', [])"
  "good_caption (''daemon_unknown'', [])" "good_caption (''download_done'', [(''path'', x), (''size'', y)])"
  "good_caption (''daemon_started'', [(''pid'', x)])" "good_caption (''daemon_stop_req'', [])"
  "good_caption (''login_ok'', [(''email'', x)])" "good_caption (''logout_ok'', [])" "good_caption (''ready'', [])"
  "good_caption (''err_status'', [(''msg'', x)])" "good_caption (''uploading'', [(''name'', x)])"
  "good_caption (''downloading'', [(''name'', x)])" "good_caption (''delete_busy'', [])" "good_caption (''move_busy'', [])"
  "good_caption (''copy_busy'', [])" "good_caption (''nc_busy'', [])" "good_caption (''mkdir_busy'', [])"
  "good_caption (''devices_busy'', [])" "good_caption (''login_busy'', [])" "good_caption (''logout_busy'', [])"
  "good_caption (''daemon_stop_busy'', [])" "good_caption (''tray_minimised'', [])" "good_caption ([], [])"
  "good_caption (''cap'', [(''used'', x), (''total'', y), (''avail'', z), (''pending'', q)])"
  "good_caption (''need_config'', [])" "good_caption (''devices_title'', [])" "good_caption (''err'', [])"
  "good_caption (''new_config'', [])" "good_caption (''download_pick'', [])" "good_caption (''copy_pick'', [])"
  "good_caption (''sources_title'', [])" "good_caption (''tray_disabled_hint'', [])"
  by (simp_all add: good_caption_def good_keys)

lemma ok_frames [simp]:
  "app_ok (submit_job j u) = app_ok u" "app_ok (populate rows u) = app_ok u" "app_ok (mark_meta_seen u) = app_ok u"
  "app_ok (apply_counts vp cs u) = app_ok u" "app_ok (u\<lparr>ap_vpath := p\<rparr>) = app_ok u" "app_ok (u\<lparr>ap_path := p\<rparr>) = app_ok u"
  "app_ok (u\<lparr>ap_seen := m\<rparr>) = app_ok u" "app_ok (u\<lparr>ap_timers := t\<rparr>) = app_ok u" "app_ok (u\<lparr>ap_visible := b\<rparr>) = app_ok u"
  "app_ok (u\<lparr>ap_open := b\<rparr>) = app_ok u" "app_ok (u\<lparr>ap_started := b\<rparr>) = app_ok u" "app_ok (u\<lparr>ap_worker := w\<rparr>) = app_ok u"
  "app_ok (u\<lparr>ap_desk := d\<rparr>) = app_ok u" "app_ok (u\<lparr>ap_worker := w, ap_desk := d\<rparr>) = app_ok u"
  "app_ok (u\<lparr>ap_config := c\<rparr>) = app_ok u" "app_ok (u\<lparr>ap_lang := l\<rparr>) = app_ok u" "app_ok (u\<lparr>ap_lines := ls\<rparr>) = app_ok u"
  "app_ok (u\<lparr>ap_devices := ds\<rparr>) = app_ok u" "app_ok (set_disk dd u) = app_ok u"
  by (simp_all add: app_ok_def submit_job_def populate_def mark_meta_seen_def apply_counts_def set_disk_def split: sum.split)

lemma ok_set [intro!]:
  "app_ok u \<Longrightarrow> good_caption (k, fs) \<Longrightarrow> app_ok (set_status k fs u)"
  "app_ok u \<Longrightarrow> good_caption (k, []) \<Longrightarrow> app_ok (dialog k u)"
  "app_ok u \<Longrightarrow> good_caption c \<Longrightarrow> app_ok (u\<lparr>ap_daemon := c\<rparr>)" "app_ok u \<Longrightarrow> good_caption c \<Longrightarrow> app_ok (u\<lparr>ap_status := c\<rparr>)"
  "app_ok u \<Longrightarrow> app_ok (set_daemon_buttons r u)" "app_ok u \<Longrightarrow> app_ok (refresh_login_state u)"
  by (auto simp: app_ok_def set_status_def dialog_def set_daemon_buttons_def refresh_login_state_def split: option.split sum.split)

lemma ok_build_body [intro!]: "app_ok u \<Longrightarrow> app_ok (build_body u)"
  by (auto simp: build_body_def)

lemma ok_submit_busy [intro!]: "app_ok u \<Longrightarrow> good_caption b \<Longrightarrow> app_ok (submit_busy j b u)"
  by (cases b) (auto simp: submit_busy_def)

lemma ok_refresh [intro!]: "app_ok u \<Longrightarrow> app_ok (refresh_view b u)"
  by (auto simp: refresh_view_def Let_def)

lemma ok_show_browse [intro!]: "app_ok u \<Longrightarrow> app_ok (show_browse b br u)"
  by (auto simp: show_browse_def Let_def)

lemma ok_after_write [intro!]: "app_ok u \<Longrightarrow> app_ok (after_write u)"
  by (auto simp: after_write_def)

lemma ok_refresh_daemon [intro!]: "app_ok u \<Longrightarrow> app_ok (refresh_daemon u)"
  by (auto simp: refresh_daemon_def Let_def)

lemma ok_take_config [intro!]: "app_ok u \<Longrightarrow> app_ok (take_config p u)"
  by (auto simp: take_config_def)

lemma ok_start_daemon [intro!]: "app_ok u \<Longrightarrow> app_ok (start_daemon u)"
  by (auto simp: start_daemon_def)

lemma ok_on_daemon [intro!]: "app_ok u \<Longrightarrow> app_ok (on_daemon r u)"
  by (auto simp: on_daemon_def Let_def split: sum.split payload.split)

lemma ok_on_ok [intro!]: "app_ok u \<Longrightarrow> app_ok (on_ok e j p u)"
  by (cases j) (auto simp: handler_defs split: payload.split)

lemma ok_callback [intro!]: "app_ok u \<Longrightarrow> app_ok (callback e j r u)"
  by (cases j) (auto simp: finish_busy_def handler_defs split: sum.split payload.split)

lemma ok_deliver [intro!]: "app_ok u \<Longrightarrow> app_ok (deliver e u)"
  by (auto simp: deliver_def split: prod.split option.split)

lemma ok_language [intro!]: "app_ok u \<Longrightarrow> app_ok (set_language l u)"
  by (auto simp: set_language_def Let_def)

lemma ok_edit [intro!]: "app_ok u \<Longrightarrow> app_ok (edit_sources b f u)"
  by (auto simp: edit_sources_def split: prod.split sum.split)

lemma ok_quit [intro!]: "app_ok u \<Longrightarrow> app_ok (quit_app u)"
  by (auto simp: quit_app_def Let_def split: sum.split)

lemma ok_handle: "app_ok u \<Longrightarrow> app_ok (handle_event e ev u)"
  by (cases ev)
    (auto simp: handler_defs poll_meta_def upload_def download_def delete_rows_def move_row_def copy_row_def Let_def
      split: prod.split option.split sum.split)

lemma ok_init: "app_ok (app_init c l t d)"
proof -
  have "app_ok \<lparr>ap_config = c, ap_vpath = ''/'', ap_path = [], ap_rows = [], ap_lines = [], ap_status = ([], []),
      ap_daemon = ([], []), ap_dialogs = [], ap_devices = [], ap_started = False, ap_seen = 0, ap_lang = l,
      ap_login = False, ap_logout = False, ap_start = False, ap_stop = False, ap_ticking = True, ap_timers = 1,
      ap_visible = True, ap_open = True, ap_tray = t, ap_worker = worker_init, ap_desk = d\<rparr>"
    by (simp add: app_ok_def)
  then show ?thesis by (auto simp: app_init_def Let_def)
qed

lemma ok_run: "app_run e (app_init c l t d) evs u \<Longrightarrow> app_ok u"
  by (induction rule: app_run.induct) (auto simp: ok_init elim!: app_stepE intro: ok_handle)

lemma good_formats:
  assumes "good_caption c" and "fst c \<noteq> []"
  shows "\<exists>t s. map_of (get_text lang) (fst c) = Some t \<and> format_text (map_of (map (\<lambda>(k, v). (k, asc v)) (snd c))) t = Inr s"
proof -
  obtain ns where n: "map_of text_fields (fst c) = Some ns" "set ns \<subseteq> set (map fst (snd c))"
    using assms by (auto simp: good_caption_def good_key_def list_all_iff split: option.splits)
  have "dom (map_of (map (\<lambda>(k, v). (k, asc v)) (snd c))) = set (map fst (snd c))"
    by (auto simp: dom_map_of_conv_image_fst image_image split_beta)
  with n show ?thesis by (intro message_formats) auto
qed


section \<open>Examples\<close>

definition plain_desk :: desk where
  "plain_desk = \<lparr>dk_gui = plain_gui, dk_db = \<lambda>c. md sample_full, dk_mtime = \<lambda>f. None,
     dk_daemons = \<lambda>db. \<lparr>clock = 0, control = None, sentinel = False\<rparr>, dk_spawned = []\<rparr>"

definition plain_app_env :: app_env where
  "plain_app_env = \<lparr>ae_session = shell_env, ae_jenv = sample_env, ae_rep = idle_holders, ae_depth = 9, ae_writable = \<lambda>f. True,
     ae_create = plain_create, ae_gone = \<lambda>db t. True, ae_frozen = False, ae_exe = ''python'', ae_repo = ''/r'',
     ae_open_log = \<lambda>l. Inr (), ae_popen = \<lambda>c l. Inr 7, ae_str = \<lambda>x. ''failed''\<rparr>"

definition plain_app :: "desk \<Rightarrow> app" where
  "plain_app d = app_init (Some ''/c'') ''en'' True d"

definition start_events :: "ui_event list" where
  "start_events = [Daemon_Timer, Work_Turn, Deliver, Work_Turn, Deliver]"

lemma start_run: "app_run plain_app_env (plain_app plain_desk) start_events (after_events plain_app_env start_events (plain_app plain_desk))"
  by (rule events_run) code_simp


lemma start_spawns: "dk_spawned (ap_desk (after_events plain_app_env start_events (plain_app plain_desk))) = [''/c'']"
  by code_simp


definition counting :: "nat \<Rightarrow> nat \<Rightarrow> nat result \<times> nat" where
  "counting t n = (Inr (t + n), Suc n)"

section \<open>Divergences\<close>

text \<open>Without a usable key the assembly of the volume exits the process. On the thread of the worker
  that only ends the thread: the window goes on to show that it is loading, and no job that is
  submitted afterwards is ever run (\<open>dead_worker_answers_nothing\<close>).\<close>

definition keyless :: app_env where
  "keyless = plain_app_env\<lparr>ae_session := shell_env\<lparr>se_key := \<lambda>v. None\<rparr>\<rparr>"

definition logged_in_desk :: desk where
  "logged_in_desk = plain_desk\<lparr>dk_gui := plain_gui\<lparr>g_proc := signed_in_process\<rparr>\<rparr>"

lemma bad_key_kills_worker:
  "let u = after_events keyless [Work_Turn, Deliver] (plain_app logged_in_desk)
   in \<not> wk_alive (ap_worker u) \<and> wk_results (ap_worker u) = [] \<and> ap_status u = (''busy_browse'', [])"
  by code_simp

text \<open>The path changes at once, the list only when its result arrives. A row that is deleted in
  between is deleted in the directory that is not yet shown.\<close>

lemma delete_hits_other_directory:
  "let u = after_events plain_app_env [Work_Turn, Deliver, Type_Path ''/b'', Refresh, Do_Delete [0]] (plain_app logged_in_desk)
   in map (\<lambda>l. fl_name (fst l)) (ap_lines u) = [''a''] \<and>
      J_remove ''/c'' [(''/b/a'', False)] \<in> set (wk_tasks (ap_worker u))"
  by code_simp

text \<open>A listing that was asked for before a logout is shown after it.\<close>

lemma listing_after_logout:
  "let u = after_events plain_app_env [Work_Turn, Deliver, Logout_Clicked, Refresh, Work_Turn, Work_Turn, Deliver, Deliver]
       (plain_app logged_in_desk)
   in \<not> app_logged_in u \<and> ap_lines u \<noteq> []"
  by code_simp

text \<open>Every choice of a configuration arms one more timer, and none is ever taken back.\<close>

lemma timers_add_up: "ap_timers (take_config p u) = Suc (ap_timers u)"
  by (simp add: take_config_def refresh_login_state_def refresh_daemon_def refresh_view_def submit_busy_def submit_job_def
      set_status_def populate_def dialog_def Let_def split: sum.split)

text \<open>Leaving the program while the daemon it has just started has not written its control file
  leaves the daemon running.\<close>

lemma quit_misses_starting_daemon:
  "let u = after_events plain_app_env (start_events @ [Quit]) (plain_app plain_desk)
   in dk_spawned (ap_desk u) = [''/c''] \<and> \<not> sentinel (dk_daemons (ap_desk u) ''/m'') \<and> \<not> ap_open u"
  by code_simp

text \<open>
  A change of the language builds a new, empty list, while the rows of the old one are remembered
  until the next listing arrives. Numbers of copies that arrive in between are set on lines that
  do not exist; the error ends the timer that polls the worker, and no result is delivered ever
  after.
\<close>

definition holders_known :: app_env where
  "holders_known = plain_app_env\<lparr>ae_rep := idle_holders\<lparr>token := Inr (), chunks_answer := \<lambda>f. Inr [(''c'', 0)]\<rparr>\<rparr>"

definition pending_desk :: desk where
  "pending_desk = logged_in_desk\<lparr>dk_db := \<lambda>c. snd (set_replication_status ''/a'' ''pending'' (md sample_full))\<rparr>"

lemma language_change_stops_results:
  "let u = after_events holders_known [Work_Turn, Deliver, Language ''ko'', Work_Turn, Deliver, Work_Turn, Deliver] (plain_app pending_desk)
   in \<not> ap_ticking u \<and> ap_lines u = [] \<and> length (wk_results (ap_worker u)) = 1 \<and> ap_status u = (''busy_browse'', [])"
  by code_simp

lemma no_tick_no_result: "\<not> ap_ticking u \<Longrightarrow> deliver e u = u"
  by (simp add: deliver_def)

end
