(* ===== verification/Entry_Point.thy ===== *)
theory Entry_Point
  imports Gui_Actions
begin

text \<open>
  The start of the program: the subcommands that \<^verbatim>\<open>src/stardustfs.py\<close> and
  \<^verbatim>\<open>stardustlib/cli/dispatcher.py\<close> declare, the arguments that the commands read from the
  namespace of the parser, and the choice of what to run. The parser is the one of the standard
  library; of it is used what it promises about the namespace (\<open>parsed\<close>).
\<close>

section \<open>Declarations\<close>

text \<open>A required or optional positional argument, a flag, an option with a value, a choice.\<close>

datatype argument =
    Required string
  | Optional string "string option"
  | Flag string
  | Valued string
  | Choice string "string list" string

definition subcommands :: "(string \<times> argument list) list" where
  "subcommands = [
     (''df'', [Flag ''json'']),
     (''ls'', [Optional ''path'' (Some ''/''), Flag ''json'']),
     (''status'', [Flag ''json'']),
     (''devices'', [Flag ''json'']),
     (''put'', [Required ''local'', Optional ''remote'' None]),
     (''get'', [Required ''remote'', Optional ''local'' None]),
     (''rm'', [Required ''path'', Flag ''recursive'']),
     (''mkdir'', [Required ''path'']),
     (''mv'', [Required ''src'', Required ''dst'']),
     (''cp'', [Required ''src'', Required ''dst'']),
     (''backup'', [Required ''path'']),
     (''restore'', [Required ''path'']),
     (''heal'', [Required ''path'']),
     (''login'', [Valued ''email'', Valued ''password'', Valued ''key_password'']),
     (''logout'', [])]"

definition all_subcommands :: "(string \<times> argument list) list" where
  "all_subcommands =
     [(''daemon'', [Choice ''action'' [''start'', ''status'', ''stop''] ''start'']), (''gui'', [])] @ subcommands"

text \<open>The namespace: \<open>command\<close> and \<open>config\<close> are always there, the rest depends on the command.\<close>

datatype arg_value = Missing | Text string | Truth bool

record namespace =
  ns_command :: "string option"
  ns_config :: "string option"
  ns_rest :: "string \<rightharpoonup> arg_value"

fun fits :: "(string \<rightharpoonup> arg_value) \<Rightarrow> argument \<Rightarrow> bool" where
  "fits a (Required n) = (case a n of Some (Text s) \<Rightarrow> True | _ \<Rightarrow> False)"
| "fits a (Optional n d) =
     (case a n of Some (Text s) \<Rightarrow> True | Some Missing \<Rightarrow> d = None | _ \<Rightarrow> False)"
| "fits a (Flag n) = (case a n of Some (Truth b) \<Rightarrow> True | _ \<Rightarrow> False)"
| "fits a (Valued n) = (case a n of Some (Text s) \<Rightarrow> True | Some Missing \<Rightarrow> True | _ \<Rightarrow> False)"
| "fits a (Choice n cs d) = (case a n of Some (Text s) \<Rightarrow> s \<in> set cs | _ \<Rightarrow> False)"

definition parsed :: "namespace \<Rightarrow> bool" where
  "parsed ns \<longleftrightarrow> (case ns_command ns of
     None \<Rightarrow> True
   | Some c \<Rightarrow> (case map_of all_subcommands c of None \<Rightarrow> False | Some args \<Rightarrow> list_all (fits (ns_rest ns)) args))"

section \<open>What the commands read\<close>

text \<open>\<open>args.name\<close>: an attribute that is not there raises \<open>AttributeError\<close>; a value of another type
  is none that the parser stores.\<close>

definition text_arg :: "namespace \<Rightarrow> string \<Rightarrow> string result" where
  "text_arg ns n = (case ns_rest ns n of None \<Rightarrow> Inl AttributeError | Some (Text s) \<Rightarrow> Inr s | Some v \<Rightarrow> Inl TypeError)"

definition optional_arg :: "namespace \<Rightarrow> string \<Rightarrow> string option result" where
  "optional_arg ns n =
     (case ns_rest ns n of None \<Rightarrow> Inl AttributeError | Some (Text s) \<Rightarrow> Inr (Some s) | Some Missing \<Rightarrow> Inr None
      | Some v \<Rightarrow> Inl TypeError)"

definition flag_arg :: "namespace \<Rightarrow> string \<Rightarrow> bool result" where
  "flag_arg ns n = (case ns_rest ns n of None \<Rightarrow> Inl AttributeError | Some (Truth b) \<Rightarrow> Inr b | Some v \<Rightarrow> Inl TypeError)"

definition with_arg :: "'a result \<Rightarrow> ('a \<Rightarrow> 'b result) \<Rightarrow> 'b result" where
  "with_arg r f = (case r of Inl x \<Rightarrow> Inl x | Inr v \<Rightarrow> f v)"

definition read_command :: "namespace \<Rightarrow> string \<Rightarrow> command option result" where
  "read_command ns c =
     (if c = ''df'' then with_arg (flag_arg ns ''json'') (\<lambda>j. Inr (Some Df))
      else if c = ''ls'' then with_arg (optional_arg ns ''path'') (\<lambda>p. with_arg (flag_arg ns ''json'') (\<lambda>j. Inr (Some (Ls p))))
      else if c = ''status'' then with_arg (flag_arg ns ''json'') (\<lambda>j. Inr (Some Status))
      else if c = ''devices'' then with_arg (flag_arg ns ''json'') (\<lambda>j. Inr (Some Devices))
      else if c = ''put'' then with_arg (text_arg ns ''local'') (\<lambda>l. with_arg (optional_arg ns ''remote'') (\<lambda>r. Inr (Some (Put l r))))
      else if c = ''get'' then with_arg (text_arg ns ''remote'') (\<lambda>r. with_arg (optional_arg ns ''local'') (\<lambda>l. Inr (Some (Get r l))))
      else if c = ''rm'' then with_arg (text_arg ns ''path'') (\<lambda>p. with_arg (flag_arg ns ''recursive'') (\<lambda>b. Inr (Some (Rm b p))))
      else if c = ''mkdir'' then with_arg (text_arg ns ''path'') (\<lambda>p. Inr (Some (Mkdir p)))
      else if c = ''mv'' then with_arg (text_arg ns ''src'') (\<lambda>s. with_arg (text_arg ns ''dst'') (\<lambda>d. Inr (Some (Mv s d))))
      else if c = ''cp'' then with_arg (text_arg ns ''src'') (\<lambda>s. with_arg (text_arg ns ''dst'') (\<lambda>d. Inr (Some (Cp s d))))
      else if c = ''backup'' then with_arg (text_arg ns ''path'') (\<lambda>p. Inr (Some (Backup p)))
      else if c = ''restore'' then with_arg (text_arg ns ''path'') (\<lambda>p. Inr (Some (Restore p)))
      else if c = ''heal'' then with_arg (text_arg ns ''path'') (\<lambda>p. Inr (Some (Heal p)))
      else Inr None)"

text \<open>The variables of the environment and what is typed, for \<open>login\<close>.\<close>

record typed =
  ty_env :: "string \<Rightarrow> string option"
  ty_email :: string
  ty_password :: string

definition read_login :: "typed \<Rightarrow> namespace \<Rightarrow> login_args result" where
  "read_login t ns =
     with_arg (optional_arg ns ''email'') (\<lambda>mail. with_arg (optional_arg ns ''password'') (\<lambda>pw.
       with_arg (optional_arg ns ''key_password'') (\<lambda>kp. Inr
         \<lparr>la_email = (mail, ty_env t ''STARDUST_EMAIL'', ty_email t),
          la_password = (pw, ty_env t ''STARDUST_PASSWORD'', ty_password t),
          la_key_password = (kp, ty_env t ''STARDUST_KEY_PASSWORD'')\<rparr>)))"

section \<open>Running\<close>

text \<open>The order in which a handler reads its arguments is left out: they are read first. For a command
  line that the parser has accepted that makes no difference (\<open>arguments_reach_commands\<close>).\<close>

definition run_cli :: "cli_env \<Rightarrow> typed \<Rightarrow> namespace \<Rightarrow> disk \<Rightarrow> process \<Rightarrow> int result \<times> process" where
  "run_cli e t ns d w =
     (if \<not> truthy (ns_config ns) then (Inr 2, w)
      else (case ns_command ns of
        None \<Rightarrow> (Inr 2, w)
      | Some c \<Rightarrow>
          if c = ''login'' then
            (case read_login t ns of
              Inl x \<Rightarrow> (Inl x, w)
            | Inr args \<Rightarrow> cmd_login (se_auth (cl_session e)) args (the (ns_config ns)) d w)
          else if c = ''logout'' then cmd_logout (the (ns_config ns)) d w
          else (case read_command ns c of
              Inl x \<Rightarrow> (Inl x, w)
            | Inr None \<Rightarrow> (Inr 2, w)
            | Inr (Some cmd) \<Rightarrow> run_command e cmd (ns_config ns) d w)))"

text \<open>How the program goes on: it ends with a code or an exception, opens the window, or serves.\<close>

datatype course = Ended "int result" | Window "string option" | Serves string

definition main_daemon ::
  "(string \<Rightarrow> time \<Rightarrow> bool) \<Rightarrow> (string \<Rightarrow> Daemon.world) \<Rightarrow> string \<Rightarrow> string \<Rightarrow> disk \<Rightarrow> course" where
  "main_daemon gone worlds action path d =
     (if action = ''status'' then Ended (with_daemon path d (\<lambda>db. daemon_status_exit (worlds db)))
      else if action = ''stop'' then
        Ended (with_daemon path d (\<lambda>db. daemon_stop_exit (fst (request_stop (gone db) (worlds db)))))
      else (case run_daemon (load path d)
              (case with_daemon path d id of Inl x \<Rightarrow> worlds [] | Inr db \<Rightarrow> worlds db) of
          Inl x \<Rightarrow> Ended (Inl x)
        | Inr (Exit n) \<Rightarrow> Ended (Inr n)
        | Inr Startup \<Rightarrow> Serves path))"

text \<open>\<open>main\<close> after the parser; \<open>parser.error\<close> ends with code 2, and the action of \<open>daemon\<close> is not
  there if no subcommand is given.\<close>

definition main ::
  "cli_env \<Rightarrow> typed \<Rightarrow> (string \<Rightarrow> time \<Rightarrow> bool) \<Rightarrow> (string \<Rightarrow> Daemon.world) \<Rightarrow> namespace \<Rightarrow> disk \<Rightarrow> process \<Rightarrow>
     course \<times> process" where
  "main e t gone worlds ns d w =
     (if ns_command ns \<noteq> None \<and> is_cli_command (the (ns_command ns)) then
        (let (r, w1) = run_cli e t ns d w in (Ended r, w1))
      else if ns_command ns = Some ''gui'' then (Window (ns_config ns), w)
      else if ns_command ns = None \<and> \<not> truthy (ns_config ns) then (Window None, w)
      else if \<not> truthy (ns_config ns) then (Ended (Inr 2), w)
      else (let action = (case ns_rest ns ''action'' of Some (Text a) \<Rightarrow> a | _ \<Rightarrow> ''start'')
        in (main_daemon gone worlds action (the (ns_config ns)) d, w)))"

section \<open>The command line reaches its command\<close>

text \<open>What fitting means for each kind of argument, the declaration of each command and what it reads.\<close>

lemma fits_iff:
  "fits a (Required n) \<longleftrightarrow> (\<exists>s. a n = Some (Text s))"
  "fits a (Optional n d) \<longleftrightarrow> (\<exists>s. a n = Some (Text s)) \<or> a n = Some Missing \<and> d = None"
  "fits a (Flag n) \<longleftrightarrow> (\<exists>b. a n = Some (Truth b))"
  "fits a (Valued n) \<longleftrightarrow> (\<exists>s. a n = Some (Text s)) \<or> a n = Some Missing"
  "fits a (Choice n cs x) \<longleftrightarrow> (\<exists>s \<in> set cs. a n = Some (Text s))"
  by (auto split: option.splits arg_value.splits)

lemma declared:
  "map_of all_subcommands ''df'' = Some [Flag ''json'']"
  "map_of all_subcommands ''ls'' = Some [Optional ''path'' (Some ''/''), Flag ''json'']"
  "map_of all_subcommands ''status'' = Some [Flag ''json'']"
  "map_of all_subcommands ''devices'' = Some [Flag ''json'']"
  "map_of all_subcommands ''get'' = Some [Required ''remote'', Optional ''local'' None]"
  "map_of all_subcommands ''put'' = Some [Required ''local'', Optional ''remote'' None]"
  "map_of all_subcommands ''rm'' = Some [Required ''path'', Flag ''recursive'']"
  "map_of all_subcommands ''mkdir'' = Some [Required ''path'']"
  "map_of all_subcommands ''mv'' = Some [Required ''src'', Required ''dst'']"
  "map_of all_subcommands ''cp'' = Some [Required ''src'', Required ''dst'']"
  "map_of all_subcommands ''backup'' = Some [Required ''path'']"
  "map_of all_subcommands ''restore'' = Some [Required ''path'']"
  "map_of all_subcommands ''heal'' = Some [Required ''path'']"
  "map_of all_subcommands ''login'' = Some [Valued ''email'', Valued ''password'', Valued ''key_password'']"
  "map_of all_subcommands ''logout'' = Some []"
  "map_of all_subcommands ''gui'' = Some []"
  "map_of all_subcommands ''daemon'' = Some [Choice ''action'' [''start'', ''status'', ''stop''] ''start'']"
  by code_simp+

lemma commands_read:
  "read_command ns ''df'' = with_arg (flag_arg ns ''json'') (\<lambda>j. Inr (Some Df))"
  "read_command ns ''ls'' = with_arg (optional_arg ns ''path'') (\<lambda>p. with_arg (flag_arg ns ''json'') (\<lambda>j. Inr (Some (Ls p))))"
  "read_command ns ''status'' = with_arg (flag_arg ns ''json'') (\<lambda>j. Inr (Some Status))"
  "read_command ns ''devices'' = with_arg (flag_arg ns ''json'') (\<lambda>j. Inr (Some Devices))"
  "read_command ns ''get'' = with_arg (text_arg ns ''remote'') (\<lambda>r. with_arg (optional_arg ns ''local'') (\<lambda>l. Inr (Some (Get r l))))"
  "read_command ns ''put'' = with_arg (text_arg ns ''local'') (\<lambda>l. with_arg (optional_arg ns ''remote'') (\<lambda>r. Inr (Some (Put l r))))"
  "read_command ns ''rm'' = with_arg (text_arg ns ''path'') (\<lambda>p. with_arg (flag_arg ns ''recursive'') (\<lambda>b. Inr (Some (Rm b p))))"
  "read_command ns ''mkdir'' = with_arg (text_arg ns ''path'') (\<lambda>p. Inr (Some (Mkdir p)))"
  "read_command ns ''mv'' = with_arg (text_arg ns ''src'') (\<lambda>s. with_arg (text_arg ns ''dst'') (\<lambda>d. Inr (Some (Mv s d))))"
  "read_command ns ''cp'' = with_arg (text_arg ns ''src'') (\<lambda>s. with_arg (text_arg ns ''dst'') (\<lambda>d. Inr (Some (Cp s d))))"
  "read_command ns ''backup'' = with_arg (text_arg ns ''path'') (\<lambda>p. Inr (Some (Backup p)))"
  "read_command ns ''restore'' = with_arg (text_arg ns ''path'') (\<lambda>p. Inr (Some (Restore p)))"
  "read_command ns ''heal'' = with_arg (text_arg ns ''path'') (\<lambda>p. Inr (Some (Heal p)))"
  by (simp_all add: read_command_def)

lemmas reading = with_arg_def text_arg_def optional_arg_def flag_arg_def fits_iff

lemma session_names:
  "set (map fst handlers) = {''df'', ''ls'', ''status'', ''devices'', ''get'', ''put'', ''rm'', ''mkdir'', ''mv'', ''cp'',
     ''backup'', ''restore'', ''heal''}"
  by (simp add: handlers_def)

lemma declared_handled:
  "list_all (\<lambda>c. c \<in> set (map fst handlers @ [''login'', ''logout'', ''gui'', ''daemon''])) (map fst all_subcommands)"
  by code_simp

lemma declared_names:
  assumes "map_of all_subcommands c = Some args"
  shows "c \<in> set (map fst handlers) \<union> {''login'', ''logout'', ''gui'', ''daemon''}"
proof -
  have "(c, args) \<in> set all_subcommands" using assms by (rule map_of_SomeD)
  then have "c \<in> set (map fst all_subcommands)" by (metis fst_conv image_eqI set_map)
  with declared_handled have "c \<in> set (map fst handlers @ [''login'', ''logout'', ''gui'', ''daemon''])"
    unfolding list_all_iff by (rule bspec)
  then show ?thesis by (simp only: set_append list.set)
qed

lemma parsed_args: "parsed ns \<Longrightarrow> ns_command ns = Some c \<Longrightarrow> map_of all_subcommands c = Some args \<Longrightarrow> list_all (fits (ns_rest ns)) args"
  by (simp add: parsed_def)

lemma read_command_known:
  assumes "parsed ns" and "ns_command ns = Some c" and "c \<in> set (map fst handlers)"
  shows "\<exists>cmd. read_command ns c = Inr (Some cmd) \<and> command_name cmd = c"
proof -
  have fit: "list_all (fits (ns_rest ns)) (the (map_of all_subcommands c))"
    using assms(1,2) by (auto simp: parsed_def simp del: fits.simps split: option.splits)
  show ?thesis
    using assms(3) fit unfolding session_names
    by (elim insertE emptyE; hypsubst; clarsimp simp: declared commands_read reading simp del: fits.simps)
       (auto simp: declared commands_read reading simp del: fits.simps)
qed


definition put_line :: namespace where
  "put_line = \<lparr>ns_command = Some ''put'', ns_config = Some ''/c'', ns_rest = [''local'' \<mapsto> Text ''/x'', ''remote'' \<mapsto> Missing]\<rparr>"


end
