(* ===== verification/Spec2Isabelle.thy ===== *)
theory Spec2Isabelle
  imports Chunker Parity_Store Storage_Source Metadata_Store Schema_Migration Encryption Key_Backup
    JBOD_Manager Conflict_Resolver Sync_Client Replication_Manager Replication_Scheduler P2P_Server
    Remote_Source Auth_Client Device_Manager Online_Recovery Config_Loader Daemon Startup Commands Convergence
    Cross_Device Fleet Backup_Restore Credential_File Loopback_Image Config_Schema Hole_Punch Services CLI_Session Texts Gui_Actions Gui_App Entry_Point
begin

text \<open>
  StardustFS, an encrypted file system that spreads over the devices of a user.

  \<^bold>\<open>The program.\<close> Every device runs a daemon. Its \<^emph>\<open>volume\<close> (JBOD manager) joins local
  directories and reserved files into one name space: a file is encrypted, put on the source with
  the most free space under a generated name, and recorded in a SQLite database, the
  \<^emph>\<open>metadata store\<close>. The \<^emph>\<open>sync client\<close> exchanges the encrypted database with a central
  server, with a version number that makes it retry when another device was faster; records that
  changed on both sides are kept apart by the \<^emph>\<open>conflict resolver\<close>. A file that another device
  owns is read from it through a \<^emph>\<open>remote source\<close>, which talks to the \<^emph>\<open>P2P server\<close> of the
  owner directly or through a relay. The \<^emph>\<open>replication manager\<close> leaves encrypted chunks of the
  files on devices of other users, which keep them in a \<^emph>\<open>parity store\<close>; a \<^emph>\<open>scheduler\<close> drives
  it. Around these stand the \<^emph>\<open>authentication client\<close> with its token store, the \<^emph>\<open>device
  manager\<close> (registration, heartbeat, public address), the \<^emph>\<open>online recovery\<close>, the
  configuration, the start of the daemon, the command line with its \<^emph>\<open>sessions\<close>, and a desktop
  \<^emph>\<open>window\<close> that hands its work to a worker thread.

  \<^bold>\<open>Conventions.\<close> Strings are lists of characters, \<open>bytes\<close> are lists of \<open>8 word\<close>, a dict is an
  association list in insertion order, Python's integers are \<open>int\<close>, times are \<open>real\<close>. An
  operation that may raise returns \<open>exn + 'a\<close> (\<open>'a result\<close>), and the new state beside it, so
  that what an exception leaves behind is stated too. What comes from outside is an argument:
  the clock, random values, the faults of the operating system, the answers of the server, and
  the cryptography library. The laws assumed of the latter are the documented ones of AES-GCM
  (\<open>aead\<close> in Encryption), with a concrete instance \<open>toy_crypto\<close>; every property that assumes
  them is applied to it.

  \<^bold>\<open>Theories\<close>, in the order in which they build on each other; the files are under
  \<^verbatim>\<open>src/stardustlib\<close>, if no other place is given.

  \<^item> Prelude, Posix_Path, Base64: types, dicts, string functions, \<open>os.path\<close> and what a path
    means to the operating system, \<open>base64\<close>; the loop for a free number (\<open>free_seq\<close>); the locale
    \<open>invariant_system\<close>.
  \<^item> Models (\<^verbatim>\<open>models.py\<close>, \<^verbatim>\<open>exceptions.py\<close>): records and exceptions.
  \<^item> Chunker (\<^verbatim>\<open>chunker.py\<close>): locale \<open>chunk_codec\<close>.
  \<^item> Parity_Store (\<^verbatim>\<open>parity_store.py\<close>): the store is the index, the chunk files and the index
    file; locale \<open>owned_chunk_store\<close>, invariant \<open>parity_ok\<close>.
  \<^item> Storage_Source (\<^verbatim>\<open>storage_source.py\<close>): directory, loopback and remote sources as one record;
    faults of every system call; locale \<open>file_store\<close>, interpreted for all local sources.
  \<^item> Loopback_Image (same file): the image file and the companion directory call by call;
    \<open>lb_boot_refines\<close> relates them to the two flags of Storage_Source.
  \<^item> Metadata_Store (\<^verbatim>\<open>metadata_store.py\<close>): the two tables with their \<open>UNIQUE\<close> constraints, \<open>LIKE\<close>
    as SQLite evaluates it, transactions with rollback; \<open>row\<close> is the table as a map, and locale
    \<open>path_table\<close> its contract; invariant \<open>ms_ok\<close>.
  \<^item> Schema_Migration (same file): the three upgrades as SQL statements that may fail.
  \<^item> Encryption (\<^verbatim>\<open>encryption_engine.py\<close>, \<^verbatim>\<open>key_backup_engine.py\<close>): both containers byte by byte;
    locale \<open>sealed_codec\<close>, interpreted for both.
  \<^item> Key_Backup (\<^verbatim>\<open>src/stardustfs.py\<close>): backing up and restoring the master key.
  \<^item> JBOD_Manager (\<^verbatim>\<open>jbod_manager.py\<close>): the volume. \<open>stored\<close> says where a file is, \<open>jbod_ok\<close> is
    the invariant, and the lemmas on \<open>write_recorded\<close>, orphan collection and \<open>delete_directory\<close> carry
    the properties. \<open>delete_directory\<close> has the stack depth that is left as an argument; the
    length of the longest path is shown to be enough.
  \<^item> Conflict_Resolver (\<^verbatim>\<open>conflict_resolver.py\<close>): the search for a name is a partial function,
    proved to return.
  \<^item> Sync_Client (\<^verbatim>\<open>sync_client.py\<close>): a script gives the answers of the server together with the
    operations that other threads apply meanwhile; \<open>merge_record\<close> is the merge, \<open>merged_row\<close> its
    abstract meaning on a clean device. The upload retries at most five times
    (\<open>MAX_CAS_RETRIES\<close>), which bounds it by fifteen requests.
  \<^item> Convergence, Fleet: two devices and the server between them; any number of devices that
    edit, download and upload in any order, as the step relation \<open>fleet_step\<close> with a server that
    is only assumed to compare versions (\<open>cas_server\<close>).
  \<^item> Replication_Manager, Replication_Scheduler (\<^verbatim>\<open>replication_manager.py\<close>,
    \<^verbatim>\<open>replication_scheduler.py\<close>): placing, recovering and repairing copies, with the registry and
    the holders as answers; the requests that go out are a list of events.
  \<^item> Backup_Restore (same file, with the hosts of \<^verbatim>\<open>p2p_server.py\<close> and \<^verbatim>\<open>parity_store.py\<close>): the requests
    on the wire; \<open>delivers\<close> interleaves the pushes of a backup with whatever else the hosts serve,
    \<open>wire_env\<close> is the environment of a manager that asks them.
  \<^item> P2P_Server (\<^verbatim>\<open>p2p_server.py\<close>): \<open>handle\<close> serves an HTTP request, \<open>dispatch\<close> one that a relay
    brings; paths, tokens, share tokens, chunks of other users.
  \<^item> Remote_Source (\<^verbatim>\<open>remote_source.py\<close>, \<^verbatim>\<open>relay_client.py\<close>, \<^verbatim>\<open>relay_worker.py\<close>): the other end;
    \<open>owner_peer\<close> composes it with the P2P server of the owner.
  \<^item> Cross_Device: the file one device writes, on its way to the other: volume, database, merge, and the
    read through the remote source; \<open>plain_path\<close> is a path the manager gives.
  \<^item> Auth_Client (\<^verbatim>\<open>auth_client.py\<close>, \<^verbatim>\<open>credential_store.py\<close>): tokens in memory and in the file that
    processes share; the step relation \<open>auth_step\<close> interleaves them.
  \<^item> Credential_File (\<^verbatim>\<open>credential_store.py\<close>): the same file with inodes, permissions and the temporary
    file; \<open>save_step\<close> is one system call.
  \<^item> Device_Manager (\<^verbatim>\<open>device_manager.py\<close>), Online_Recovery (\<^verbatim>\<open>online_recovery.py\<close>,
    \<^verbatim>\<open>replication_hosting.py\<close>).
  \<^item> Config_Loader (\<^verbatim>\<open>config_loader.py\<close>): JSON values, validation, migration, the key.
  \<^item> Config_Schema (\<^verbatim>\<open>models.py\<close>): the types of the configuration, and what validation gives of them.
  \<^item> Daemon (\<^verbatim>\<open>daemon.py\<close>, \<^verbatim>\<open>src/stardustfs.py\<close>): control and sentinel file, the loop as the step
    relation \<open>daemon_step\<close>, stop requests.
  \<^item> Startup (\<^verbatim>\<open>src/stardustfs.py\<close>): assembling the volume from the configuration, mounting remote
    sources, starting and stopping the services.
  \<^item> Services: the loops that the managers start and stop as tasks of the event loop; locale
    \<open>background_service\<close>, interpreted for heartbeat, recovery, relay worker, synchronization and
    scheduler; the routes of the P2P server.
  \<^item> Hole_Punch (\<^verbatim>\<open>holepunch.py\<close>): the rendezvous and the punch over a queue of datagrams; two
    ends over a lossy network as \<open>net_step\<close>.
  \<^item> Commands, CLI_Session (\<^verbatim>\<open>cli/commands.py\<close>, \<^verbatim>\<open>cli/session.py\<close>, \<^verbatim>\<open>cli/dispatcher.py\<close>): the file
    commands; the sessions they run in with the connections these hold open, signing in and out, and
    the replication commands.
  \<^item> Entry_Point (\<^verbatim>\<open>src/stardustfs.py\<close>, \<^verbatim>\<open>cli/dispatcher.py\<close>): the declared subcommands, the arguments
    the handlers read, and the choice of what runs.
  \<^item> Texts (\<^verbatim>\<open>gui/i18n.py\<close>, \<^verbatim>\<open>cli/format.py\<close>): the messages of both languages, tables, sizes.
  \<^item> Gui_Actions (\<^verbatim>\<open>gui/actions.py\<close>): what the window asks for, with the cache of local sessions.
  \<^item> Gui_App (\<^verbatim>\<open>gui/app.py\<close>, \<^verbatim>\<open>gui/worker.py\<close>): the worker with its queues and the window as a state
    machine; jobs and callbacks, which are closures in the code, are the constructors of \<open>job\<close>.

  \<^bold>\<open>What is shown\<close>, from one component to several. A store keeps its invariant under every
  sequence of operations, versions never decrease, an upgrade of the schema loses no row. What is
  written to the volume is read back, no other file changes, orphan collection deletes nothing
  that is live, deletion ends. A merge never loses a local change and otherwise takes the newer
  record, an uploaded database is understood by every device with the key, and one round through
  the server makes two devices agree; what one of them wrote the other then reads. Operations through a
  remote source are those of the owner's source, on both ways. The P2P server serves nobody else,
  except a shared file or the chunks a user left there, and no path leaves the root of its source.
  Backups hold nothing but ciphertext and count only copies that were accepted; a file that counts as
  replicated is restored by any device with the key, whatever the hosts serve in between. A crash while
  the credentials are saved leaves the old or the new ones.
  Processes that refresh tokens under the lock never use up each other's. The volume that the
  start assembles from a valid configuration has these properties, a daemon answers stop requests
  and its cleanup stops all it started, no loop of a service outlives its stop, and \<open>get\<close> delivers
  what \<open>put\<close> stored. However many devices take part, no upload that the server stores drops a file
  of the version before it. Every accepted command line reaches its handler; a session closes what
  it opened and is online exactly between login and logout; a failing command has sent nothing.
  The actions of the window are those of the commands, it starts at most one daemon for each
  configuration, and shows only messages that exist.

  Lemmas beside the properties record where the code departs from its own documentation or
  intention, most of them on a concrete run: for instance \<open>twins_misread\<close>, \<open>server_trouble_overwrites_blob\<close>,
  \<open>slow_cleanup_hides_second_daemon\<close>, \<open>unreachable_server_aborts_start\<close>, \<open>deletion_forgotten\<close>,
  \<open>failed_creation_deletes_files\<close>, \<open>leftover_chunk_spoils_recovery\<close>, \<open>dead_lock_is_never_taken\<close>,
  \<open>one_sided_success\<close>, \<open>bad_key_kills_worker\<close> and \<open>language_change_stops_results\<close>.

  \<^bold>\<open>Bounds.\<close> Loops that poll or retry carry the number of tries of the source; the poll of a stop
  request is a recursion on the time left; background loops are given as a finite list of
  wake-ups. No result depends on a fuel value that the source does not have.

  \<^bold>\<open>Not modelled.\<close> The widgets and the icon of the desktop interface, the printing of the
  commands, the argument parser of the standard library beyond its promise about the namespace,
  logging; the sockets of the P2P server and of the hole punching session; the UPnP exchange behind
  \<open>setup_upnp\<close>; threads and event loops, apart from the
  interleavings named above; the files of the program itself failing in the middle of a write,
  except where a theory says so; the two scripts, which drive the program from outside. The central
  server is not part of the repository: it is what it answers.

  \<^bold>\<open>Left open.\<close> Fleet assumes that no tombstone is purged before every device has seen it;
  what happens otherwise is only shown on runs (\<open>deletion_forgotten\<close>). Of the work that the code does
  concurrently, the repair of several chunks and the backup of several files are taken one after
  another. The laws of the central server are hypotheses (\<open>cas_server\<close>, \<open>registry_serves\<close>,
  \<open>rotating\<close>): they could be discharged against its code, which is kept elsewhere.
\<close>

end
